(* ===== verification/HS_Prelude.thy ===== *)
theory HS_Prelude
  imports Main "HOL-Library.Word" "HOL-Library.Finite_Map"
begin

section \<open>Shared vocabulary of the development\<close>

text \<open>
  This theory holds what every component model uses: the machine integers and byte strings of the
  Rust code, faults as values, a small state-and-fault monad with a Hoare triple, hash maps, and the
  three interfaces (locales) that several components share.

  \<^item> \<^emph>\<open>Faults.\<close> \<open>IoError\<close> is an \<open>Err(..)\<close> of a \<open>Result\<close>; \<open>Panic\<close> is an \<open>unwrap\<close> on an error, an
    index out of range, or an integer overflow.  The build profile is the one the README's
    \<open>cargo run\<close> commands use (\<open>dev\<close>, overflow checks on), so an overflowing \<open>+\<close> panics.
  \<^item> \<^emph>\<open>The monad.\<close> \<open>('s, 'a) rust\<close> threads a state \<open>'s\<close> and keeps the changes made before a fault, as
    \<open>&mut self\<close> methods do.
  \<^item> \<^emph>\<open>Shared cells.\<close> An \<open>Arc<Mutex<T>>\<close> is a reference (an index) into a list of cells.
  \<^item> \<^emph>\<open>Hash maps.\<close> \<open>HashMap<K, V>\<close> is a finite map; the order in which it is iterated is not
    specified by the language, so a loop over a map takes the key order as an argument.
\<close>

named_theorems rust_simps \<open>evaluation rules of the state-and-fault monad\<close>
named_theorems frame_intros \<open>rules for computations that leave a part of the state alone\<close>
named_theorems hoare_intros \<open>proof rules for triples over the state-and-fault monad\<close>

subsection \<open>Integers and bytes\<close>

type_synonym u8 = "8 word"
type_synonym u32 = "32 word"
type_synonym u64 = "64 word"
type_synonym bytes = "u8 list"

text \<open>A number in decimal, as \<open>format!\<close> prints it.\<close>

fun decimal :: "nat \<Rightarrow> string" where
  "decimal n = (if n < 10 then [char_of (48 + n)] else decimal (n div 10) @ [char_of (48 + n mod 10)])"

declare decimal.simps [simp del]

subsection \<open>Faults and results\<close>

datatype fault = IoError string | Panic string

type_synonym 'a result = "fault + 'a"

text \<open>\<open>unwrap\<close> turns an error into a panic; a panic stays one.\<close>

fun panic_of :: "fault \<Rightarrow> fault" where
  "panic_of (IoError e) = Panic e"
| "panic_of (Panic e) = Panic e"

definition u64_add :: "u64 \<Rightarrow> u64 \<Rightarrow> u64 result" where
  "u64_add a b =
     (if unat a + unat b < 2 ^ 64 then Inr (a + b)
      else Inl (Panic ''attempt to add with overflow''))"

definition u64_sub :: "u64 \<Rightarrow> u64 \<Rightarrow> u64 result" where
  "u64_sub a b =
     (if b \<le> a then Inr (a - b) else Inl (Panic ''attempt to subtract with overflow''))"

lemma unat_u64_less: "unat (a :: u64) < 2 ^ 64"
  using unsigned_less [of a] by simp

lemma u64_pos_length: "unat (n :: u64) = length xs \<Longrightarrow> 0 < n \<longleftrightarrow> xs \<noteq> []"
  by (simp add: word_less_nat_alt)

lemma unat_of_nat_u64: "n < 2 ^ 64 \<Longrightarrow> unat (of_nat n :: u64) = n"
  by (simp add: unat_of_nat)

lemma unat_plus_u64: "unat a + unat b < 2 ^ 64 \<Longrightarrow> unat (a + b :: u64) = unat a + unat b"
  by (simp add: unat_word_ariths)

lemma u64_add_eq_Inr: "u64_add a b = Inr c \<longleftrightarrow> unat c = unat a + unat b"
proof
  assume "u64_add a b = Inr c"
  then show "unat c = unat a + unat b"
    by (auto simp: u64_add_def unat_plus_u64 split: if_splits)
next
  assume c: "unat c = unat a + unat b"
  then have lt: "unat a + unat b < 2 ^ 64"
    using unat_u64_less [of c] by simp
  then have "unat (a + b) = unat c"
    by (simp add: unat_plus_u64 c)
  then have "a + b = c"
    by (rule unsigned_word_eqI)
  with lt show "u64_add a b = Inr c"
    by (simp add: u64_add_def)
qed

lemma u64_sub_eq_Inr: "u64_sub a b = Inr c \<longleftrightarrow> unat a = unat b + unat c"
proof
  assume "u64_sub a b = Inr c"
  then show "unat a = unat b + unat c"
    by (auto simp: u64_sub_def unat_sub word_le_nat_alt split: if_splits)
next
  assume a: "unat a = unat b + unat c"
  then have le: "b \<le> a"
    by (simp add: word_le_nat_alt)
  then have "unat (a - b) = unat c"
    by (simp add: unat_sub a)
  then have "a - b = c"
    by (rule unsigned_word_eqI)
  with le show "u64_sub a b = Inr c"
    by (simp add: u64_sub_def)
qed

lemma unat_u64_Suc: "a \<noteq> - 1 \<Longrightarrow> unat (a + 1 :: u64) = Suc (unat a)"
  by (metis add.commute eq_neg_iff_add_eq_0 unatSuc)

lemma u64_add_max: "u64_add (- 1) 1 = Inl (Panic ''attempt to add with overflow'')"
  by (simp add: u64_add_def unsigned_minus_1_eq_mask mask_eq_exp_minus_1)

text \<open>\<open>id as u32\<close> and back.\<close>

lemma u32_round_trip: "unat a < 2 ^ 32 \<Longrightarrow> ucast (ucast a :: u32) = (a :: u64)"
  by (simp add: word_unat_eq_iff unsigned_ucast_eq unsigned_take_bit_eq take_bit_nat_eq_self)

subsection \<open>The state-and-fault monad\<close>

type_synonym ('s, 'a) rust = "'s \<Rightarrow> 'a result \<times> 's"

definition rust_return :: "'a \<Rightarrow> ('s, 'a) rust" where
  "rust_return a = (\<lambda>s. (Inr a, s))"

definition rust_fail :: "fault \<Rightarrow> ('s, 'a) rust" where
  "rust_fail e = (\<lambda>s. (Inl e, s))"

text \<open>Sequencing with \<open>?\<close>: a fault ends the computation and keeps the state reached.\<close>

definition rust_bind :: "('s, 'a) rust \<Rightarrow> ('a \<Rightarrow> ('s, 'b) rust) \<Rightarrow> ('s, 'b) rust" where
  "rust_bind m f = (\<lambda>s. case m s of (r, s') \<Rightarrow> (case r of Inl e \<Rightarrow> (Inl e, s') | Inr a \<Rightarrow> f a s'))"

definition rust_get :: "('s \<Rightarrow> 'a) \<Rightarrow> ('s, 'a) rust" where
  "rust_get f = (\<lambda>s. (Inr (f s), s))"

definition rust_modify :: "('s \<Rightarrow> 's) \<Rightarrow> ('s, unit) rust" where
  "rust_modify f = (\<lambda>s. (Inr (), f s))"

text \<open>A pure fallible value, lifted.\<close>

definition rust_lift :: "'a result \<Rightarrow> ('s, 'a) rust" where
  "rust_lift r = (\<lambda>s. (r, s))"

definition rust_unwrap :: "('s, 'a) rust \<Rightarrow> ('s, 'a) rust" where
  "rust_unwrap m = (\<lambda>s. case m s of (r, s') \<Rightarrow> (case r of Inl e \<Rightarrow> (Inl (panic_of e), s') | Inr a \<Rightarrow> (Inr a, s')))"

text \<open>
  \<open>match m \{ Ok(a) => .., Err(_) => .. \}\<close>: the error becomes \<open>None\<close>, a panic is not caught.
\<close>

definition rust_try :: "('s, 'a) rust \<Rightarrow> ('s, 'a option) rust" where
  "rust_try m = (\<lambda>s. case m s of (r, s') \<Rightarrow>
     (case r of Inl (IoError e) \<Rightarrow> (Inr None, s')
      | Inl (Panic e) \<Rightarrow> (Inl (Panic e), s')
      | Inr a \<Rightarrow> (Inr (Some a), s')))"

text \<open>\<open>for x in xs \{ f(x)?; \}\<close>\<close>

fun rust_for :: "('x \<Rightarrow> ('s, unit) rust) \<Rightarrow> 'x list \<Rightarrow> ('s, unit) rust" where
  "rust_for f [] = rust_return ()"
| "rust_for f (x # xs) = rust_bind (f x) (\<lambda>_. rust_for f xs)"

lemma rust_return_apply [rust_simps]: "rust_return a s = (Inr a, s)"
  by (simp add: rust_return_def)

lemma rust_fail_apply [rust_simps]: "rust_fail e s = (Inl e, s)"
  by (simp add: rust_fail_def)

lemma rust_get_apply [rust_simps]: "rust_get f s = (Inr (f s), s)"
  by (simp add: rust_get_def)

lemma rust_modify_apply [rust_simps]: "rust_modify f s = (Inr (), f s)"
  by (simp add: rust_modify_def)

lemma rust_lift_apply [rust_simps]: "rust_lift r s = (r, s)"
  by (simp add: rust_lift_def)

lemma rust_bind_apply [rust_simps]:
  "rust_bind m f s = (case m s of (r, s') \<Rightarrow> (case r of Inl e \<Rightarrow> (Inl e, s') | Inr a \<Rightarrow> f a s'))"
  by (simp add: rust_bind_def)

lemma rust_unwrap_apply [rust_simps]:
  "rust_unwrap m s = (case m s of (r, s') \<Rightarrow> (case r of Inl e \<Rightarrow> (Inl (panic_of e), s') | Inr a \<Rightarrow> (Inr a, s')))"
  by (simp add: rust_unwrap_def)

lemma rust_try_apply [rust_simps]:
  "rust_try m s = (case m s of (r, s') \<Rightarrow>
     (case r of Inl (IoError e) \<Rightarrow> (Inr None, s')
      | Inl (Panic e) \<Rightarrow> (Inl (Panic e), s')
      | Inr a \<Rightarrow> (Inr (Some a), s')))"
  by (simp add: rust_try_def)

text \<open>Monad laws: \<open>?\<close> sequencing is associative and returns are units.\<close>

lemma rust_bind_return [simp]: "rust_bind m rust_return = m"
  by (auto simp: fun_eq_iff rust_simps split: prod.splits sum.splits)

lemma rust_return_bind [simp]: "rust_bind (rust_return a) f = f a"
  by (simp add: fun_eq_iff rust_simps)

lemma rust_fail_bind [simp]: "rust_bind (rust_fail e) f = rust_fail e"
  by (simp add: fun_eq_iff rust_simps)

lemma rust_get_bind_apply: "rust_bind (rust_get f) g s = g (f s) s"
  by (simp add: rust_simps)

lemma rust_bind_assoc: "rust_bind (rust_bind m f) g = rust_bind m (\<lambda>a. rust_bind (f a) g)"
  by (auto simp: fun_eq_iff rust_simps split: prod.splits sum.splits)

lemma rust_for_append:
  "rust_for f (xs @ ys) = rust_bind (rust_for f xs) (\<lambda>_. rust_for f ys)"
  by (induction xs) (simp_all add: rust_bind_assoc)

text \<open>Taking a run apart.\<close>

lemma rust_bind_InrE:
  assumes "rust_bind m f s = (Inr b, s'')"
  obtains a s' where "m s = (Inr a, s')" "f a s' = (Inr b, s'')"
  using assms by (auto simp: rust_simps split: prod.splits sum.splits)

lemma rust_bind_InlE:
  assumes "rust_bind m f s = (Inl e, s'')"
  obtains (first) "m s = (Inl e, s'')"
    | (second) a s' where "m s = (Inr a, s')" "f a s' = (Inl e, s'')"
  using assms by (auto simp: rust_simps split: prod.splits sum.splits)

lemma rust_bindE:
  assumes "rust_bind m f s = (r, s'')"
  obtains (fault) e where "m s = (Inl e, s'')" "r = Inl e"
    | (ok) a s' where "m s = (Inr a, s')" "f a s' = (r, s'')"
  using assms by (auto simp: rust_simps split: prod.splits sum.splits)

lemma rust_unwrap_Inr: "rust_unwrap m s = (Inr a, s') \<longleftrightarrow> m s = (Inr a, s')"
  by (auto simp: rust_simps split: prod.splits sum.splits)

lemma rust_try_Inr:
  "rust_try m s = (Inr x, s') \<longleftrightarrow>
     (case x of Some a \<Rightarrow> m s = (Inr a, s') | None \<Rightarrow> (\<exists>e. m s = (Inl (IoError e), s')))"
  by (auto simp: rust_simps split: prod.splits sum.splits fault.splits option.splits)

subsection \<open>Triples\<close>

text \<open>
  \<open>triple P m Q E\<close>: started in a state satisfying \<open>P\<close>, the computation ends with a value and state
  satisfying \<open>Q\<close>, or faults in a state satisfying \<open>E\<close>.
\<close>

definition triple ::
  "('s \<Rightarrow> bool) \<Rightarrow> ('s, 'a) rust \<Rightarrow> ('a \<Rightarrow> 's \<Rightarrow> bool) \<Rightarrow> (fault \<Rightarrow> 's \<Rightarrow> bool) \<Rightarrow> bool" where
  "triple P m Q E \<longleftrightarrow>
     (\<forall>s. P s \<longrightarrow> (case m s of (r, s') \<Rightarrow> (case r of Inl e \<Rightarrow> E e s' | Inr a \<Rightarrow> Q a s')))"

text \<open>An invariant that survives success and fault alike.\<close>

abbreviation keeps :: "('s \<Rightarrow> bool) \<Rightarrow> ('s, 'a) rust \<Rightarrow> bool" where
  "keeps I m \<equiv> triple I m (\<lambda>_. I) (\<lambda>_. I)"

lemma tripleI:
  assumes "\<And>s a s'. P s \<Longrightarrow> m s = (Inr a, s') \<Longrightarrow> Q a s'"
    and "\<And>s e s'. P s \<Longrightarrow> m s = (Inl e, s') \<Longrightarrow> E e s'"
  shows "triple P m Q E"
  using assms by (auto simp: triple_def split: prod.splits sum.splits)

lemma tripleD_ok: "triple P m Q E \<Longrightarrow> P s \<Longrightarrow> m s = (Inr a, s') \<Longrightarrow> Q a s'"
  by (force simp: triple_def)

lemma tripleD_fault: "triple P m Q E \<Longrightarrow> P s \<Longrightarrow> m s = (Inl e, s') \<Longrightarrow> E e s'"
  by (force simp: triple_def)

lemma keepsD: "keeps I m \<Longrightarrow> I s \<Longrightarrow> I (snd (m s))"
  by (cases "m s"; cases "fst (m s)") (auto dest: tripleD_ok tripleD_fault)

lemma keepsI: "(\<And>s. I s \<Longrightarrow> I (snd (m s))) \<Longrightarrow> keeps I m"
  by (force simp: triple_def split: prod.splits sum.splits)

lemma triple_weaken:
  assumes "triple P' m Q' E'"
    and "\<And>s. P s \<Longrightarrow> P' s" and "\<And>a s. Q' a s \<Longrightarrow> Q a s" and "\<And>e s. E' e s \<Longrightarrow> E e s"
  shows "triple P m Q E"
  using assms by (fastforce simp: triple_def split: prod.splits sum.splits)

lemma triple_return [hoare_intros]: "(\<And>s. P s \<Longrightarrow> Q a s) \<Longrightarrow> triple P (rust_return a) Q E"
  by (simp add: triple_def rust_simps)

lemma triple_fail [hoare_intros]: "(\<And>s. P s \<Longrightarrow> E e s) \<Longrightarrow> triple P (rust_fail e) Q E"
  by (simp add: triple_def rust_simps)

lemma triple_get: "(\<And>s. P s \<Longrightarrow> Q (f s) s) \<Longrightarrow> triple P (rust_get f) Q E"
  by (simp add: triple_def rust_simps)

lemma triple_modify: "(\<And>s. P s \<Longrightarrow> Q () (f s)) \<Longrightarrow> triple P (rust_modify f) Q E"
  by (simp add: triple_def rust_simps)

lemma triple_lift:
  "(\<And>s a. P s \<Longrightarrow> r = Inr a \<Longrightarrow> Q a s) \<Longrightarrow> (\<And>s e. P s \<Longrightarrow> r = Inl e \<Longrightarrow> E e s) \<Longrightarrow>
   triple P (rust_lift r) Q E"
  by (auto simp: triple_def rust_simps split: sum.splits)

lemma triple_bind [hoare_intros]:
  assumes "triple P m R E" and "\<And>a. triple (R a) (f a) Q E"
  shows "triple P (rust_bind m f) Q E"
  using assms by (fastforce simp: triple_def rust_simps split: prod.splits sum.splits)

lemma triple_unwrap [hoare_intros]:
  assumes "triple P m Q (\<lambda>e. E (panic_of e))"
  shows "triple P (rust_unwrap m) Q E"
  using assms by (fastforce simp: triple_def rust_simps split: prod.splits sum.splits)

lemma triple_try [hoare_intros]:
  assumes "triple P m (\<lambda>a. Q (Some a)) (\<lambda>e s. case e of IoError _ \<Rightarrow> Q None s | Panic _ \<Rightarrow> E e s)"
  shows "triple P (rust_try m) Q E"
  using assms by (fastforce simp: triple_def rust_simps split: prod.splits sum.splits fault.splits)

lemma triple_for:
  assumes "\<And>x. x \<in> set xs \<Longrightarrow> triple I (f x) (\<lambda>_. I) E"
  shows "triple I (rust_for f xs) (\<lambda>_. I) E"
  using assms
proof (induction xs)
  case Nil
  show ?case by (auto intro!: triple_return)
next
  case (Cons x xs)
  then show ?case
    by (auto intro!: triple_bind [where R = "\<lambda>_. I"])
qed

lemma triple_if [hoare_intros]:
  "(b \<Longrightarrow> triple P m Q E) \<Longrightarrow> (\<not> b \<Longrightarrow> triple P m' Q E) \<Longrightarrow> triple P (if b then m else m') Q E"
  by simp

lemma triple_option [hoare_intros]:
  "(x = None \<Longrightarrow> triple P m Q E) \<Longrightarrow> (\<And>a. x = Some a \<Longrightarrow> triple P (f a) Q E) \<Longrightarrow>
   triple P (case x of None \<Rightarrow> m | Some a \<Rightarrow> f a) Q E"
  by (cases x) auto

subsection \<open>Frames\<close>

text \<open>A computation that leaves the part \<open>v\<close> of the state alone, whether it succeeds or faults.\<close>

definition preserves :: "('s \<Rightarrow> 'v) \<Rightarrow> ('s, 'a) rust \<Rightarrow> bool" where
  "preserves v m \<longleftrightarrow> (\<forall>s. v (snd (m s)) = v s)"

lemma preservesD: "preserves v m \<Longrightarrow> m s = (r, s') \<Longrightarrow> v s' = v s"
  by (metis preserves_def snd_conv)

lemma preserves_pure [frame_intros]:
  "preserves v (rust_return a)" "preserves v (rust_get f)" "preserves v (rust_lift r)" "preserves v (rust_fail e)"
  by (simp_all add: preserves_def rust_simps)

lemma preserves_modify [frame_intros]: "(\<And>s. v (f s) = v s) \<Longrightarrow> preserves v (rust_modify f)"
  by (simp add: preserves_def rust_simps)

lemma preserves_bind [frame_intros]:
  assumes "preserves v m" and "\<And>a. preserves v (f a)"
  shows "preserves v (rust_bind m f)"
  using assms by (auto simp: preserves_def rust_bind_def split: prod.splits sum.splits) (metis snd_conv)+

lemma preserves_if [frame_intros]: "preserves v m \<Longrightarrow> preserves v m' \<Longrightarrow> preserves v (if b then m else m')"
  by simp

lemma preserves_option [frame_intros]:
  "preserves v m \<Longrightarrow> (\<And>a. preserves v (f a)) \<Longrightarrow> preserves v (case x of None \<Rightarrow> m | Some a \<Rightarrow> f a)"
  by (cases x) auto

lemma preserves_prod [frame_intros]:
  "(\<And>a b. preserves v (f a b)) \<Longrightarrow> preserves v (case x of (a, b) \<Rightarrow> f a b)"
  by (cases x) auto

lemma preserves_unwrap [frame_intros]: "preserves v m \<Longrightarrow> preserves v (rust_unwrap m)"
  by (auto simp: preserves_def rust_unwrap_apply split: prod.splits sum.splits) (metis snd_conv)+

lemma preserves_for: "(\<And>x. preserves v (f x)) \<Longrightarrow> preserves v (rust_for f xs)"
  by (induction xs) (auto intro: frame_intros)

subsection \<open>Hash maps\<close>

text \<open>\<open>HashMap::len() as u64\<close>.\<close>

definition hm_len :: "('k, 'v) fmap \<Rightarrow> u64" where
  "hm_len m = of_nat (fcard (fmdom m))"

text \<open>
  The values a loop over the map visits when the map hands out its entries in the key order \<open>ks\<close>;
  \<open>iterates ks m\<close> says that \<open>ks\<close> is such an order.
\<close>

definition hm_values :: "'k list \<Rightarrow> ('k, 'v) fmap \<Rightarrow> 'v list" where
  "hm_values ks m = List.map_filter (fmlookup m) ks"

definition iterates :: "'k list \<Rightarrow> ('k, 'v) fmap \<Rightarrow> bool" where
  "iterates ks m \<longleftrightarrow> distinct ks \<and> set ks = fset (fmdom m)"

lemma fcard_finsert_new [simp]:
  "fmlookup m k = None \<Longrightarrow> fcard (finsert k (fmdom m)) = Suc (fcard (fmdom m))"
  by (simp add: fcard_finsert_disjoint fmdom_notI)

lemma fcard_finsert_old [simp]:
  "fmlookup m k = Some w \<Longrightarrow> fcard (finsert k (fmdom m)) = fcard (fmdom m)"
  by (simp add: finsert_absorb fmdomI)

declare fcard_fempty [simp]

lemma fcard_finsert_empty [simp]: "fcard {|k|} = 1"
  by (simp add: fcard_finsert)

text \<open>Evaluation rules for \<open>len\<close> on concrete maps.\<close>

lemma hm_len_empty [simp]: "hm_len fmempty = 0"
  by (simp add: hm_len_def)

lemma hm_len_upd [simp]:
  "hm_len (fmupd k v m) = (if fmlookup m k = None then hm_len m + 1 else hm_len m)"
  by (cases "fmlookup m k") (simp_all add: hm_len_def)

lemma hm_len_drop [simp]:
  "hm_len (fmdrop k m) = (if fmlookup m k = None then hm_len m else hm_len m - 1)"
proof (cases "fmlookup m k")
  case None
  then show ?thesis by (simp add: hm_len_def fmdom_notI)
next
  case (Some v)
  then have "fcard (fmdom m) = Suc (fcard (fmdom m |-| {|k|}))"
    by (metis fcard_Suc_fminus1 fmdomI)
  with Some show ?thesis by (simp add: hm_len_def)
qed

lemma hm_values_set: "iterates ks m \<Longrightarrow> set (hm_values ks m) = fset (fmran m)"
  by (auto simp: hm_values_def iterates_def List.map_filter_def fmran'_alt_def [symmetric] fmlookup_ran'_iff
      fmlookup_dom_iff image_iff intro: fmdomI) (metis fmdomI option.sel option.simps(3))

subsection \<open>Shared cells\<close>

text \<open>
  \<open>Arc::new(Mutex::new(x))\<close> allocates a cell at the end of the store; references are never freed
  while held, so the store only grows.
\<close>

type_synonym 'a store = "'a list"
type_synonym ref = nat

definition deref :: "'a store \<Rightarrow> ref \<Rightarrow> 'a option" where
  "deref h r = (if r < length h then Some (h ! r) else None)"

lemma deref_append_old [simp]: "r < length h \<Longrightarrow> deref (h @ xs) r = deref h r"
  by (simp add: deref_def nth_append)

lemma deref_append_new [simp]: "deref (h @ [x]) (length h) = Some x"
  by (simp add: deref_def)

lemma deref_eq_Some: "deref h r = Some x \<longleftrightarrow> r < length h \<and> h ! r = x"
  by (auto simp: deref_def)

lemma deref_update [simp]:
  "deref (h[r := x]) q = (if q = r \<and> r < length h then Some x else deref h q)"
  by (auto simp: deref_def)

end
