(* ===== verification/HS_Interfaces.thy ===== *)
theory HS_Interfaces
  imports HS_Prelude
begin

section \<open>Interfaces between the components\<close>

text \<open>
  The contracts one component relies on another for, as locales.  Each is interpreted on the model's
  own definitions in the theory of the component that provides it:

  \<^item> \<open>registry\<close>: a lookup structure that hands back what was filed last under an index.  Provided by
    the client's \<open>NamedMap\<close> (by name) and by the corestore's \<open>FeedMap\<close> (by key, by discovery key and
    by name); relied on by the operations that open a feed at most once.
  \<^item> \<open>event_bus\<close>: \<open>subscribe\<close> and \<open>emit\<close>.  Provided by the corestore, the replicator and the remote
    hypercore; relied on by the loops that follow their events.
  \<^item> \<open>transition_system\<close>: an invariant of a step relation.  Provided by every component that is driven
    by a sequence of calls or events.
\<close>

subsection \<open>Registries\<close>

locale registry =
  fixes find :: "'m \<Rightarrow> 'k \<Rightarrow> 'h option"
    and index :: "'x \<Rightarrow> 'k option"
    and add :: "'x \<Rightarrow> 'h \<Rightarrow> 'm \<Rightarrow> 'm"
    and entries :: "'m \<Rightarrow> nat"
    and limit :: nat
    and inv :: "'m \<Rightarrow> bool"
  assumes find_add: "inv m \<Longrightarrow> entries m < limit \<Longrightarrow>
      find (add x h m) k = (if index x = Some k then Some h else find m k)"
    and inv_add: "inv m \<Longrightarrow> entries m < limit \<Longrightarrow> inv (add x h m)"
    and entries_add: "inv m \<Longrightarrow> entries m < limit \<Longrightarrow> entries (add x h m) = Suc (entries m)"
begin

definition add_all :: "('x \<times> 'h) list \<Rightarrow> 'm \<Rightarrow> 'm" where
  "add_all xs m = fold (\<lambda>(x, h). add x h) xs m"

lemma add_all_simps [simp]:
  "add_all [] m = m"
  "add_all ((x, h) # xs) m = add_all xs (add x h m)"
  by (simp_all add: add_all_def)

lemma inv_add_all: "inv m \<Longrightarrow> entries m + length xs \<le> limit \<Longrightarrow> inv (add_all xs m)"
  by (induction xs arbitrary: m) (auto simp: inv_add entries_add)

lemma entries_add_all:
  "inv m \<Longrightarrow> entries m + length xs \<le> limit \<Longrightarrow> entries (add_all xs m) = entries m + length xs"
  by (induction xs arbitrary: m) (auto simp: inv_add entries_add)

lemma find_add_all:
  "inv m \<Longrightarrow> entries m + length xs \<le> limit \<Longrightarrow>
   find (add_all xs m) k =
     (case List.find (\<lambda>(x, h). index x = Some k) (rev xs) of None \<Rightarrow> find m k | Some (x, h) \<Rightarrow> Some h)"
proof (induction xs rule: rev_induct)
  case Nil
  then show ?case by simp
next
  case (snoc p xs)
  obtain x h where p: "p = (x, h)" by (cases p)
  have "add_all (xs @ [p]) m = add x h (add_all xs m)"
    by (simp add: add_all_def p)
  moreover have "find (add x h (add_all xs m)) k =
      (if index x = Some k then Some h else find (add_all xs m) k)"
    using snoc.prems by (intro find_add) (simp_all add: inv_add_all entries_add_all)
  ultimately show ?case
    using snoc by (simp add: p)
qed

text \<open>An entry stays resolvable while others are filed under other indices.\<close>

lemma find_stable:
  assumes "inv m" and "entries m + length xs \<le> limit"
    and "\<And>x h. (x, h) \<in> set xs \<Longrightarrow> index x \<noteq> Some k"
  shows "find (add_all xs m) k = find m k"
proof -
  have "List.find (\<lambda>(x, h). index x = Some k) (rev xs) = None"
    using assms(3) by (auto simp: find_None_iff)
  then show ?thesis
    using assms(1,2) by (simp add: find_add_all)
qed

end

subsection \<open>Event buses\<close>

text \<open>
  A bus keeps its senders in a list; \<open>delivered\<close> is the sequence of sends it has made, each with the
  number of the channel it went to.  \<open>alive c\<close> says that the receiver of channel \<open>c\<close> has not been
  dropped.
\<close>

definition received :: "nat \<Rightarrow> (nat \<times> 'e) list \<Rightarrow> 'e list" where
  "received c xs = map snd (filter (\<lambda>p. fst p = c) xs)"

lemma received_append [simp]: "received c (xs @ ys) = received c xs @ received c ys"
  by (simp add: received_def)

lemma received_broadcast:
  "distinct cs \<Longrightarrow> received c (map (\<lambda>c. (c, e)) cs) = (if c \<in> set cs then [e] else [])"
  by (induction cs) (auto simp: received_def)

locale event_bus =
  fixes subscribers :: "'s \<Rightarrow> nat list"
    and delivered :: "'s \<Rightarrow> (nat \<times> 'e) list"
    and subscribe :: "'s \<Rightarrow> nat \<times> 's"
    and emit :: "'e \<Rightarrow> 's \<Rightarrow> 's"
    and alive :: "nat \<Rightarrow> bool"
    and inv :: "'s \<Rightarrow> bool"
  assumes distinct_subscribers: "inv s \<Longrightarrow> distinct (subscribers s)"
    and subscribe_subscribers: "inv s \<Longrightarrow> subscribe s = (c, s') \<Longrightarrow>
      subscribers s' = subscribers s @ [c] \<and> c \<notin> set (subscribers s)"
    and subscribe_delivered: "inv s \<Longrightarrow> subscribe s = (c, s') \<Longrightarrow>
      delivered s' = delivered s \<and> received c (delivered s) = []"
    and subscribe_inv: "inv s \<Longrightarrow> inv (snd (subscribe s))"
    and emit_subscribers: "subscribers (emit e s) = subscribers s"
    and emit_delivered: "(\<And>c. c \<in> set (subscribers s) \<Longrightarrow> alive c) \<Longrightarrow>
      delivered (emit e s) = delivered s @ map (\<lambda>c. (c, e)) (subscribers s)"
    and emit_inv: "inv s \<Longrightarrow> inv (emit e s)"
begin

definition emit_all :: "'e list \<Rightarrow> 's \<Rightarrow> 's" where
  "emit_all es s = fold emit es s"

lemma emit_all_simps [simp]:
  "emit_all [] s = s"
  "emit_all (e # es) s = emit_all es (emit e s)"
  by (simp_all add: emit_all_def)

text \<open>Every live subscriber receives every event, once and in order.\<close>

lemma received_emit_all:
  assumes "inv s" and "\<And>c. c \<in> set (subscribers s) \<Longrightarrow> alive c" and "c \<in> set (subscribers s)"
  shows "received c (delivered (emit_all es s)) = received c (delivered s) @ es"
  using assms
proof (induction es arbitrary: s)
  case Nil
  then show ?case by simp
next
  case (Cons e es)
  have "received c (delivered (emit_all es (emit e s))) = received c (delivered (emit e s)) @ es"
    using Cons.prems by (intro Cons.IH) (auto simp: emit_inv emit_subscribers)
  moreover have "received c (delivered (emit e s)) = received c (delivered s) @ [e]"
    using Cons.prems by (simp add: emit_delivered received_broadcast distinct_subscribers)
  ultimately show ?case by simp
qed

text \<open>A new subscriber receives exactly the events emitted after it subscribed.\<close>

lemma subscriber_sees_later_events:
  assumes "inv s" and "subscribe s = (c, s')" and "\<And>d. d \<in> set (subscribers s') \<Longrightarrow> alive d"
  shows "received c (delivered (emit_all es s')) = es"
proof -
  have "inv s'"
    using subscribe_inv [OF assms(1)] assms(2) by simp
  moreover have "c \<in> set (subscribers s')" "received c (delivered s') = []"
    using subscribe_subscribers [OF assms(1,2)] subscribe_delivered [OF assms(1,2)] by simp_all
  ultimately show ?thesis
    using received_emit_all [of s' c es] assms(3) by simp
qed

end

subsection \<open>Transition systems\<close>

locale transition_system =
  fixes init :: "'s \<Rightarrow> bool"
    and step :: "'s \<Rightarrow> 's \<Rightarrow> bool"
    and inv :: "'s \<Rightarrow> bool"
  assumes inv_init: "init s \<Longrightarrow> inv s"
    and inv_step: "inv s \<Longrightarrow> step s t \<Longrightarrow> inv t"
begin

lemma inv_steps: "step\<^sup>*\<^sup>* s t \<Longrightarrow> inv s \<Longrightarrow> inv t"
  by (induction rule: rtranclp_induct) (auto intro: inv_step)

lemma inv_reachable: "init s \<Longrightarrow> step\<^sup>*\<^sup>* s t \<Longrightarrow> inv t"
  by (blast intro: inv_init inv_steps)

end

text \<open>A system whose every step is a step of a simpler one, seen through \<open>view\<close>.\<close>

locale simulation = transition_system +
  fixes view :: "'s \<Rightarrow> 'a"
    and abstract_step :: "'a \<Rightarrow> 'a \<Rightarrow> bool"
  assumes step_view: "inv s \<Longrightarrow> step s t \<Longrightarrow> abstract_step (view s) (view t)"
begin

lemma run_view: "step\<^sup>*\<^sup>* s t \<Longrightarrow> inv s \<Longrightarrow> abstract_step\<^sup>*\<^sup>* (view s) (view t)"
  by (induction rule: rtranclp_induct) (auto intro: step_view inv_steps rtranclp.rtrancl_into_rtrancl)

lemma reachable_view: "init s \<Longrightarrow> step\<^sup>*\<^sup>* s t \<Longrightarrow> inv t \<and> abstract_step\<^sup>*\<^sup>* (view s) (view t)"
  by (blast intro: inv_init inv_steps run_view)

end

end
