(* ===== verification/Feed_Map.thy ===== *)
theory Feed_Map
  imports HS_Interfaces
begin

section \<open>The corestore's table of open feeds (\<open>corestore/src/feed_map.rs\<close>)\<close>

text \<open>
  \<open>FeedMap\<close> numbers the open feeds and indexes them by public key, discovery key and name.  A feed is
  shared behind \<open>Arc<Mutex<Feed>>\<close>, so the table holds references into the store of feeds.  The
  \<open>Feed\<close> type belongs to the \<open>hypercore\<close> crate and \<open>discovery_key\<close> to \<open>hypercore-protocol\<close>: the public
  key of a feed and the discovery key of a key are the parameters \<open>pk\<close> and \<open>dk\<close>.
\<close>

record feed_map =
  fm_feeds :: "(u64, ref) fmap"
  fm_keys :: "(bytes, u64) fmap"
  fm_dkeys :: "(bytes, u64) fmap"
  fm_names :: "(bytes, u64) fmap"
  fm_names_rev :: "(u64, bytes) fmap"

definition FeedMap_new :: feed_map where
  "FeedMap_new =
     \<lparr>fm_feeds = fmempty, fm_keys = fmempty, fm_dkeys = fmempty,
      fm_names = fmempty, fm_names_rev = fmempty\<rparr>"

definition FeedMap_get_name :: "feed_map \<Rightarrow> bytes \<Rightarrow> ref option" where
  "FeedMap_get_name m name = Option.bind (fmlookup (fm_names m) name) (fmlookup (fm_feeds m))"

definition FeedMap_get_key :: "feed_map \<Rightarrow> bytes \<Rightarrow> ref option" where
  "FeedMap_get_key m key = Option.bind (fmlookup (fm_keys m) key) (fmlookup (fm_feeds m))"

definition FeedMap_get_dkey :: "feed_map \<Rightarrow> bytes \<Rightarrow> ref option" where
  "FeedMap_get_dkey m dkey = Option.bind (fmlookup (fm_dkeys m) dkey) (fmlookup (fm_feeds m))"

text \<open>The part of \<open>insert\<close> after the feed has been put behind its reference.\<close>

definition FeedMap_link :: "bytes \<Rightarrow> bytes \<Rightarrow> ref \<Rightarrow> bytes option \<Rightarrow> feed_map \<Rightarrow> feed_map" where
  "FeedMap_link key dkey feed name m =
     (let fid = hm_len (fm_feeds m);
          m1 = m\<lparr>fm_feeds := fmupd fid feed (fm_feeds m),
                 fm_keys := fmupd key fid (fm_keys m),
                 fm_dkeys := fmupd dkey fid (fm_dkeys m)\<rparr>
      in (case name of
            Some n \<Rightarrow> m1\<lparr>fm_names := fmupd n fid (fm_names m1),
                         fm_names_rev := fmupd fid n (fm_names_rev m1)\<rparr>
          | None \<Rightarrow> m1))"

definition FeedMap_insert ::
  "('f \<Rightarrow> bytes) \<Rightarrow> (bytes \<Rightarrow> bytes) \<Rightarrow> 'f \<Rightarrow> bytes option \<Rightarrow> feed_map \<Rightarrow> 'f store \<Rightarrow>
   ref \<times> feed_map \<times> 'f store" where
  "FeedMap_insert pk dk feed name m h =
     (let key = pk feed;
          dkey = dk key;
          r = length h;
          h' = h @ [feed]
      in (r, FeedMap_link key dkey r name m, h'))"

definition FeedMap_iter :: "u64 list \<Rightarrow> feed_map \<Rightarrow> ref list" where
  "FeedMap_iter order m = hm_values order (fm_feeds m)"

definition FeedMap_remove ::
  "('f \<Rightarrow> bytes) \<Rightarrow> (bytes \<Rightarrow> bytes) \<Rightarrow> 'f \<Rightarrow> feed_map \<Rightarrow> feed_map" where
  "FeedMap_remove pk dk feed m =
     (let key = pk feed; dkey = dk key
      in (case fmlookup (fm_keys m) key of
            None \<Rightarrow> m
          | Some fid \<Rightarrow>
              (let m1 = m\<lparr>fm_feeds := fmdrop fid (fm_feeds m),
                          fm_keys := fmdrop key (fm_keys m),
                          fm_dkeys := fmdrop dkey (fm_dkeys m)\<rparr>
               in (case fmlookup (fm_names_rev m1) fid of
                     Some name \<Rightarrow> m1\<lparr>fm_names := fmdrop name (fm_names m1),
                                     fm_names_rev := fmdrop fid (fm_names_rev m1)\<rparr>
                   | None \<Rightarrow> m1))))"

subsection \<open>The invariant of the table\<close>

text \<open>
  Feeds are numbered without gaps from 0, and every index entry points to a feed that has the key,
  discovery key or name it is filed under.
\<close>

abbreviation FeedMap_size :: "feed_map \<Rightarrow> nat" where
  "FeedMap_size m \<equiv> fcard (fmdom (fm_feeds m))"

definition FeedMap_dense :: "feed_map \<Rightarrow> bool" where
  "FeedMap_dense m \<longleftrightarrow> (\<forall>i. fmlookup (fm_feeds m) i \<noteq> None \<longleftrightarrow> unat i < FeedMap_size m)"

definition FeedMap_names_ok :: "feed_map \<Rightarrow> bool" where
  "FeedMap_names_ok m \<longleftrightarrow>
     (\<forall>n i. fmlookup (fm_names m) n = Some i \<longrightarrow>
        fmlookup (fm_feeds m) i \<noteq> None \<and> fmlookup (fm_names_rev m) i = Some n) \<and>
     (\<forall>i n. fmlookup (fm_names_rev m) i = Some n \<longrightarrow> fmlookup (fm_feeds m) i \<noteq> None)"

definition FeedMap_closed :: "feed_map \<Rightarrow> bool" where
  "FeedMap_closed m \<longleftrightarrow>
     (\<forall>k i. fmlookup (fm_keys m) k = Some i \<longrightarrow> fmlookup (fm_feeds m) i \<noteq> None) \<and>
     (\<forall>d i. fmlookup (fm_dkeys m) d = Some i \<longrightarrow> fmlookup (fm_feeds m) i \<noteq> None)"

definition FeedMap_wf :: "feed_map \<Rightarrow> bool" where
  "FeedMap_wf m \<longleftrightarrow> FeedMap_dense m \<and> FeedMap_names_ok m \<and> FeedMap_closed m"

definition FeedMap_sound :: "('f \<Rightarrow> bytes) \<Rightarrow> (bytes \<Rightarrow> bytes) \<Rightarrow> 'f store \<Rightarrow> feed_map \<Rightarrow> bool" where
  "FeedMap_sound pk dk h m \<longleftrightarrow>
     (\<forall>i r. fmlookup (fm_feeds m) i = Some r \<longrightarrow>
        (\<exists>f. deref h r = Some f \<and> FeedMap_get_key m (pk f) \<noteq> None \<and> FeedMap_get_dkey m (dk (pk f)) \<noteq> None)) \<and>
     (\<forall>k r. FeedMap_get_key m k = Some r \<longrightarrow> (\<exists>f. deref h r = Some f \<and> pk f = k)) \<and>
     (\<forall>d r. FeedMap_get_dkey m d = Some r \<longrightarrow> (\<exists>f. deref h r = Some f \<and> dk (pk f) = d))"

lemma FeedMap_wf_new: "FeedMap_wf FeedMap_new"
  by (simp add: FeedMap_wf_def FeedMap_dense_def FeedMap_names_ok_def FeedMap_closed_def FeedMap_new_def)

lemma FeedMap_sound_new: "FeedMap_sound pk dk h FeedMap_new"
  by (simp add: FeedMap_sound_def FeedMap_new_def FeedMap_get_key_def FeedMap_get_dkey_def)

lemma unat_hm_len: "fcard (fmdom m) < 2 ^ 64 \<Longrightarrow> unat (hm_len m) = fcard (fmdom m)"
  by (simp add: hm_len_def unat_of_nat)

lemma FeedMap_next_free:
  assumes "FeedMap_dense m" and "FeedMap_size m < 2 ^ 64"
  shows "fmlookup (fm_feeds m) (hm_len (fm_feeds m)) = None"
  using assms unat_hm_len [OF assms(2)] by (metis FeedMap_dense_def nat_neq_iff)

lemma FeedMap_link_feeds [simp]:
  "fm_feeds (FeedMap_link key dkey r name m) = fmupd (hm_len (fm_feeds m)) r (fm_feeds m)"
  "fm_keys (FeedMap_link key dkey r name m) = fmupd key (hm_len (fm_feeds m)) (fm_keys m)"
  "fm_dkeys (FeedMap_link key dkey r name m) = fmupd dkey (hm_len (fm_feeds m)) (fm_dkeys m)"
  by (simp_all add: FeedMap_link_def Let_def split: option.splits)

lemma FeedMap_link_names:
  "fm_names (FeedMap_link key dkey r name m) =
     (case name of None \<Rightarrow> fm_names m | Some n \<Rightarrow> fmupd n (hm_len (fm_feeds m)) (fm_names m))"
  "fm_names_rev (FeedMap_link key dkey r name m) =
     (case name of None \<Rightarrow> fm_names_rev m | Some n \<Rightarrow> fmupd (hm_len (fm_feeds m)) n (fm_names_rev m))"
  by (simp_all add: FeedMap_link_def Let_def split: option.splits)

lemma FeedMap_link_dense:
  assumes "FeedMap_dense m" and "FeedMap_size m < 2 ^ 64 - 1"
  shows "FeedMap_dense (FeedMap_link key dkey r name m)"
proof -
  have free: "fmlookup (fm_feeds m) (hm_len (fm_feeds m)) = None"
    using assms by (intro FeedMap_next_free) simp_all
  have len: "unat (hm_len (fm_feeds m)) = FeedMap_size m"
    using assms(2) by (intro unat_hm_len) simp
  have "unat i < Suc (FeedMap_size m) \<longleftrightarrow> i = hm_len (fm_feeds m) \<or> unat i < FeedMap_size m" for i
    using len by (metis less_Suc_eq word_unat_eq_iff)
  then show ?thesis
    using assms(1) free by (auto simp: FeedMap_dense_def)
qed

lemma FeedMap_link_wf:
  assumes wf: "FeedMap_wf m" and room: "FeedMap_size m < 2 ^ 64 - 1"
  shows "FeedMap_wf (FeedMap_link key dkey r name m)"
proof -
  have free: "fmlookup (fm_feeds m) (hm_len (fm_feeds m)) = None"
    using wf room by (intro FeedMap_next_free) (simp_all add: FeedMap_wf_def)
  have "FeedMap_names_ok (FeedMap_link key dkey r name m)"
    using wf free by (fastforce simp: FeedMap_wf_def FeedMap_names_ok_def FeedMap_link_names split: option.splits)
  moreover have "FeedMap_closed (FeedMap_link key dkey r name m)"
    using wf by (auto simp: FeedMap_wf_def FeedMap_closed_def)
  ultimately show ?thesis
    using wf room by (simp add: FeedMap_wf_def FeedMap_link_dense)
qed

lemma FeedMap_link_lookup:
  assumes wf: "FeedMap_wf m" and room: "FeedMap_size m < 2 ^ 64 - 1"
  shows "FeedMap_get_key (FeedMap_link key dkey r name m) k =
      (if k = key then Some r else FeedMap_get_key m k)"
    and "FeedMap_get_dkey (FeedMap_link key dkey r name m) d =
      (if d = dkey then Some r else FeedMap_get_dkey m d)"
    and "FeedMap_get_name (FeedMap_link key dkey r name m) n =
      (if name = Some n then Some r else FeedMap_get_name m n)"
    and "FeedMap_size (FeedMap_link key dkey r name m) = Suc (FeedMap_size m)"
proof -
  have free: "fmlookup (fm_feeds m) (hm_len (fm_feeds m)) = None"
    using wf room by (intro FeedMap_next_free) (simp_all add: FeedMap_wf_def)
  then have no_key: "fmlookup (fm_keys m) k \<noteq> Some (hm_len (fm_feeds m))"
    and no_dkey: "fmlookup (fm_dkeys m) d \<noteq> Some (hm_len (fm_feeds m))"
    and no_name: "fmlookup (fm_names m) n \<noteq> Some (hm_len (fm_feeds m))" for k d n
    using wf by (fastforce simp: FeedMap_wf_def FeedMap_closed_def FeedMap_names_ok_def)+
  show "FeedMap_get_key (FeedMap_link key dkey r name m) k = (if k = key then Some r else FeedMap_get_key m k)"
    using no_key by (cases "fmlookup (fm_keys m) k") (auto simp: FeedMap_get_key_def)
  show "FeedMap_get_dkey (FeedMap_link key dkey r name m) d = (if d = dkey then Some r else FeedMap_get_dkey m d)"
    using no_dkey by (cases "fmlookup (fm_dkeys m) d") (auto simp: FeedMap_get_dkey_def)
  show "FeedMap_get_name (FeedMap_link key dkey r name m) n = (if name = Some n then Some r else FeedMap_get_name m n)"
    using no_name by (cases "fmlookup (fm_names m) n"; cases name)
      (auto simp: FeedMap_get_name_def FeedMap_link_names)
  show "FeedMap_size (FeedMap_link key dkey r name m) = Suc (FeedMap_size m)"
    using free by simp
qed

subsection \<open>What the table provides\<close>

text \<open>
  The table is a registry in three ways: filing a feed under its key (with or without a name) makes it
  the one found by that key, by its discovery key and by its name, and nothing else changes.
\<close>

interpretation by_key: registry FeedMap_get_key
  "\<lambda>x :: bytes \<times> bytes option. Some (fst x)"
  "\<lambda>x r m. FeedMap_link (fst x) (dk (fst x)) r (snd x) m"
  "FeedMap_size" "2 ^ 64 - 1" FeedMap_wf
  for dk :: "bytes \<Rightarrow> bytes"
  by unfold_locales (auto simp: FeedMap_link_lookup FeedMap_link_wf simp del: FeedMap_link_feeds)

interpretation by_dkey: registry FeedMap_get_dkey
  "\<lambda>x :: bytes \<times> bytes option. Some (dk (fst x))"
  "\<lambda>x r m. FeedMap_link (fst x) (dk (fst x)) r (snd x) m"
  "FeedMap_size" "2 ^ 64 - 1" FeedMap_wf
  for dk :: "bytes \<Rightarrow> bytes"
  by unfold_locales (auto simp: FeedMap_link_lookup FeedMap_link_wf simp del: FeedMap_link_feeds)

interpretation by_name: registry FeedMap_get_name
  "snd :: bytes \<times> bytes option \<Rightarrow> bytes option"
  "\<lambda>x r m. FeedMap_link (fst x) (dk (fst x)) r (snd x) m"
  "FeedMap_size" "2 ^ 64 - 1" FeedMap_wf
  for dk :: "bytes \<Rightarrow> bytes"
  by unfold_locales (auto simp: FeedMap_link_lookup FeedMap_link_wf simp del: FeedMap_link_feeds)

subsection \<open>Inserting and removing feeds\<close>

lemma FeedMap_insert_simp:
  "FeedMap_insert pk dk f name m h = (length h, FeedMap_link (pk f) (dk (pk f)) (length h) name m, h @ [f])"
  by (simp add: FeedMap_insert_def Let_def)

lemma FeedMap_sound_deref:
  "FeedMap_sound pk dk h m \<Longrightarrow> fmlookup (fm_feeds m) i = Some r \<Longrightarrow> r < length h"
  by (fastforce simp: FeedMap_sound_def deref_eq_Some)

lemma FeedMap_insert_sound:
  assumes sound: "FeedMap_sound pk dk h m" and wf: "FeedMap_wf m" and room: "FeedMap_size m < 2 ^ 64 - 1"
  shows "FeedMap_sound pk dk (h @ [f]) (FeedMap_link (pk f) (dk (pk f)) (length h) name m)"
proof -
  note look = FeedMap_link_lookup [OF wf room]
  have old: "deref (h @ [f]) r = deref h r" if "deref h r = Some g" for r g
    using that by (simp add: deref_eq_Some)
  have feeds: "\<exists>g. deref (h @ [f]) r = Some g \<and>
      FeedMap_get_key (FeedMap_link (pk f) (dk (pk f)) (length h) name m) (pk g) \<noteq> None \<and>
      FeedMap_get_dkey (FeedMap_link (pk f) (dk (pk f)) (length h) name m) (dk (pk g)) \<noteq> None"
    if "fmlookup (fm_feeds (FeedMap_link (pk f) (dk (pk f)) (length h) name m)) i = Some r" for i r
  proof (cases "i = hm_len (fm_feeds m)")
    case True
    with that have "deref (h @ [f]) r = Some f" by (auto simp: deref_def)
    then show ?thesis by (intro exI [of _ f]) (simp add: look)
  next
    case False
    with that sound obtain g where "deref h r = Some g" "FeedMap_get_key m (pk g) \<noteq> None"
      "FeedMap_get_dkey m (dk (pk g)) \<noteq> None"
      by (fastforce simp: FeedMap_sound_def)
    then show ?thesis by (simp add: look old)
  qed
  have "\<exists>g. deref (h @ [f]) r = Some g \<and> pk g = k"
    if "FeedMap_get_key (FeedMap_link (pk f) (dk (pk f)) (length h) name m) k = Some r" for k r
    using that sound by (fastforce simp: look FeedMap_sound_def old split: if_splits)
  moreover have "\<exists>g. deref (h @ [f]) r = Some g \<and> dk (pk g) = d"
    if "FeedMap_get_dkey (FeedMap_link (pk f) (dk (pk f)) (length h) name m) d = Some r" for d r
    using that sound by (fastforce simp: look FeedMap_sound_def old split: if_splits)
  ultimately show ?thesis
    using feeds by (auto simp: FeedMap_sound_def)
qed

lemma FeedMap_remove_fields:
  assumes "fmlookup (fm_keys m) (pk f) = Some i"
  shows "fm_feeds (FeedMap_remove pk dk f m) = fmdrop i (fm_feeds m)"
    and "fm_keys (FeedMap_remove pk dk f m) = fmdrop (pk f) (fm_keys m)"
    and "fm_dkeys (FeedMap_remove pk dk f m) = fmdrop (dk (pk f)) (fm_dkeys m)"
    and "fm_names (FeedMap_remove pk dk f m) =
      (case fmlookup (fm_names_rev m) i of None \<Rightarrow> fm_names m | Some n \<Rightarrow> fmdrop n (fm_names m))"
  using assms by (simp_all add: FeedMap_remove_def Let_def split: option.splits)

lemma FeedMap_same_feed:
  assumes wf: "FeedMap_wf m" and sound: "FeedMap_sound pk dk h m"
    and key: "fmlookup (fm_keys m) k = Some i"
  shows "fmlookup (fm_keys m) k' = Some i \<Longrightarrow> k = k'"
    and "fmlookup (fm_dkeys m) d = Some i \<Longrightarrow> dk k = d"
proof -
  from wf key obtain r where r: "fmlookup (fm_feeds m) i = Some r"
    by (fastforce simp: FeedMap_wf_def FeedMap_closed_def)
  have at_key: "\<exists>f. deref h r = Some f \<and> pk f = k'" if "fmlookup (fm_keys m) k' = Some i" for k'
    using sound that r by (simp add: FeedMap_sound_def FeedMap_get_key_def)
  then obtain f where f: "deref h r = Some f" "pk f = k"
    using key by blast
  show "k = k'" if "fmlookup (fm_keys m) k' = Some i"
    using at_key [OF that] f by auto
  show "dk k = d" if d: "fmlookup (fm_dkeys m) d = Some i"
  proof -
    have "FeedMap_get_dkey m d = Some r"
      using d r by (simp add: FeedMap_get_dkey_def)
    then have "\<exists>f. deref h r = Some f \<and> dk (pk f) = d"
      using sound by (simp add: FeedMap_sound_def)
    with f show ?thesis by auto
  qed
qed

subsection \<open>Properties\<close>

text \<open>
  Inserting a feed makes it the feed found under its public key, its discovery key and (if given)
  its name; every other key, discovery key and name resolves as before, the table stays well formed,
  and every index entry still points to a live feed with that key or discovery key.
\<close>

theorem FeedMap_insert_found:
  assumes "FeedMap_wf m" and "FeedMap_sound pk dk h m" and "FeedMap_size m < 2 ^ 64 - 1"
    and "FeedMap_insert pk dk f name m h = (r, m', h')"
  shows "deref h' r = Some f
    \<and> (\<forall>k. FeedMap_get_key m' k = (if k = pk f then Some r else FeedMap_get_key m k))
    \<and> (\<forall>d. FeedMap_get_dkey m' d = (if d = dk (pk f) then Some r else FeedMap_get_dkey m d))
    \<and> (\<forall>n. FeedMap_get_name m' n = (if name = Some n then Some r else FeedMap_get_name m n))
    \<and> FeedMap_wf m' \<and> FeedMap_sound pk dk h' m'"
proof -
  have "r = length h" "m' = FeedMap_link (pk f) (dk (pk f)) (length h) name m" "h' = h @ [f]"
    using assms(4) by (auto simp: FeedMap_insert_simp)
  then show ?thesis
    using FeedMap_link_lookup [OF assms(1,3)] FeedMap_link_wf [OF assms(1,3)]
      FeedMap_insert_sound [OF assms(2,1,3)] by simp
qed

theorem FeedMap_insert_found_witness:
  "FeedMap_get_key (fst (snd (FeedMap_insert (\<lambda>f. f) (\<lambda>k. 0 # k) [1] (Some [7]) FeedMap_new []))) [1] = Some 0
   \<and> FeedMap_get_name (fst (snd (FeedMap_insert (\<lambda>f. f) (\<lambda>k. 0 # k) [1] (Some [7]) FeedMap_new []))) [7] = Some 0"
  using FeedMap_insert_found [where pk = "\<lambda>f. f" and dk = "\<lambda>k. 0 # k",
      OF FeedMap_wf_new FeedMap_sound_new _ FeedMap_insert_simp, of "[]" "[1]" "Some [7]"]
  by (simp add: FeedMap_insert_simp FeedMap_new_def)

text \<open>
  Removing a feed forgets it under its key, its discovery key and its name, and leaves every other
  key, discovery key and name as it was.
\<close>

theorem FeedMap_remove_forgets:
  assumes wf: "FeedMap_wf m" and sound: "FeedMap_sound pk dk h m"
    and key: "fmlookup (fm_keys m) (pk f) = Some i"
  shows "FeedMap_get_key (FeedMap_remove pk dk f m) k = (if k = pk f then None else FeedMap_get_key m k)
    \<and> FeedMap_get_dkey (FeedMap_remove pk dk f m) d = (if d = dk (pk f) then None else FeedMap_get_dkey m d)
    \<and> FeedMap_get_name (FeedMap_remove pk dk f m) n =
        (if fmlookup (fm_names_rev m) i = Some n then None else FeedMap_get_name m n)"
proof (intro conjI)
  note fields = FeedMap_remove_fields [of m pk f, OF key]
  show "FeedMap_get_key (FeedMap_remove pk dk f m) k = (if k = pk f then None else FeedMap_get_key m k)"
    using FeedMap_same_feed(1) [OF wf sound key, of k]
    by (cases "fmlookup (fm_keys m) k") (auto simp: FeedMap_get_key_def fields)
  show "FeedMap_get_dkey (FeedMap_remove pk dk f m) d = (if d = dk (pk f) then None else FeedMap_get_dkey m d)"
    using FeedMap_same_feed(2) [OF wf sound key, of d]
    by (cases "fmlookup (fm_dkeys m) d") (auto simp: FeedMap_get_dkey_def fields)
  have "fmlookup (fm_names_rev m) i = Some n" if "fmlookup (fm_names m) n = Some i"
    using wf that by (simp add: FeedMap_wf_def FeedMap_names_ok_def)
  then show "FeedMap_get_name (FeedMap_remove pk dk f m) n =
      (if fmlookup (fm_names_rev m) i = Some n then None else FeedMap_get_name m n)"
    by (cases "fmlookup (fm_names m) n"; cases "fmlookup (fm_names_rev m) i")
      (auto simp: FeedMap_get_name_def fields)
qed

theorem FeedMap_remove_forgets_witness:
  "FeedMap_get_key (FeedMap_remove (\<lambda>f. f) (\<lambda>k. 0 # k) [1] (FeedMap_link [1] [0, 1] 0 (Some [7]) FeedMap_new)) [1] = None
   \<and> FeedMap_get_name (FeedMap_remove (\<lambda>f. f) (\<lambda>k. 0 # k) [1] (FeedMap_link [1] [0, 1] 0 (Some [7]) FeedMap_new)) [7] = None"
proof -
  have "FeedMap_sound (\<lambda>f. f) (\<lambda>k. 0 # k) ([] @ [[1]]) (FeedMap_link [1] [0, 1] (length []) (Some [7]) FeedMap_new)"
    using FeedMap_insert_sound [where pk = "\<lambda>f. f" and dk = "\<lambda>k. 0 # k" and f = "[1]"
        and h = "[]" and name = "Some [7]", OF FeedMap_sound_new FeedMap_wf_new] by (simp add: FeedMap_new_def)
  moreover have "FeedMap_wf (FeedMap_link [1] [0, 1] 0 (Some [7]) FeedMap_new)"
    by (rule FeedMap_link_wf [OF FeedMap_wf_new]) (simp add: FeedMap_new_def)
  ultimately show ?thesis
    using FeedMap_remove_forgets [where pk = "\<lambda>f. f" and dk = "\<lambda>k. 0 # k" and f = "[1]" and i = 0 and h = "[[1]]"
        and m = "FeedMap_link [1] [0, 1] 0 (Some [7]) FeedMap_new" and k = "[1]" and n = "[7]"]
    by (simp add: FeedMap_link_names hm_len_def FeedMap_new_def)
qed

text \<open>
  C12. \<open>_remove\<close> does not fit \<open>insert\<close>: an id is the number of feeds, so after the first of two feeds is
  removed the next insert takes the id of the second, and looking the second feed up by its key
  returns the feed inserted last.
\<close>

theorem FeedMap_remove_then_insert_collides:
  assumes "distinct [pk f0, pk f1, pk f2]"
    and "FeedMap_insert pk dk f0 None FeedMap_new [] = (r0, m0, h0)"
    and "FeedMap_insert pk dk f1 None m0 h0 = (r1, m1, h1)"
    and "FeedMap_insert pk dk f2 None (FeedMap_remove pk dk f0 m1) h1 = (r2, m2, h2)"
  shows "FeedMap_get_key m1 (pk f1) = Some r1 \<and> deref h1 r1 = Some f1 \<and>
    FeedMap_get_key m2 (pk f1) = Some r2 \<and> deref h2 r2 = Some f2"
  using assms
  by (auto simp: FeedMap_insert_simp FeedMap_get_key_def FeedMap_remove_def FeedMap_link_def FeedMap_new_def
      deref_def Let_def)

theorem FeedMap_remove_then_insert_collides_witness:
  "FeedMap_get_key (FeedMap_link [3] [3] 2 None (FeedMap_remove (\<lambda>f. f) (\<lambda>k. k) [1]
     (FeedMap_link [2] [2] 1 None (FeedMap_link [1] [1] 0 None FeedMap_new)))) [2] = Some 2"
  using FeedMap_remove_then_insert_collides [of "\<lambda>f. f" "[1]" "[2]" "[3]" "\<lambda>k. k",
      OF _ FeedMap_insert_simp FeedMap_insert_simp FeedMap_insert_simp]
  by (simp add: numeral_2_eq_2)

end
