(* ===== verification/Core_Store.thy ===== *)
theory Core_Store
  imports Feed_Map
begin

section \<open>The corestore (\<open>corestore/src/corestore.rs\<close>)\<close>

text \<open>
  A corestore keeps a master key on disk, derives the key pair of every named feed from it, opens feeds
  by name, public key or discovery key, and tells its subscribers about every feed it opens.
  \<open>Corestore\<close> wraps \<open>InnerCorestore\<close> in a read-write lock, and every operation holds the lock from
  start to end, so each operation is one step on the state below.

  What lies outside this repository is the record \<open>cs_ext\<close>: the file access of
  \<open>random-access-disk\<close>, the operating system's random numbers, \<open>storage_disk\<close> and \<open>Feed::builder\<close> of
  \<open>hypercore\<close>, the key operations of \<open>ed25519-dalek\<close>, \<open>blake2b\<close>, \<open>discovery_key\<close>, \<open>hex::encode\<close>, and
  whether the receiver of an event channel is still there.  These act on a world of any type \<open>'w\<close>;
  feeds (\<open>'f\<close>), their storage (\<open>'st\<close>) and hash states (\<open>'h\<close>) are any types too.
\<close>

type_synonym path = "string list"

record ('w, 'f, 'st, 'h) cs_ext =
  x_open :: "path \<Rightarrow> ('w, unit) rust"
  x_read :: "path \<Rightarrow> u64 \<Rightarrow> u64 \<Rightarrow> ('w, bytes) rust"
  x_write :: "path \<Rightarrow> u64 \<Rightarrow> bytes \<Rightarrow> ('w, unit) rust"
  x_len :: "path \<Rightarrow> ('w, u64) rust"
  x_random :: "('w, bytes) rust"
  x_storage_disk :: "path \<Rightarrow> ('w, 'st) rust"
  x_feed_build :: "bytes \<Rightarrow> 'st \<Rightarrow> bytes option \<Rightarrow> ('w, 'f) rust"
  x_feed_public_key :: "'f \<Rightarrow> bytes"
  x_public_from_bytes :: "bytes \<Rightarrow> bytes result"
  x_secret_from_bytes :: "bytes \<Rightarrow> bytes result"
  x_public_of_secret :: "bytes \<Rightarrow> bytes"
  x_blake2b_with_key :: "nat \<Rightarrow> bytes \<Rightarrow> 'h"
  x_blake2b_update :: "'h \<Rightarrow> bytes \<Rightarrow> 'h"
  x_blake2b_finalize :: "'h \<Rightarrow> bytes"
  x_discovery_key :: "bytes \<Rightarrow> bytes"
  x_hex_encode :: "bytes \<Rightarrow> string"
  x_receiver_alive :: "nat \<Rightarrow> bool"

datatype cs_event = CorestoreFeed ref

record inner_corestore =
  ic_master_key :: bytes
  ic_feeds :: feed_map
  ic_name :: string
  ic_storage_path :: path
  ic_subscribers :: "nat list"

text \<open>
  The state an operation runs on: the corestore, the world, the store of feeds, and the events sent so
  far, each with the number of the channel it was sent to.
\<close>

record ('w, 'f) cs_state =
  cs_inner :: inner_corestore
  cs_world :: 'w
  cs_heap :: "'f store"
  cs_sent :: "(nat \<times> cs_event) list"

definition in_world :: "('w, 'a) rust \<Rightarrow> (('w, 'f) cs_state, 'a) rust" where
  "in_world m = (\<lambda>s. case m (cs_world s) of (r, w) \<Rightarrow> (r, s\<lparr>cs_world := w\<rparr>))"

definition MASTER_KEY_FILENAME :: string where
  "MASTER_KEY_FILENAME = ''master_key''"

text \<open>\<open>"corestore".as_bytes()\<close>\<close>

definition NAMESPACE :: bytes where
  "NAMESPACE = map (\<lambda>c. of_nat (of_char c)) ''corestore''"

text \<open>\<open>Vec<u8>\<close> or a digest into \<open>[u8; 32]\<close>.\<close>

definition key_try_into :: "bytes \<Rightarrow> bytes result" where
  "key_try_into b = (if length b = 32 then Inr b else Inl (IoError ''TryFromSliceError''))"

subsection \<open>Keys\<close>

definition derive_key :: "('w, 'f, 'st, 'h) cs_ext \<Rightarrow> bytes \<Rightarrow> bytes \<Rightarrow> bytes \<Rightarrow> bytes result" where
  "derive_key ext master_key ns name =
     (let hasher = x_blake2b_with_key ext 32 master_key;
          hasher = x_blake2b_update ext hasher ns;
          hasher = x_blake2b_update ext hasher name
      in map_sum panic_of id (key_try_into (x_blake2b_finalize ext hasher)))"

definition generate_key :: "('w, 'f, 'st, 'h) cs_ext \<Rightarrow> ('w, bytes) rust" where
  "generate_key ext = rust_unwrap (x_random ext)"

definition pubkey_from_bytes :: "('w, 'f, 'st, 'h) cs_ext \<Rightarrow> bytes \<Rightarrow> bytes result" where
  "pubkey_from_bytes ext b = x_public_from_bytes ext b"

definition InnerCorestore_derive_secret ::
  "('w, 'f, 'st, 'h) cs_ext \<Rightarrow> inner_corestore \<Rightarrow> bytes \<Rightarrow> bytes \<Rightarrow> bytes result" where
  "InnerCorestore_derive_secret ext ic namespace name = derive_key ext (ic_master_key ic) namespace name"

text \<open>The key pair of a name: the part of \<open>generate_key_pair\<close> after the name is known.\<close>

definition name_key_pair ::
  "('w, 'f, 'st, 'h) cs_ext \<Rightarrow> inner_corestore \<Rightarrow> bytes \<Rightarrow> (bytes \<times> bytes) result" where
  "name_key_pair ext ic name =
     (case InnerCorestore_derive_secret ext ic NAMESPACE name of
        Inl e \<Rightarrow> Inl e
      | Inr seed \<Rightarrow>
          (case x_secret_from_bytes ext seed of
             Inl e \<Rightarrow> Inl (panic_of e)
           | Inr secret_key \<Rightarrow> Inr (x_public_of_secret ext secret_key, secret_key)))"

definition InnerCorestore_generate_key_pair ::
  "('w, 'f, 'st, 'h) cs_ext \<Rightarrow> bytes option \<Rightarrow>
   (('w, 'f) cs_state, bytes \<times> bytes option \<times> bytes option) rust" where
  "InnerCorestore_generate_key_pair ext name =
     rust_bind (case name of Some n \<Rightarrow> rust_return n | None \<Rightarrow> in_world (generate_key ext)) (\<lambda>name.
     rust_bind (rust_get cs_inner) (\<lambda>ic.
     rust_bind (rust_lift (name_key_pair ext ic name)) (\<lambda>(public_key, secret_key).
     rust_return (public_key, Some secret_key, Some name))))"

subsection \<open>Files\<close>

definition random_access_disk :: "('w, 'f, 'st, 'h) cs_ext \<Rightarrow> path \<Rightarrow> ('w, path) rust" where
  "random_access_disk ext p = rust_bind (x_open ext p) (\<lambda>_. rust_return p)"

text \<open>
  A discovery key has 32 bytes and its hexadecimal form 64 characters, so the two slices are in range.
\<close>

definition InnerCorestore_feed_path :: "('w, 'f, 'st, 'h) cs_ext \<Rightarrow> inner_corestore \<Rightarrow> bytes \<Rightarrow> path" where
  "InnerCorestore_feed_path ext ic dkey =
     (let hdkey = x_hex_encode ext dkey
      in ic_storage_path ic @ [take 2 hdkey, take 2 (drop 2 hdkey), hdkey])"

definition InnerCorestore_feed_storage ::
  "('w, 'f, 'st, 'h) cs_ext \<Rightarrow> bytes \<Rightarrow> string \<Rightarrow> (('w, 'f) cs_state, path) rust" where
  "InnerCorestore_feed_storage ext dkey name =
     rust_bind (rust_get (\<lambda>s. InnerCorestore_feed_path ext (cs_inner s) dkey @ [name])) (\<lambda>p.
     in_world (random_access_disk ext p))"

definition InnerCorestore_name_storage ::
  "('w, 'f, 'st, 'h) cs_ext \<Rightarrow> bytes \<Rightarrow> (('w, 'f) cs_state, path) rust" where
  "InnerCorestore_name_storage ext dkey = InnerCorestore_feed_storage ext dkey ''name''"

text \<open>\<open>name_storage.len().await.unwrap_or(0)\<close>\<close>

definition len_or_zero :: "('w, 'f, 'st, 'h) cs_ext \<Rightarrow> path \<Rightarrow> (('w, 'f) cs_state, u64) rust" where
  "len_or_zero ext p =
     rust_bind (rust_try (in_world (x_len ext p))) (\<lambda>l.
     rust_return (case l of Some n \<Rightarrow> n | None \<Rightarrow> 0))"

definition InnerCorestore_read_name ::
  "('w, 'f, 'st, 'h) cs_ext \<Rightarrow> bytes \<Rightarrow> (('w, 'f) cs_state, bytes option) rust" where
  "InnerCorestore_read_name ext dkey =
     rust_bind (InnerCorestore_name_storage ext dkey) (\<lambda>name_storage.
     rust_bind (len_or_zero ext name_storage) (\<lambda>len.
     if len > 0 then
       rust_bind (rust_unwrap (in_world (x_read ext name_storage 0 len))) (\<lambda>name.
       rust_return (Some name))
     else rust_return None))"

definition InnerCorestore_write_name_if_empty ::
  "('w, 'f, 'st, 'h) cs_ext \<Rightarrow> bytes \<Rightarrow> bytes \<Rightarrow> (('w, 'f) cs_state, bool) rust" where
  "InnerCorestore_write_name_if_empty ext dkey name =
     rust_bind (InnerCorestore_name_storage ext dkey) (\<lambda>name_storage.
     rust_bind (len_or_zero ext name_storage) (\<lambda>len.
     if len > 0 then rust_return False
     else
       rust_bind (rust_unwrap (in_world (x_write ext name_storage 0 name))) (\<lambda>_.
       rust_return True)))"

subsection \<open>Opening the store, events\<close>

definition InnerCorestore_with_storage_path ::
  "('w, 'f, 'st, 'h) cs_ext \<Rightarrow> path \<Rightarrow> ('w, inner_corestore) rust" where
  "InnerCorestore_with_storage_path ext p =
     rust_bind (random_access_disk ext (p @ [MASTER_KEY_FILENAME])) (\<lambda>master_key_storage.
     rust_bind (rust_try (x_read ext master_key_storage 0 32)) (\<lambda>read.
     rust_bind
       (case read of
          Some key \<Rightarrow> rust_unwrap (rust_lift (key_try_into key))
        | None \<Rightarrow>
            rust_bind (generate_key ext) (\<lambda>key.
            rust_bind (rust_unwrap (x_write ext master_key_storage 0 (take 32 key))) (\<lambda>_.
            rust_return key)))
       (\<lambda>master_key.
     rust_return
       \<lparr>ic_master_key = master_key, ic_feeds = FeedMap_new, ic_name = ''default'',
        ic_storage_path = p, ic_subscribers = []\<rparr>)))"

definition InnerCorestore_open :: "('w, 'f, 'st, 'h) cs_ext \<Rightarrow> path \<Rightarrow> ('w, inner_corestore) rust" where
  "InnerCorestore_open ext storage_path = InnerCorestore_with_storage_path ext storage_path"

text \<open>\<open>sender.send(event.clone()).await.unwrap()\<close> panics when the receiver is gone.\<close>

definition send_event :: "('w, 'f, 'st, 'h) cs_ext \<Rightarrow> cs_event \<Rightarrow> nat \<Rightarrow> (('w, 'f) cs_state, unit) rust" where
  "send_event ext event c =
     (if x_receiver_alive ext c then rust_modify (\<lambda>s. s\<lparr>cs_sent := cs_sent s @ [(c, event)]\<rparr>)
      else rust_fail (Panic ''SendError''))"

definition InnerCorestore_emit :: "('w, 'f, 'st, 'h) cs_ext \<Rightarrow> cs_event \<Rightarrow> (('w, 'f) cs_state, unit) rust" where
  "InnerCorestore_emit ext event =
     rust_bind (rust_get (\<lambda>s. ic_subscribers (cs_inner s))) (\<lambda>senders.
     rust_for (send_event ext event) senders)"

text \<open>
  \<open>mpsc::channel(100)\<close> makes a new channel; channels are numbered in the order of creation, and the
  number stands for both ends.
\<close>

definition InnerCorestore_subscribe :: "(('w, 'f) cs_state, nat) rust" where
  "InnerCorestore_subscribe =
     rust_bind (rust_get (\<lambda>s. length (ic_subscribers (cs_inner s)))) (\<lambda>c.
     rust_bind (rust_modify (\<lambda>s. s\<lparr>cs_inner := (cs_inner s)\<lparr>ic_subscribers := ic_subscribers (cs_inner s) @ [c]\<rparr>\<rparr>))
       (\<lambda>_. rust_return c))"

subsection \<open>Opening feeds\<close>

text \<open>
  The first half of \<open>open_feed\<close> for a feed that is not loaded: find out its name when it is opened by
  key, then its key pair.
\<close>

definition InnerCorestore_feed_keys ::
  "('w, 'f, 'st, 'h) cs_ext \<Rightarrow> bytes option \<Rightarrow> bytes option \<Rightarrow>
   (('w, 'f) cs_state, bytes \<times> bytes option \<times> bytes option) rust" where
  "InnerCorestore_feed_keys ext key name =
     rust_bind
       (case (key, name) of
          (_, Some n) \<Rightarrow> rust_return (Some n)
        | (None, None) \<Rightarrow> rust_return None
        | (Some k, None) \<Rightarrow> InnerCorestore_read_name ext (x_discovery_key ext k))
       (\<lambda>name.
     (case (key, name) of
        (_, Some n) \<Rightarrow> InnerCorestore_generate_key_pair ext (Some n)
      | (None, None) \<Rightarrow> InnerCorestore_generate_key_pair ext None
      | (Some k, None) \<Rightarrow>
          rust_bind (rust_lift (pubkey_from_bytes ext k)) (\<lambda>public_key.
          rust_return (public_key, None, None))))"

text \<open>The end of \<open>open_feed\<close>: file the built feed and announce it.\<close>

definition InnerCorestore_file_feed ::
  "('w, 'f, 'st, 'h) cs_ext \<Rightarrow> bytes option \<Rightarrow> 'f \<Rightarrow> (('w, 'f) cs_state, ref) rust" where
  "InnerCorestore_file_feed ext generated_name feed =
     rust_bind
       (\<lambda>s. case FeedMap_insert (x_feed_public_key ext) (x_discovery_key ext) feed generated_name
                 (ic_feeds (cs_inner s)) (cs_heap s) of
              (arc_feed, feeds, heap) \<Rightarrow>
                (Inr arc_feed, s\<lparr>cs_inner := (cs_inner s)\<lparr>ic_feeds := feeds\<rparr>, cs_heap := heap\<rparr>))
       (\<lambda>arc_feed.
     rust_bind (InnerCorestore_emit ext (CorestoreFeed arc_feed)) (\<lambda>_.
     rust_return arc_feed))"

text \<open>The second half of \<open>open_feed\<close>: record the name, build the feed, file it.\<close>

definition InnerCorestore_load_feed ::
  "('w, 'f, 'st, 'h) cs_ext \<Rightarrow> bytes \<times> bytes option \<times> bytes option \<Rightarrow> (('w, 'f) cs_state, ref) rust" where
  "InnerCorestore_load_feed ext keys =
     (case keys of (public_key, secret_key, generated_name) \<Rightarrow>
        let dkey = x_discovery_key ext public_key in
        rust_bind
          (case generated_name of
             Some name \<Rightarrow> rust_bind (InnerCorestore_write_name_if_empty ext dkey name) (\<lambda>_. rust_return ())
           | None \<Rightarrow> rust_return ())
          (\<lambda>_.
        rust_bind (rust_get (\<lambda>s. InnerCorestore_feed_path ext (cs_inner s) dkey)) (\<lambda>dir.
        rust_bind (in_world (x_storage_disk ext dir)) (\<lambda>feed_storage.
        rust_bind (in_world (x_feed_build ext public_key feed_storage secret_key)) (\<lambda>feed.
        InnerCorestore_file_feed ext generated_name feed)))))"

definition InnerCorestore_open_feed ::
  "('w, 'f, 'st, 'h) cs_ext \<Rightarrow> bytes option \<Rightarrow> bytes option \<Rightarrow> (('w, 'f) cs_state, ref) rust" where
  "InnerCorestore_open_feed ext key name =
     rust_bind (rust_get (\<lambda>s. Option.bind key (FeedMap_get_key (ic_feeds (cs_inner s))))) (\<lambda>loaded.
     case loaded of
       Some feed \<Rightarrow> rust_return feed
     | None \<Rightarrow>
         rust_bind (rust_get (\<lambda>s. Option.bind name (FeedMap_get_name (ic_feeds (cs_inner s))))) (\<lambda>loaded.
         case loaded of
           Some feed \<Rightarrow> rust_return feed
         | None \<Rightarrow>
             rust_bind (InnerCorestore_feed_keys ext key name) (InnerCorestore_load_feed ext)))"

definition InnerCorestore_get_by_key ::
  "('w, 'f, 'st, 'h) cs_ext \<Rightarrow> bytes \<Rightarrow> (('w, 'f) cs_state, ref) rust" where
  "InnerCorestore_get_by_key ext key = InnerCorestore_open_feed ext (Some key) None"

text \<open>A name is given by the bytes of the string (\<open>name.as_ref().as_bytes().to_vec()\<close>).\<close>

definition InnerCorestore_get_by_name ::
  "('w, 'f, 'st, 'h) cs_ext \<Rightarrow> bytes \<Rightarrow> (('w, 'f) cs_state, ref) rust" where
  "InnerCorestore_get_by_name ext name = InnerCorestore_open_feed ext None (Some name)"

definition InnerCorestore_get_by_dkey ::
  "('w, 'f, 'st, 'h) cs_ext \<Rightarrow> bytes \<Rightarrow> (('w, 'f) cs_state, ref option) rust" where
  "InnerCorestore_get_by_dkey ext dkey =
     rust_bind (rust_get (\<lambda>s. FeedMap_get_dkey (ic_feeds (cs_inner s)) dkey)) (\<lambda>loaded.
     case loaded of
       Some feed \<Rightarrow> rust_return (Some feed)
     | None \<Rightarrow>
         rust_bind (InnerCorestore_feed_storage ext dkey ''key'') (\<lambda>key_storage.
         rust_bind (rust_try (in_world (x_read ext key_storage 0 32))) (\<lambda>key.
         case key of
           Some key \<Rightarrow>
             rust_bind (rust_unwrap (rust_lift (key_try_into key))) (\<lambda>key.
             rust_bind (InnerCorestore_get_by_key ext key) (\<lambda>feed.
             rust_return (Some feed)))
         | None \<Rightarrow> rust_return None)))"

definition InnerCorestore_feeds :: "u64 list \<Rightarrow> inner_corestore \<Rightarrow> ref list" where
  "InnerCorestore_feeds order ic = FeedMap_iter order (ic_feeds ic)"

subsection \<open>The public handle\<close>

text \<open>
  \<open>Corestore::open\<close> puts the opened store behind the lock; the other operations take the lock and
  delegate.
\<close>

definition Corestore_open :: "('w, 'f, 'st, 'h) cs_ext \<Rightarrow> path \<Rightarrow> 'w \<Rightarrow> ('w, 'f) cs_state result \<times> 'w" where
  "Corestore_open ext storage_path w =
     (case InnerCorestore_open ext storage_path w of
        (Inl e, w') \<Rightarrow> (Inl e, w')
      | (Inr inner, w') \<Rightarrow> (Inr \<lparr>cs_inner = inner, cs_world = w', cs_heap = [], cs_sent = []\<rparr>, w'))"

definition Corestore_subscribe :: "(('w, 'f) cs_state, nat) rust" where
  "Corestore_subscribe = InnerCorestore_subscribe"

definition Corestore_get_by_key :: "('w, 'f, 'st, 'h) cs_ext \<Rightarrow> bytes \<Rightarrow> (('w, 'f) cs_state, ref) rust" where
  "Corestore_get_by_key ext key = InnerCorestore_get_by_key ext key"

definition Corestore_get_by_name :: "('w, 'f, 'st, 'h) cs_ext \<Rightarrow> bytes \<Rightarrow> (('w, 'f) cs_state, ref) rust" where
  "Corestore_get_by_name ext name = InnerCorestore_get_by_name ext name"

definition Corestore_get_by_dkey ::
  "('w, 'f, 'st, 'h) cs_ext \<Rightarrow> bytes \<Rightarrow> (('w, 'f) cs_state, ref option) rust" where
  "Corestore_get_by_dkey ext dkey = InnerCorestore_get_by_dkey ext dkey"

text \<open>\<open>for feed in &corestore.feeds().await\<close> visits the feeds of the table under the read lock.\<close>

definition Corestore_feeds :: "u64 list \<Rightarrow> ('w, 'f) cs_state \<Rightarrow> ref list" where
  "Corestore_feeds order s = InnerCorestore_feeds order (cs_inner s)"

end
