(* ===== verification/Core_Store_Props.thy ===== *)
theory Core_Store_Props
  imports Core_Store
begin

section \<open>Correctness of the corestore\<close>

text \<open>
  The invariant of the corestore's memory, what each operation keeps of it and returns, and what the
  files on disk have to do with it.  The facts about code outside this repository that the results use
  are named here: \<open>feed_build_law\<close> (a built feed has the public key it was built for),
  and \<open>key_laws\<close> (public keys are 32 bytes, and an accepted public key is the bytes it was read from).
\<close>

subsection \<open>Computations that leave the corestore's memory alone\<close>

definition same_mem :: "('w, 'f) cs_state \<Rightarrow> ('w, 'f) cs_state \<Rightarrow> bool" where
  "same_mem s s' \<longleftrightarrow> (\<exists>w. s' = s\<lparr>cs_world := w\<rparr>)"

definition world_only :: "(('w, 'f) cs_state, 'a) rust \<Rightarrow> bool" where
  "world_only m \<longleftrightarrow> (\<forall>s. same_mem s (snd (m s)))"

named_theorems world_only_intros \<open>rules for computations that only touch the world\<close>

lemma same_mem_refl [simp]: "same_mem s s"
  unfolding same_mem_def by (rule exI [of _ "cs_world s"]) simp

lemma same_mem_trans: "same_mem s s' \<Longrightarrow> same_mem s' s'' \<Longrightarrow> same_mem s s''"
  by (auto simp: same_mem_def)

lemma same_memD:
  "same_mem s s' \<Longrightarrow> cs_inner s' = cs_inner s \<and> cs_heap s' = cs_heap s \<and> cs_sent s' = cs_sent s"
  by (auto simp: same_mem_def)

lemma world_onlyD: "world_only m \<Longrightarrow> m s = (r, s') \<Longrightarrow> same_mem s s'"
  by (metis snd_conv world_only_def)

lemma world_only_in_world [world_only_intros]: "world_only (in_world m)"
  by (auto simp: world_only_def in_world_def same_mem_def split: prod.splits)

lemma world_only_pure [world_only_intros]:
  "world_only (rust_return a)" "world_only (rust_get f)" "world_only (rust_lift r)" "world_only (rust_fail e)"
  by (simp_all add: world_only_def rust_simps)

lemma world_only_bind [world_only_intros]:
  assumes m: "world_only m" and f: "\<And>a. world_only (f a)"
  shows "world_only (rust_bind m f)"
proof -
  have "same_mem s (snd (rust_bind m f s))" for s
  proof (cases "m s")
    case (Pair r s')
    with m have "same_mem s s'" by (auto dest: world_onlyD)
    with Pair f show ?thesis
      by (cases r) (auto simp: rust_simps world_only_def intro: same_mem_trans)
  qed
  then show ?thesis by (simp add: world_only_def)
qed

lemma world_only_unwrap [world_only_intros]: "world_only m \<Longrightarrow> world_only (rust_unwrap m)"
  by (auto simp: world_only_def rust_simps split: prod.splits sum.splits) (metis snd_conv)+

lemma world_only_try [world_only_intros]: "world_only m \<Longrightarrow> world_only (rust_try m)"
  by (auto simp: world_only_def rust_simps split: prod.splits sum.splits fault.splits) (metis snd_conv)+

lemma world_only_if [world_only_intros]: "world_only m \<Longrightarrow> world_only m' \<Longrightarrow> world_only (if b then m else m')"
  by simp

lemma world_only_option [world_only_intros]:
  "world_only m \<Longrightarrow> (\<And>a. world_only (f a)) \<Longrightarrow> world_only (case x of None \<Rightarrow> m | Some a \<Rightarrow> f a)"
  by (cases x) auto

lemma world_only_prod [world_only_intros]:
  "(\<And>a b. world_only (f a b)) \<Longrightarrow> world_only (case x of (a, b) \<Rightarrow> f a b)"
  by (cases x) auto

lemma world_only_feed_storage [world_only_intros]: "world_only (InnerCorestore_feed_storage ext dkey name)"
  unfolding InnerCorestore_feed_storage_def by (intro world_only_intros)

lemma world_only_len_or_zero [world_only_intros]: "world_only (len_or_zero ext p)"
  unfolding len_or_zero_def by (intro world_only_intros)

lemma world_only_read_name [world_only_intros]: "world_only (InnerCorestore_read_name ext dkey)"
  unfolding InnerCorestore_read_name_def InnerCorestore_name_storage_def by (intro world_only_intros)

lemma world_only_write_name [world_only_intros]:
  "world_only (InnerCorestore_write_name_if_empty ext dkey name)"
  unfolding InnerCorestore_write_name_if_empty_def InnerCorestore_name_storage_def by (intro world_only_intros)

lemma world_only_generate_key_pair [world_only_intros]: "world_only (InnerCorestore_generate_key_pair ext name)"
  unfolding InnerCorestore_generate_key_pair_def by (intro world_only_intros)

lemma world_only_feed_keys [world_only_intros]: "world_only (InnerCorestore_feed_keys ext key name)"
  unfolding InnerCorestore_feed_keys_def by (intro world_only_intros)

subsection \<open>Running a computation to success\<close>

lemma in_world_Inr: "in_world m s = (r, s') \<longleftrightarrow> m (cs_world s) = (r, cs_world s') \<and> same_mem s s'"
  by (auto simp: in_world_def same_mem_def split: prod.splits)

lemma send_events_Cons:
  "rust_for (send_event ext e) (c # cs) s =
     (if x_receiver_alive ext c then rust_for (send_event ext e) cs (s\<lparr>cs_sent := cs_sent s @ [(c, e)]\<rparr>)
      else (Inl (Panic ''SendError''), s))"
  by (simp add: rust_bind_def send_event_def rust_modify_def rust_fail_def)

lemma send_events_ok:
  "rust_for (send_event ext e) cs s = (Inr (), s') \<longleftrightarrow>
     (\<forall>c \<in> set cs. x_receiver_alive ext c) \<and> s' = s\<lparr>cs_sent := cs_sent s @ map (\<lambda>c. (c, e)) cs\<rparr>"
proof (induction cs arbitrary: s)
  case Nil
  show ?case by (auto simp: rust_simps)
next
  case (Cons c cs)
  show ?case by (simp add: send_events_Cons Cons.IH del: rust_for.simps)
qed

lemma send_events_any:
  assumes "rust_for (send_event ext e) cs s = (r, s')"
  obtains k where "s' = s\<lparr>cs_sent := cs_sent s @ map (\<lambda>c. (c, e)) (take k cs)\<rparr>"
proof -
  have "\<exists>k. s' = s\<lparr>cs_sent := cs_sent s @ map (\<lambda>c. (c, e)) (take k cs)\<rparr>"
    using assms
  proof (induction cs arbitrary: s)
    case Nil
    then show ?case by (simp add: rust_simps)
  next
    case (Cons c cs)
    show ?case
    proof (cases "x_receiver_alive ext c")
      case True
      with Cons.prems have "rust_for (send_event ext e) cs (s\<lparr>cs_sent := cs_sent s @ [(c, e)]\<rparr>) = (r, s')"
        by (simp add: send_events_Cons del: rust_for.simps)
      then obtain k where "s' = s\<lparr>cs_sent := cs_sent s @ (c, e) # map (\<lambda>c. (c, e)) (take k cs)\<rparr>"
        using Cons.IH by force
      then show ?thesis by (intro exI [of _ "Suc k"]) simp
    next
      case False
      with Cons.prems show ?thesis
        by (intro exI [of _ 0]) (simp add: send_events_Cons del: rust_for.simps)
    qed
  qed
  then show ?thesis using that by blast
qed

subsection \<open>The invariant of the corestore's memory\<close>

definition feed_build_law :: "('w, 'f, 'st, 'h) cs_ext \<Rightarrow> bool" where
  "feed_build_law ext \<longleftrightarrow>
     (\<forall>pk st sk w f w'. x_feed_build ext pk st sk w = (Inr f, w') \<longrightarrow> x_feed_public_key ext f = pk)"

definition key_laws :: "('w, 'f, 'st, 'h) cs_ext \<Rightarrow> bool" where
  "key_laws ext \<longleftrightarrow>
     (\<forall>b pk. x_public_from_bytes ext b = Inr pk \<longrightarrow> pk = b \<and> length b = 32) \<and>
     (\<forall>sk. length (x_public_of_secret ext sk) = 32)"

text \<open>Every feed filed under a name has the public key derived from that name.\<close>

definition names_sound :: "('w, 'f, 'st, 'h) cs_ext \<Rightarrow> ('w, 'f) cs_state \<Rightarrow> bool" where
  "names_sound ext s \<longleftrightarrow>
     (\<forall>n r. FeedMap_get_name (ic_feeds (cs_inner s)) n = Some r \<longrightarrow>
        (\<exists>f sk. deref (cs_heap s) r = Some f \<and>
           name_key_pair ext (cs_inner s) n = Inr (x_feed_public_key ext f, sk)))"

definition bus_ok :: "('w, 'f) cs_state \<Rightarrow> bool" where
  "bus_ok s \<longleftrightarrow>
     ic_subscribers (cs_inner s) = [0..<length (ic_subscribers (cs_inner s))] \<and>
     (\<forall>p \<in> set (cs_sent s). fst p < length (ic_subscribers (cs_inner s)))"

definition cs_inv :: "('w, 'f, 'st, 'h) cs_ext \<Rightarrow> ('w, 'f) cs_state \<Rightarrow> bool" where
  "cs_inv ext s \<longleftrightarrow>
     FeedMap_wf (ic_feeds (cs_inner s)) \<and>
     FeedMap_sound (x_feed_public_key ext) (x_discovery_key ext) (cs_heap s) (ic_feeds (cs_inner s)) \<and>
     names_sound ext s \<and> bus_ok s"

abbreviation cs_feeds :: "('w, 'f) cs_state \<Rightarrow> feed_map" where
  "cs_feeds s \<equiv> ic_feeds (cs_inner s)"

abbreviation cs_subs :: "('w, 'f) cs_state \<Rightarrow> nat list" where
  "cs_subs s \<equiv> ic_subscribers (cs_inner s)"

text \<open>There is a free number for one more feed.\<close>

abbreviation cs_room :: "('w, 'f) cs_state \<Rightarrow> bool" where
  "cs_room s \<equiv> FeedMap_size (cs_feeds s) < 2 ^ 64 - 1"

text \<open>What the invariant says of a feed that is found.\<close>

lemma get_key_feed:
  "cs_inv ext s \<Longrightarrow> FeedMap_get_key (cs_feeds s) k = Some q \<Longrightarrow>
   \<exists>f. deref (cs_heap s) q = Some f \<and> x_feed_public_key ext f = k"
  by (simp add: cs_inv_def FeedMap_sound_def)

lemma get_dkey_feed:
  "cs_inv ext s \<Longrightarrow> FeedMap_get_dkey (cs_feeds s) d = Some q \<Longrightarrow>
   \<exists>f. deref (cs_heap s) q = Some f \<and> x_discovery_key ext (x_feed_public_key ext f) = d"
  by (simp add: cs_inv_def FeedMap_sound_def)

lemma get_name_feed:
  "cs_inv ext s \<Longrightarrow> FeedMap_get_name (cs_feeds s) n = Some q \<Longrightarrow>
   \<exists>f sk. deref (cs_heap s) q = Some f \<and> name_key_pair ext (cs_inner s) n = Inr (x_feed_public_key ext f, sk)"
  unfolding cs_inv_def names_sound_def by blast

lemma cs_inv_same_mem: "same_mem s s' \<Longrightarrow> cs_inv ext s' = cs_inv ext s"
  unfolding same_mem_def cs_inv_def names_sound_def bus_ok_def by (elim exE) simp

lemma name_key_pair_feeds [simp]:
  "name_key_pair ext (ic\<lparr>ic_feeds := m\<rparr>) n = name_key_pair ext ic n"
  "name_key_pair ext (ic\<lparr>ic_subscribers := cs\<rparr>) n = name_key_pair ext ic n"
  by (simp_all add: name_key_pair_def InnerCorestore_derive_secret_def)

text \<open>The state after a feed has been filed and some of the subscribers have been told.\<close>

definition filed ::
  "('w, 'f, 'st, 'h) cs_ext \<Rightarrow> 'f \<Rightarrow> bytes option \<Rightarrow> nat \<Rightarrow> ('w, 'f) cs_state \<Rightarrow> ('w, 'f) cs_state" where
  "filed ext f name k s =
     s\<lparr>cs_inner := (cs_inner s)\<lparr>ic_feeds :=
         FeedMap_link (x_feed_public_key ext f) (x_discovery_key ext (x_feed_public_key ext f))
           (length (cs_heap s)) name (cs_feeds s)\<rparr>,
       cs_heap := cs_heap s @ [f],
       cs_sent := cs_sent s @ map (\<lambda>c. (c, CorestoreFeed (length (cs_heap s)))) (take k (cs_subs s))\<rparr>"

lemma filed_simps [simp]:
  "cs_world (filed ext f name k s) = cs_world s"
  "cs_heap (filed ext f name k s) = cs_heap s @ [f]"
  "cs_subs (filed ext f name k s) = cs_subs s"
  "cs_feeds (filed ext f name k s) =
     FeedMap_link (x_feed_public_key ext f) (x_discovery_key ext (x_feed_public_key ext f))
       (length (cs_heap s)) name (cs_feeds s)"
  "name_key_pair ext (cs_inner (filed ext f name k s)) n = name_key_pair ext (cs_inner s) n"
  "ic_storage_path (cs_inner (filed ext f name k s)) = ic_storage_path (cs_inner s)"
  "ic_master_key (cs_inner (filed ext f name k s)) = ic_master_key (cs_inner s)"
  by (simp_all add: filed_def)

lemma filed_names_sound:
  assumes inv: "cs_inv ext s" and room: "cs_room s"
    and name: "\<And>n. name = Some n \<Longrightarrow> \<exists>sk. name_key_pair ext (cs_inner s) n = Inr (x_feed_public_key ext f, sk)"
  shows "names_sound ext (filed ext f name k s)"
proof -
  have wf: "FeedMap_wf (cs_feeds s)" using inv by (simp add: cs_inv_def)
  have "\<exists>g sk. deref (cs_heap s @ [f]) r = Some g \<and>
      name_key_pair ext (cs_inner s) n = Inr (x_feed_public_key ext g, sk)"
    if "FeedMap_get_name (cs_feeds (filed ext f name k s)) n = Some r" for n r
  proof (cases "name = Some n")
    case True
    with that room wf have "r = length (cs_heap s)" by (simp add: FeedMap_link_lookup)
    then show ?thesis using name [OF True] by simp
  next
    case False
    with that room wf have "FeedMap_get_name (cs_feeds s) n = Some r" by (simp add: FeedMap_link_lookup)
    then obtain g sk where "deref (cs_heap s) r = Some g"
      "name_key_pair ext (cs_inner s) n = Inr (x_feed_public_key ext g, sk)"
      using inv unfolding cs_inv_def names_sound_def by blast
    then show ?thesis by (auto simp: deref_eq_Some nth_append)
  qed
  then show ?thesis by (simp add: names_sound_def)
qed

lemma filed_inv:
  assumes inv: "cs_inv ext s" and room: "cs_room s"
    and name: "\<And>n. name = Some n \<Longrightarrow> \<exists>sk. name_key_pair ext (cs_inner s) n = Inr (x_feed_public_key ext f, sk)"
  shows "cs_inv ext (filed ext f name k s)"
proof -
  have "bus_ok (filed ext f name k s)"
    using inv by (auto simp: cs_inv_def bus_ok_def filed_def dest!: in_set_takeD)
      (metis in_set_conv_nth diff_zero add_0 length_upt nth_upt)
  with assms show ?thesis
    by (simp add: cs_inv_def FeedMap_link_wf FeedMap_insert_sound filed_names_sound)
qed

subsection \<open>What opening a feed does, case by case\<close>

text \<open>The keys a feed is opened with: derived from its name, or the public key alone.\<close>

definition keys_ok ::
  "('w, 'f, 'st, 'h) cs_ext \<Rightarrow> inner_corestore \<Rightarrow> bytes option \<Rightarrow> bytes option \<Rightarrow>
   bytes \<Rightarrow> bytes option \<Rightarrow> bytes option \<Rightarrow> bool" where
  "keys_ok ext ic key name pk sk gn \<longleftrightarrow>
     (case gn of
        Some n \<Rightarrow> (\<exists>k. sk = Some k \<and> name_key_pair ext ic n = Inr (pk, k)) \<and> (name = None \<or> name = Some n)
      | None \<Rightarrow> name = None \<and> sk = None \<and> (\<exists>b. key = Some b \<and> x_public_from_bytes ext b = Inr pk))"

lemma generate_key_pair_ok:
  assumes "InnerCorestore_generate_key_pair ext name s = (Inr (pk, sk, gn), s')"
  obtains n k where "gn = Some n" "sk = Some k" "name_key_pair ext (cs_inner s) n = Inr (pk, k)"
    "name = None \<or> name = Some n" "same_mem s s'"
proof -
  have mem: "same_mem s s'"
    using assms by (auto intro: world_onlyD world_only_intros)
  from assms obtain n s1 where s1: "(case name of Some n \<Rightarrow> rust_return n | None \<Rightarrow> in_world (generate_key ext)) s = (Inr n, s1)"
    and rest: "rust_bind (rust_get cs_inner) (\<lambda>ic. rust_bind (rust_lift (name_key_pair ext ic n))
       (\<lambda>(public_key, secret_key). rust_return (public_key, Some secret_key, Some n))) s1 = (Inr (pk, sk, gn), s')"
    unfolding InnerCorestore_generate_key_pair_def by (rule rust_bind_InrE)
  have "same_mem s s1"
    using s1 by (rule world_onlyD [rotated]) (intro world_only_intros)
  then have "cs_inner s1 = cs_inner s"
    by (simp add: same_memD)
  moreover have "name = None \<or> name = Some n"
    using s1 by (auto simp: rust_simps split: option.splits)
  ultimately show ?thesis
    using rest mem that by (auto simp: rust_simps split: sum.splits prod.splits)
qed

lemma feed_keys_ok:
  assumes run: "InnerCorestore_feed_keys ext key name s = (Inr (pk, sk, gn), s')"
  shows "keys_ok ext (cs_inner s) key name pk sk gn" and "same_mem s s'"
proof -
  show "same_mem s s'"
    using run by (rule world_onlyD [rotated]) (intro world_only_intros)
  from run obtain nm s1 where s1: "(case (key, name) of (_, Some n) \<Rightarrow> rust_return (Some n)
        | (None, None) \<Rightarrow> rust_return None
        | (Some k, None) \<Rightarrow> InnerCorestore_read_name ext (x_discovery_key ext k)) s = (Inr nm, s1)"
    and rest: "(case (key, nm) of (_, Some n) \<Rightarrow> InnerCorestore_generate_key_pair ext (Some n)
      | (None, None) \<Rightarrow> InnerCorestore_generate_key_pair ext None
      | (Some k, None) \<Rightarrow> rust_bind (rust_lift (pubkey_from_bytes ext k)) (\<lambda>public_key.
          rust_return (public_key, None, None))) s1 = (Inr (pk, sk, gn), s')"
    unfolding InnerCorestore_feed_keys_def by (rule rust_bind_InrE)
  have "same_mem s s1"
    using s1 by (rule world_onlyD [rotated]) (intro world_only_intros)
  then have ic: "cs_inner s1 = cs_inner s"
    by (simp add: same_memD)
  have nm: "name = None \<or> nm = name"
    using s1 by (auto simp: rust_simps split: option.splits)
  show "keys_ok ext (cs_inner s) key name pk sk gn"
  proof (cases "nm = None \<and> key \<noteq> None")
    case True
    with rest nm show ?thesis
      by (auto simp: keys_ok_def rust_simps pubkey_from_bytes_def split: sum.splits)
  next
    case False
    then have "InnerCorestore_generate_key_pair ext nm s1 = (Inr (pk, sk, gn), s')"
      using rest by (cases nm; cases key) simp_all
    then show ?thesis
      by (rule generate_key_pair_ok) (use nm ic in \<open>auto simp: keys_ok_def\<close>)
  qed
qed

lemma file_feed_cases:
  assumes run: "InnerCorestore_file_feed ext gn f s = (r, s')"
  obtains (told) "r = Inr (length (cs_heap s))" "s' = filed ext f gn (length (cs_subs s)) s"
        "\<forall>c \<in> set (cs_subs s). x_receiver_alive ext c"
    | (receiver_gone) k e where "r = Inl e" "s' = filed ext f gn k s"
proof -
  obtain u where u: "rust_for (send_event ext (CorestoreFeed (length (cs_heap s)))) (cs_subs s)
      (filed ext f gn 0 s) = (u, s')"
    and r: "r = (case u of Inl e \<Rightarrow> Inl e | Inr _ \<Rightarrow> Inr (length (cs_heap s)))"
    using run by (fastforce simp: InnerCorestore_file_feed_def rust_bind_def FeedMap_insert_simp
        InnerCorestore_emit_def rust_get_def rust_return_def filed_def split: sum.splits prod.splits)
  show ?thesis
  proof (cases "u = Inr ()")
    case True
    with u r show ?thesis
      by (intro told) (auto simp: send_events_ok filed_def)
  next
    case False
    then obtain e where "r = Inl e" using r by (cases u) auto
    moreover from u obtain k where "s' = filed ext f gn k s"
      by (rule send_events_any) (auto simp: filed_def)
    ultimately show ?thesis by (rule receiver_gone)
  qed
qed

lemma load_feed_cases:
  assumes run: "InnerCorestore_load_feed ext (pk, sk, gn) s = (r, s')"
  obtains (failed) e where "r = Inl e" "same_mem s s'"
    | (built) s1 f st w where "same_mem s s1" "x_feed_build ext pk st sk w = (Inr f, cs_world s1)"
        "InnerCorestore_file_feed ext gn f s1 = (r, s')"
proof -
  define prep where "prep =
    rust_bind (case gn of
          Some name \<Rightarrow> rust_bind (InnerCorestore_write_name_if_empty ext (x_discovery_key ext pk) name) (\<lambda>_. rust_return ())
        | None \<Rightarrow> rust_return ()) (\<lambda>_.
    rust_bind (rust_get (\<lambda>s. InnerCorestore_feed_path ext (cs_inner s) (x_discovery_key ext pk))) (\<lambda>dir.
    in_world (x_storage_disk ext dir)))"
  have split: "rust_bind prep (\<lambda>st. rust_bind (in_world (x_feed_build ext pk st sk)) (InnerCorestore_file_feed ext gn)) s
      = (r, s')"
    using run by (simp add: InnerCorestore_load_feed_def prep_def Let_def rust_bind_assoc)
  have prep: "same_mem s s0" if "prep s = (p, s0)" for p s0
    using that by (rule world_onlyD [rotated]) (unfold prep_def, intro world_only_intros)
  have build: "same_mem s0 s1" if "in_world (x_feed_build ext pk st sk) s0 = (b, s1)" for st b s0 s1
    using that by (simp add: in_world_Inr)
  show ?thesis
  proof (cases r)
    case (Inl e)
    from split [unfolded Inl] show ?thesis
    proof (cases rule: rust_bind_InlE)
      case first
      then show ?thesis using Inl prep by (intro failed)
    next
      case (second st s0)
      from second(2) show ?thesis
      proof (cases rule: rust_bind_InlE)
        case first
        then show ?thesis using Inl second(1) prep build by (metis failed same_mem_trans)
      next
        case (second f s1)
        then show ?thesis
          using \<open>prep s = (Inr st, s0)\<close> Inl
          by (intro built [of s1 st "cs_world s0" f]) (auto simp: in_world_Inr intro: same_mem_trans prep)
      qed
    qed
  next
    case (Inr q)
    from split [unfolded Inr] obtain st s0 f s1 where "prep s = (Inr st, s0)"
      "in_world (x_feed_build ext pk st sk) s0 = (Inr f, s1)" "InnerCorestore_file_feed ext gn f s1 = (Inr q, s')"
      by (elim rust_bind_InrE)
    then show ?thesis
      using Inr by (intro built [of s1 st "cs_world s0" f]) (auto simp: in_world_Inr intro: same_mem_trans prep)
  qed
qed

lemma open_feed_loaded:
  "Option.bind key (FeedMap_get_key (cs_feeds s)) = Some q \<Longrightarrow> InnerCorestore_open_feed ext key name s = (Inr q, s)"
  "Option.bind key (FeedMap_get_key (cs_feeds s)) = None \<Longrightarrow>
   Option.bind name (FeedMap_get_name (cs_feeds s)) = Some q \<Longrightarrow> InnerCorestore_open_feed ext key name s = (Inr q, s)"
  by (simp_all add: InnerCorestore_open_feed_def rust_simps)

lemma open_feed_cases:
  assumes run: "InnerCorestore_open_feed ext key name s = (r, s')"
  obtains (loaded) q where "r = Inr q" "s' = s"
      "Option.bind key (FeedMap_get_key (cs_feeds s)) = Some q \<or> Option.bind name (FeedMap_get_name (cs_feeds s)) = Some q"
    | (failed) e where "r = Inl e" "same_mem s s'"
    | (opened) pk sk gn s0 s1 f st w where
        "Option.bind key (FeedMap_get_key (cs_feeds s)) = None" "Option.bind name (FeedMap_get_name (cs_feeds s)) = None"
        "InnerCorestore_feed_keys ext key name s = (Inr (pk, sk, gn), s0)" "same_mem s s1"
        "x_feed_build ext pk st sk w = (Inr f, cs_world s1)" "InnerCorestore_file_feed ext gn f s1 = (r, s')"
proof (cases "Option.bind key (FeedMap_get_key (cs_feeds s))")
  case (Some q)
  with run show ?thesis by (intro loaded [of q]) (auto simp: open_feed_loaded)
next
  case no_key: None
  show ?thesis
  proof (cases "Option.bind name (FeedMap_get_name (cs_feeds s))")
    case (Some q)
    with run no_key show ?thesis by (intro loaded [of q]) (auto simp: open_feed_loaded)
  next
    case no_name: None
    have rest: "rust_bind (InnerCorestore_feed_keys ext key name) (InnerCorestore_load_feed ext) s = (r, s')"
      using run no_key no_name by (simp add: InnerCorestore_open_feed_def rust_get_def rust_bind_def)
    obtain p s0 where p: "InnerCorestore_feed_keys ext key name s = (p, s0)" by fastforce
    then have m0: "same_mem s s0" by (rule world_onlyD [rotated]) (intro world_only_intros)
    show ?thesis
    proof (cases p)
      case (Inl e)
      with rest p m0 show ?thesis by (intro failed [of e]) (auto simp: rust_simps)
    next
      case (Inr keys)
      obtain pk sk gn where keys: "keys = (pk, sk, gn)" by (cases keys)
      with rest p Inr have "InnerCorestore_load_feed ext (pk, sk, gn) s0 = (r, s')" by (simp add: rust_simps)
      then show ?thesis
        by (cases rule: load_feed_cases)
          (use p Inr keys m0 no_key no_name in \<open>auto intro: failed opened same_mem_trans\<close>)
    qed
  qed
qed

lemma keys_ok_length: "key_laws ext \<Longrightarrow> keys_ok ext ic key name pk sk gn \<Longrightarrow> length pk = 32"
  by (auto simp: keys_ok_def key_laws_def name_key_pair_def split: option.splits sum.splits)

lemma keys_ok_name:
  "keys_ok ext ic key name pk sk (Some n) \<Longrightarrow> \<exists>sk. name_key_pair ext ic n = Inr (pk, sk)"
  by (auto simp: keys_ok_def)

text \<open>Filing a feed with the keys it was opened with keeps the invariant, whether or not every subscriber is there.\<close>

lemma file_feed_inv:
  assumes inv: "cs_inv ext s" and room: "cs_room s"
    and name: "\<And>n. gn = Some n \<Longrightarrow> \<exists>sk. name_key_pair ext (cs_inner s) n = Inr (x_feed_public_key ext f, sk)"
    and run: "InnerCorestore_file_feed ext gn f s = (r, s')"
  shows "cs_inv ext s'"
  using run by (cases rule: file_feed_cases) (use filed_inv [OF inv room name] in auto)

lemma opened_name:
  assumes "feed_build_law ext" and "InnerCorestore_feed_keys ext key name s = (Inr (pk, sk, gn), s0)"
    and "same_mem s s1" and "x_feed_build ext pk st sk w = (Inr f, cs_world s1)"
  shows "x_feed_public_key ext f = pk"
    and "gn = Some n \<Longrightarrow> \<exists>sk. name_key_pair ext (cs_inner s1) n = Inr (x_feed_public_key ext f, sk)"
proof -
  show pk: "x_feed_public_key ext f = pk"
    using assms(1,4) unfolding feed_build_law_def by blast
  show "\<exists>sk. name_key_pair ext (cs_inner s1) n = Inr (x_feed_public_key ext f, sk)" if "gn = Some n"
    using feed_keys_ok(1) [OF assms(2)] same_memD [OF assms(3)] that pk by (auto dest: keys_ok_name)
qed

lemma open_feed_inv:
  assumes law: "feed_build_law ext" and inv: "cs_inv ext s" and room: "cs_room s"
    and run: "InnerCorestore_open_feed ext key name s = (r, s')"
  shows "cs_inv ext s'"
  using run
proof (cases rule: open_feed_cases)
  case (opened pk sk gn s0 s1 f st w)
  show ?thesis
    by (rule file_feed_inv [OF _ _ _ opened(6)])
      (use inv room opened_name [OF law opened(3-5)] cs_inv_same_mem [OF opened(4)] same_memD [OF opened(4)] in auto)
qed (use inv cs_inv_same_mem in auto)

text \<open>What a successful opening returns and leaves in the table.\<close>

lemma open_feed_returns:
  assumes law: "feed_build_law ext" and inv: "cs_inv ext s" and room: "cs_room s"
    and run: "InnerCorestore_open_feed ext key name s = (Inr q, s')"
  obtains (old) "s' = s"
      "Option.bind key (FeedMap_get_key (cs_feeds s)) = Some q \<or> Option.bind name (FeedMap_get_name (cs_feeds s)) = Some q"
    | (new) pk sk gn s0 s1 f where
        "Option.bind key (FeedMap_get_key (cs_feeds s)) = None" "Option.bind name (FeedMap_get_name (cs_feeds s)) = None"
        "InnerCorestore_feed_keys ext key name s = (Inr (pk, sk, gn), s0)" "same_mem s s1"
        "s' = filed ext f gn (length (cs_subs s)) s1" "q = length (cs_heap s)" "x_feed_public_key ext f = pk"
  using run
proof (cases rule: open_feed_cases)
  case (opened pk sk gn s0 s1 f st w)
  have "cs_heap s1 = cs_heap s" "cs_subs s1 = cs_subs s"
    using opened(4) by (simp_all add: same_memD)
  with opened(6) have "s' = filed ext f gn (length (cs_subs s)) s1 \<and> q = length (cs_heap s)"
    by (cases rule: file_feed_cases) auto
  with opened opened_name(1) [OF law opened(3-5)] show ?thesis
    by (intro new [of pk sk gn s0 s1 f]) auto
qed (use old in auto)

text \<open>Cells are never freed, and a returned handle points to one.\<close>

lemma open_feed_valid:
  assumes "feed_build_law ext" and inv: "cs_inv ext s" and "cs_room s"
    and run: "InnerCorestore_open_feed ext key name s = (r, s')"
  shows "length (cs_heap s) \<le> length (cs_heap s') \<and> (\<forall>q. r = Inr q \<longrightarrow> q < length (cs_heap s'))"
  using run
proof (cases rule: open_feed_cases)
  case (loaded q)
  then have "\<exists>f. deref (cs_heap s) q = Some f"
    by (auto simp: bind_eq_Some_conv dest: get_key_feed [OF inv] get_name_feed [OF inv])
  with loaded show ?thesis by (auto simp: deref_eq_Some)
next
  case (opened pk sk gn s0 s1 f st w)
  then show ?thesis
    using same_memD [OF opened(4)] by (auto elim: file_feed_cases)
qed (auto simp: same_memD)

text \<open>The part of \<open>get_by_dkey\<close> after the key file has been opened.\<close>

lemma dkey_read_cases:
  assumes run: "rust_bind (rust_try (in_world (x_read ext p 0 32))) (\<lambda>key.
      case key of Some key \<Rightarrow> rust_bind (rust_unwrap (rust_lift (key_try_into key))) (\<lambda>key.
             rust_bind (InnerCorestore_get_by_key ext key) (\<lambda>feed. rust_return (Some feed)))
      | None \<Rightarrow> rust_return None) s = (r, s')"
  obtains (failed) e where "r = Inl e" "same_mem s s'"
    | (absent) "r = Inr None" "same_mem s s'"
    | (on_disk) key s1 r' where "same_mem s s1" "length key = 32"
        "x_read ext p 0 32 (cs_world s) = (Inr key, cs_world s1)"
        "InnerCorestore_get_by_key ext key s1 = (r', s')" "r = map_sum id Some r'"
  using run
proof (cases rule: rust_bindE)
  case (fault e)
  have "same_mem s s'"
    using fault(1) by (rule world_onlyD [rotated]) (intro world_only_intros)
  with fault failed show ?thesis by simp
next
  case (ok key s1)
  have s1: "same_mem s s1"
    using ok(1) by (rule world_onlyD [rotated]) (intro world_only_intros)
  show ?thesis
  proof (cases key)
    case None
    with ok s1 absent show ?thesis by (simp add: rust_simps)
  next
    case (Some k)
    show ?thesis
    proof (cases "length k = 32")
      case True
      obtain r' where "InnerCorestore_get_by_key ext k s1 = (r', s')" "r = map_sum id Some r'"
        using ok(2) Some True by (auto simp: rust_simps key_try_into_def split: prod.splits sum.splits)
      with ok(1) Some True s1 show ?thesis
        by (intro on_disk [of s1 k r']) (auto simp: rust_try_Inr in_world_Inr)
    next
      case False
      with ok(2) Some s1 show ?thesis
        by (intro failed) (auto simp: rust_simps key_try_into_def)
    qed
  qed
qed

lemma feed_storage_ok:
  "InnerCorestore_feed_storage ext dkey name s = (Inr p, s') \<Longrightarrow>
     p = InnerCorestore_feed_path ext (cs_inner s) dkey @ [name]"
  by (auto simp: InnerCorestore_feed_storage_def random_access_disk_def rust_simps in_world_def
      split: prod.splits sum.splits)

lemma get_by_dkey_cases:
  assumes run: "InnerCorestore_get_by_dkey ext dkey s = (r, s')"
  obtains (loaded) q where "r = Inr (Some q)" "s' = s" "FeedMap_get_dkey (cs_feeds s) dkey = Some q"
    | (failed) e where "r = Inl e" "same_mem s s'"
    | (absent) "r = Inr None" "same_mem s s'"
    | (on_disk) key p s1 s2 r' where
        "InnerCorestore_feed_storage ext dkey ''key'' s = (Inr p, s1)" "same_mem s s1" "same_mem s s2" "length key = 32"
        "x_read ext p 0 32 (cs_world s1) = (Inr key, cs_world s2)"
        "InnerCorestore_get_by_key ext key s2 = (r', s')" "r = map_sum id Some r'"
proof (cases "FeedMap_get_dkey (cs_feeds s) dkey")
  case (Some q)
  with run show ?thesis by (intro loaded [of q]) (auto simp: InnerCorestore_get_by_dkey_def rust_simps)
next
  case None
  note run' = run [unfolded InnerCorestore_get_by_dkey_def rust_get_bind_apply None option.case]
  from run' show ?thesis
  proof (cases rule: rust_bindE)
    case (fault e)
    then show ?thesis by (intro failed) (auto intro: world_onlyD world_only_intros)
  next
    case (ok p s1)
    have s1: "same_mem s s1" using ok(1) by (auto intro: world_onlyD world_only_intros)
    from ok(2) show ?thesis
      by (cases rule: dkey_read_cases) (use ok(1) s1 in \<open>auto intro: failed absent on_disk same_mem_trans\<close>)
  qed
qed

lemma get_by_dkey_inv:
  assumes law: "feed_build_law ext" and inv: "cs_inv ext s" and room: "cs_room s"
    and run: "InnerCorestore_get_by_dkey ext dkey s = (r, s')"
  shows "cs_inv ext s'"
  using run
proof (cases rule: get_by_dkey_cases)
  case (on_disk key p s1 s2 r')
  show ?thesis
    by (rule open_feed_inv [OF law _ _ on_disk(6) [unfolded InnerCorestore_get_by_key_def]])
      (use inv room cs_inv_same_mem [OF on_disk(3)] same_memD [OF on_disk(3)] in auto)
qed (use inv cs_inv_same_mem in auto)

subsection \<open>The corestore as an event bus and as a transition system\<close>

lemma Corestore_subscribe_run:
  "Corestore_subscribe s =
     (Inr (length (cs_subs s)), s\<lparr>cs_inner := (cs_inner s)\<lparr>ic_subscribers := cs_subs s @ [length (cs_subs s)]\<rparr>\<rparr>)"
  by (simp add: Corestore_subscribe_def InnerCorestore_subscribe_def rust_simps)

lemma bus_ok_subscribe: "bus_ok s \<Longrightarrow> bus_ok (snd (Corestore_subscribe s))"
  by (auto simp: Corestore_subscribe_run bus_ok_def less_SucI)

lemma subscribe_inv: "cs_inv ext s \<Longrightarrow> cs_inv ext (snd (Corestore_subscribe s))"
proof -
  assume inv: "cs_inv ext s"
  let ?t = "snd (Corestore_subscribe s)"
  have "names_sound ext ?t"
    using inv unfolding cs_inv_def names_sound_def Corestore_subscribe_run by simp
  with inv show ?thesis
    by (simp add: cs_inv_def bus_ok_subscribe) (simp add: Corestore_subscribe_run)
qed

lemma emit_run:
  obtains k where "snd (InnerCorestore_emit ext e s) = s\<lparr>cs_sent := cs_sent s @ map (\<lambda>c. (c, e)) (take k (cs_subs s))\<rparr>"
proof -
  obtain r s' where run: "rust_for (send_event ext e) (cs_subs s) s = (r, s')" by fastforce
  then have "snd (InnerCorestore_emit ext e s) = s'"
    by (simp add: InnerCorestore_emit_def rust_get_bind_apply)
  with run that show ?thesis
    by (auto elim: send_events_any)
qed

lemma emit_all_alive:
  "(\<And>c. c \<in> set (cs_subs s) \<Longrightarrow> x_receiver_alive ext c) \<Longrightarrow>
   InnerCorestore_emit ext e s = (Inr (), s\<lparr>cs_sent := cs_sent s @ map (\<lambda>c. (c, e)) (cs_subs s)\<rparr>)"
  by (simp add: InnerCorestore_emit_def rust_get_bind_apply send_events_ok)

lemma bus_ok_emit:
  assumes "bus_ok s"
  shows "bus_ok (snd (InnerCorestore_emit ext e s))"
proof (rule emit_run [of ext e s])
  fix k
  assume "snd (InnerCorestore_emit ext e s) = s\<lparr>cs_sent := cs_sent s @ map (\<lambda>c. (c, e)) (take k (cs_subs s))\<rparr>"
  moreover have "c < length (cs_subs s)" if "c \<in> set (take k (cs_subs s))" for c
    using in_set_takeD [OF that] assms by (metis atLeastLessThan_iff bus_ok_def set_upt)
  ultimately show ?thesis
    using assms by (auto simp: bus_ok_def)
qed

text \<open>A subscriber of the corestore is told about every feed opened after it subscribed.\<close>

interpretation corestore_bus: event_bus
  "cs_subs :: ('w, 'f) cs_state \<Rightarrow> nat list" cs_sent
  "\<lambda>s. (projr (fst (Corestore_subscribe s)), snd (Corestore_subscribe s))"
  "\<lambda>e s. snd (InnerCorestore_emit ext e s)" "x_receiver_alive ext" bus_ok
  for ext :: "('w, 'f, 'st, 'h) cs_ext"
proof (unfold_locales, goal_cases)
  case (1 s)
  then show ?case by (metis bus_ok_def distinct_upt)
next
  case (2 s c s')
  then show ?case by (auto simp: Corestore_subscribe_run) (metis atLeastLessThan_iff bus_ok_def less_irrefl set_upt)
next
  case (3 s c s')
  then show ?case by (auto simp: Corestore_subscribe_run received_def bus_ok_def filter_empty_conv)
next
  case (4 s)
  then show ?case by (simp add: bus_ok_subscribe)
next
  case (5 e s)
  then show ?case by (rule emit_run [of ext e s]) simp
next
  case (6 s e)
  then show ?case by (simp add: emit_all_alive)
next
  case (7 s e)
  then show ?case by (rule bus_ok_emit)
qed

inductive corestore_step :: "('w, 'f, 'st, 'h) cs_ext \<Rightarrow> ('w, 'f) cs_state \<Rightarrow> ('w, 'f) cs_state \<Rightarrow> bool"
  for ext where
  by_key: "cs_room s \<Longrightarrow> Corestore_get_by_key ext key s = (r, s') \<Longrightarrow> corestore_step ext s s'"
| by_name: "cs_room s \<Longrightarrow> Corestore_get_by_name ext name s = (r, s') \<Longrightarrow> corestore_step ext s s'"
| by_dkey: "cs_room s \<Longrightarrow> Corestore_get_by_dkey ext dkey s = (r', s') \<Longrightarrow> corestore_step ext s s'"
| subscribe: "Corestore_subscribe s = (c, s') \<Longrightarrow> corestore_step ext s s'"

definition corestore_init :: "('w, 'f, 'st, 'h) cs_ext \<Rightarrow> path \<Rightarrow> ('w, 'f) cs_state \<Rightarrow> bool" where
  "corestore_init ext p s \<longleftrightarrow> (\<exists>w w'. Corestore_open ext p w = (Inr s, w'))"

lemma Corestore_open_ok:
  assumes "Corestore_open ext p w = (Inr s, w')"
  obtains mk where "s = \<lparr>cs_inner = \<lparr>ic_master_key = mk, ic_feeds = FeedMap_new, ic_name = ''default'',
      ic_storage_path = p, ic_subscribers = []\<rparr>, cs_world = w', cs_heap = [], cs_sent = []\<rparr>"
    "InnerCorestore_open ext p w = (Inr (cs_inner s), w')"
  using assms
  by (auto simp: Corestore_open_def InnerCorestore_open_def InnerCorestore_with_storage_path_def rust_return_apply
      split: prod.splits sum.splits elim!: rust_bind_InrE)

lemma corestore_init_inv: "corestore_init ext p s \<Longrightarrow> cs_inv ext s"
  by (auto simp: corestore_init_def cs_inv_def names_sound_def bus_ok_def FeedMap_wf_new FeedMap_sound_new
      elim!: Corestore_open_ok) (simp add: FeedMap_get_name_def FeedMap_new_def)

interpretation corestore: transition_system "corestore_init ext p" "corestore_step ext"
  "\<lambda>s. feed_build_law ext \<longrightarrow> cs_inv ext s" for ext p
proof (unfold_locales, goal_cases)
  case (1 s)
  then show ?case by (simp add: corestore_init_inv)
next
  case (2 s t)
  from 2(2) show ?case
    by cases (use 2(1) in \<open>auto simp: Corestore_get_by_key_def InnerCorestore_get_by_key_def
        Corestore_get_by_name_def InnerCorestore_get_by_name_def Corestore_get_by_dkey_def
        dest: open_feed_inv get_by_dkey_inv subscribe_inv\<close>)
qed

end
