(* ===== verification/Core_Store_Disk.thy ===== *)
theory Core_Store_Disk
  imports Core_Store_Props
begin

section \<open>The corestore and its files\<close>

text \<open>
  What the corestore keeps on disk: the master key, and for every feed opened with a name a file
  holding that name in the feed's directory, which is named after the discovery key.  The file
  operations are not part of this repository; \<open>disk_laws\<close> states what is relied on, with \<open>content w p\<close>
  for the bytes of the file \<open>p\<close> in the world \<open>w\<close> (no bytes when there is no such file) and \<open>dir st\<close> for
  the directory a feed storage was opened on.
\<close>

definition hypercore_files :: "string list" where
  "hypercore_files = [''tree'', ''data'', ''bitfield'', ''signatures'', ''key'', ''secret_key'']"

definition reading_laws :: "('w, 'f, 'st, 'h) cs_ext \<Rightarrow> ('w \<Rightarrow> path \<Rightarrow> bytes) \<Rightarrow> bool" where
  "reading_laws ext content \<longleftrightarrow>
     (\<forall>p w. content (snd (x_open ext p w)) = content w) \<and>
     (\<forall>p w. content (snd (x_len ext p w)) = content w) \<and>
     (\<forall>p w n w'. x_len ext p w = (Inr n, w') \<longrightarrow> unat n = length (content w p)) \<and>
     (\<forall>p w e w'. x_len ext p w = (Inl (IoError e), w') \<longrightarrow> content w p = []) \<and>
     (\<forall>p i n w. content (snd (x_read ext p i n w)) = content w) \<and>
     (\<forall>p i n w b w'. x_read ext p i n w = (Inr b, w') \<longrightarrow>
        unat i + unat n \<le> length (content w p) \<and> b = take (unat n) (drop (unat i) (content w p))) \<and>
     (\<forall>w. content (snd (x_random ext w)) = content w)"

definition writing_laws ::
  "('w, 'f, 'st, 'h) cs_ext \<Rightarrow> ('w \<Rightarrow> path \<Rightarrow> bytes) \<Rightarrow> ('st \<Rightarrow> path) \<Rightarrow> bool" where
  "writing_laws ext content dir \<longleftrightarrow>
     (\<forall>p b w w'. x_write ext p 0 b w = (Inr (), w') \<longrightarrow>
        content w' = (content w)(p := b @ drop (length b) (content w p))) \<and>
     (\<forall>p w. content (snd (x_storage_disk ext p w)) = content w) \<and>
     (\<forall>p w st w'. x_storage_disk ext p w = (Inr st, w') \<longrightarrow> dir st = p) \<and>
     (\<forall>pk st sk w w' f q. x_feed_build ext pk st sk w = (Inr f, w') \<longrightarrow>
        (\<forall>x \<in> set hypercore_files. q \<noteq> dir st @ [x]) \<longrightarrow> content w' q = content w q) \<and>
     (\<forall>pk st sk w w' f. x_feed_build ext pk st sk w = (Inr f, w') \<longrightarrow> content w' (dir st @ [''key'']) = pk)"

definition disk_laws ::
  "('w, 'f, 'st, 'h) cs_ext \<Rightarrow> ('w \<Rightarrow> path \<Rightarrow> bytes) \<Rightarrow> ('st \<Rightarrow> path) \<Rightarrow> bool" where
  "disk_laws ext content dir \<longleftrightarrow> reading_laws ext content \<and> writing_laws ext content dir"

text \<open>
  Public keys have different discovery keys, as one assumes of the hash on 32 bytes, and hexadecimal
  loses nothing.
\<close>

definition naming_laws :: "('w, 'f, 'st, 'h) cs_ext \<Rightarrow> bool" where
  "naming_laws ext \<longleftrightarrow> inj_on (x_discovery_key ext) {k. length k = 32} \<and> inj (x_hex_encode ext)"

abbreviation name_file :: "('w, 'f, 'st, 'h) cs_ext \<Rightarrow> inner_corestore \<Rightarrow> bytes \<Rightarrow> path" where
  "name_file ext ic d \<equiv> InnerCorestore_feed_path ext ic d @ [''name'']"

abbreviation key_file :: "('w, 'f, 'st, 'h) cs_ext \<Rightarrow> inner_corestore \<Rightarrow> bytes \<Rightarrow> path" where
  "key_file ext ic d \<equiv> InnerCorestore_feed_path ext ic d @ [''key'']"

text \<open>
  Every name on disk stands in the directory of the feed whose key it derives, and every key on disk in
  the directory of the feed it belongs to.
\<close>

definition disk_ok ::
  "('w, 'f, 'st, 'h) cs_ext \<Rightarrow> ('w \<Rightarrow> path \<Rightarrow> bytes) \<Rightarrow> inner_corestore \<Rightarrow> 'w \<Rightarrow> bool" where
  "disk_ok ext content ic w \<longleftrightarrow>
     (\<forall>d pk sk. content w (name_file ext ic d) \<noteq> [] \<longrightarrow>
        name_key_pair ext ic (content w (name_file ext ic d)) = Inr (pk, sk) \<longrightarrow> x_discovery_key ext pk = d) \<and>
     (\<forall>d. content w (key_file ext ic d) \<noteq> [] \<longrightarrow>
        length (content w (key_file ext ic d)) = 32 \<and> x_discovery_key ext (content w (key_file ext ic d)) = d)"

subsection \<open>Paths\<close>

lemma feed_path_inj:
  "naming_laws ext \<Longrightarrow> InnerCorestore_feed_path ext ic d = InnerCorestore_feed_path ext ic d' \<longleftrightarrow> d = d'"
  by (auto simp: InnerCorestore_feed_path_def Let_def naming_laws_def dest: injD)

lemma feed_path_feeds [simp]:
  "InnerCorestore_feed_path ext (ic\<lparr>ic_feeds := m\<rparr>) d = InnerCorestore_feed_path ext ic d"
  by (simp add: InnerCorestore_feed_path_def)

lemma disk_ok_feeds [simp]: "disk_ok ext content (ic\<lparr>ic_feeds := m\<rparr>) w = disk_ok ext content ic w"
  by (simp add: disk_ok_def)

lemma name_not_hypercore: "x \<in> set hypercore_files \<Longrightarrow> p @ [''name''] \<noteq> q @ [x]"
  by (auto simp: hypercore_files_def)

lemma key_file_other_dir: "p \<noteq> q \<Longrightarrow> p @ [''key''] \<noteq> q @ [x]"
  by simp

subsection \<open>What the file operations of the corestore do\<close>

lemma x_read_content:
  assumes "reading_laws ext content" and "x_read ext p i n w = (r, w')"
  shows "content w' = content w"
proof -
  have "content (snd (x_read ext p i n w)) = content w"
    using assms(1) by (simp add: reading_laws_def)
  then show ?thesis by (simp add: assms(2))
qed

lemma x_open_content: "reading_laws ext content \<Longrightarrow> x_open ext p w = (r, w') \<Longrightarrow> content w' = content w"
  by (metis reading_laws_def snd_conv)

lemma x_random_content: "reading_laws ext content \<Longrightarrow> x_random ext w = (r, w') \<Longrightarrow> content w' = content w"
  by (metis reading_laws_def snd_conv)

lemma x_write_content:
  "disk_laws ext content dir \<Longrightarrow> x_write ext p 0 b w = (Inr (), w') \<Longrightarrow>
   content w' = (content w)(p := b @ drop (length b) (content w p))"
  by (simp add: disk_laws_def writing_laws_def)

lemma feed_storage_content:
  assumes "reading_laws ext content" and "InnerCorestore_feed_storage ext d x s = (r, s')"
  shows "content (cs_world s') = content (cs_world s)"
  using assms
  by (auto simp: InnerCorestore_feed_storage_def random_access_disk_def rust_simps in_world_def reading_laws_def
      split: prod.splits sum.splits) (metis snd_conv)+

lemma len_or_zero_ok:
  assumes laws: "reading_laws ext content" and run: "len_or_zero ext p s = (Inr n, s')"
  shows "content (cs_world s') = content (cs_world s) \<and> unat n = length (content (cs_world s) p)"
proof -
  have keep: "content w' = content w" if "x_len ext p w = (r, w')" for w r w'
    using laws that by (metis reading_laws_def snd_conv)
  from run obtain l where l: "rust_try (in_world (x_len ext p)) s = (Inr l, s')"
    and n: "n = (case l of Some n \<Rightarrow> n | None \<Rightarrow> 0)"
    by (auto simp: len_or_zero_def rust_return_apply elim!: rust_bind_InrE)
  show ?thesis
  proof (cases l)
    case None
    with l obtain e where "x_len ext p (cs_world s) = (Inl (IoError e), cs_world s')"
      by (auto simp: rust_try_Inr in_world_Inr)
    moreover from this laws have "content (cs_world s) p = []"
      unfolding reading_laws_def by blast
    ultimately show ?thesis using n None by (simp add: keep)
  next
    case (Some m)
    with l have "x_len ext p (cs_world s) = (Inr m, cs_world s')"
      by (auto simp: rust_try_Inr in_world_Inr)
    moreover from this laws have "unat m = length (content (cs_world s) p)"
      unfolding reading_laws_def by blast
    ultimately show ?thesis using n Some by (simp add: keep)
  qed
qed

lemma read_name_ok:
  assumes laws: "reading_laws ext content" and run: "InnerCorestore_read_name ext d s = (Inr x, s')"
  shows "content (cs_world s') = content (cs_world s) \<and>
    x = (if content (cs_world s) (name_file ext (cs_inner s) d) = [] then None
         else Some (content (cs_world s) (name_file ext (cs_inner s) d)))"
proof -
  let ?p = "name_file ext (cs_inner s) d"
  from run obtain p s1 n s2 where p: "InnerCorestore_feed_storage ext d ''name'' s = (Inr p, s1)"
    and n: "len_or_zero ext p s1 = (Inr n, s2)"
    and rest: "(if n > 0 then rust_bind (rust_unwrap (in_world (x_read ext p 0 n))) (\<lambda>name. rust_return (Some name))
        else rust_return None) s2 = (Inr x, s')"
    unfolding InnerCorestore_read_name_def InnerCorestore_name_storage_def by (elim rust_bind_InrE)
  have c2: "content (cs_world s2) = content (cs_world s)" and len: "unat n = length (content (cs_world s) ?p)"
    using len_or_zero_ok [OF laws n] feed_storage_content [OF laws p] feed_storage_ok [OF p] by simp_all
  have keep: "content w' = content w \<and> b = take (unat n) (content w p)"
    if "x_read ext p 0 n w = (Inr b, w')" for p w b w'
    using laws that unfolding reading_laws_def by (metis drop0 snd_conv unat_0)
  have "n > 0 \<longleftrightarrow> content (cs_world s) ?p \<noteq> []"
    using len by (rule u64_pos_length)
  then show ?thesis
    using rest c2 len feed_storage_ok [OF p]
    by (auto simp: rust_unwrap_Inr in_world_Inr rust_return_apply elim!: rust_bind_InrE split: if_splits dest!: keep)
qed

lemma write_name_ok:
  assumes laws: "disk_laws ext content dir" and run: "InnerCorestore_write_name_if_empty ext d n s = (Inr b, s')"
  shows "content (cs_world s') =
    (if content (cs_world s) (name_file ext (cs_inner s) d) = []
     then (content (cs_world s))(name_file ext (cs_inner s) d := n) else content (cs_world s))"
proof -
  let ?p = "name_file ext (cs_inner s) d"
  have reading: "reading_laws ext content" using laws by (simp add: disk_laws_def)
  from run obtain p s1 m s2 where p: "InnerCorestore_feed_storage ext d ''name'' s = (Inr p, s1)"
    and m: "len_or_zero ext p s1 = (Inr m, s2)"
    and rest: "(if m > 0 then rust_return False
        else rust_bind (rust_unwrap (in_world (x_write ext p 0 n))) (\<lambda>_. rust_return True)) s2 = (Inr b, s')"
    unfolding InnerCorestore_write_name_if_empty_def InnerCorestore_name_storage_def by (elim rust_bind_InrE)
  have c2: "content (cs_world s2) = content (cs_world s)" and len: "unat m = length (content (cs_world s) ?p)"
    using len_or_zero_ok [OF reading m] feed_storage_content [OF reading p] feed_storage_ok [OF p] by simp_all
  have "content w' = (content w)(p := n @ drop (length n) (content w p))" if "x_write ext p 0 n w = (Inr (), w')" for w w'
    using laws that by (simp add: disk_laws_def writing_laws_def)
  moreover have "m > 0 \<longleftrightarrow> content (cs_world s) ?p \<noteq> []"
    using len by (rule u64_pos_length)
  ultimately show ?thesis
    using rest c2 feed_storage_ok [OF p]
    by (auto simp: rust_unwrap_Inr in_world_Inr rust_return_apply elim!: rust_bind_InrE split: if_splits)
qed

subsection \<open>Opening a feed and the files\<close>

lemma feed_keys_content:
  assumes laws: "reading_laws ext content"
    and run: "InnerCorestore_feed_keys ext key name s = (Inr (pk, sk, gn), s')"
  shows "content (cs_world s') = content (cs_world s)"
proof -
  have random: "content (cs_world s') = content (cs_world s)"
    if "InnerCorestore_generate_key_pair ext nm s = (Inr k, s')" for nm k s s'
    using that laws
    by (auto simp: InnerCorestore_generate_key_pair_def generate_key_def rust_simps in_world_def reading_laws_def
        split: option.splits prod.splits sum.splits) (metis snd_conv)+
  from run obtain nm s1 where s1: "(case (key, name) of (_, Some n) \<Rightarrow> rust_return (Some n)
        | (None, None) \<Rightarrow> rust_return None
        | (Some k, None) \<Rightarrow> InnerCorestore_read_name ext (x_discovery_key ext k)) s = (Inr nm, s1)"
    and rest: "(case (key, nm) of (_, Some n) \<Rightarrow> InnerCorestore_generate_key_pair ext (Some n)
      | (None, None) \<Rightarrow> InnerCorestore_generate_key_pair ext None
      | (Some k, None) \<Rightarrow> rust_bind (rust_lift (pubkey_from_bytes ext k)) (\<lambda>public_key.
          rust_return (public_key, None, None))) s1 = (Inr (pk, sk, gn), s')"
    unfolding InnerCorestore_feed_keys_def by (rule rust_bind_InrE)
  have "content (cs_world s1) = content (cs_world s)"
    using s1 by (auto simp: rust_simps split: option.splits dest: read_name_ok [OF laws])
  moreover have "content (cs_world s') = content (cs_world s1)"
    using rest by (auto simp: rust_simps split: option.splits sum.splits dest: random)
  ultimately show ?thesis by simp
qed

text \<open>Opened by key, a feed gets the key pair of the name on disk if there is one, else the key alone.\<close>

lemma feed_keys_by_key:
  assumes laws: "reading_laws ext content" and pub: "key_laws ext"
    and run: "InnerCorestore_feed_keys ext (Some k) None s = (Inr (pk, sk, gn), s')"
  shows "if content (cs_world s) (name_file ext (cs_inner s) (x_discovery_key ext k)) = []
    then gn = None \<and> pk = k \<and> sk = None
    else gn = Some (content (cs_world s) (name_file ext (cs_inner s) (x_discovery_key ext k))) \<and>
      (\<exists>sk'. name_key_pair ext (cs_inner s) (the gn) = Inr (pk, sk'))"
proof -
  let ?n = "content (cs_world s) (name_file ext (cs_inner s) (x_discovery_key ext k))"
  from run obtain nm s1 where s1: "InnerCorestore_read_name ext (x_discovery_key ext k) s = (Inr nm, s1)"
    and rest: "(case (Some k, nm) of (_, Some n) \<Rightarrow> InnerCorestore_generate_key_pair ext (Some n)
      | (None, None) \<Rightarrow> InnerCorestore_generate_key_pair ext None
      | (Some k, None) \<Rightarrow> rust_bind (rust_lift (pubkey_from_bytes ext k)) (\<lambda>public_key.
          rust_return (public_key, None, None))) s1 = (Inr (pk, sk, gn), s')"
    unfolding InnerCorestore_feed_keys_def by (auto elim: rust_bind_InrE)
  have nm: "nm = (if ?n = [] then None else Some ?n)"
    using read_name_ok [OF laws s1] by simp
  have "same_mem s s1" using s1 by (rule world_onlyD [rotated]) (intro world_only_intros)
  then have ic: "cs_inner s1 = cs_inner s" by (simp add: same_memD)
  show ?thesis
  proof (cases "?n = []")
    case True
    with rest nm pub show ?thesis
      by (auto simp: rust_simps pubkey_from_bytes_def key_laws_def split: sum.splits)
  next
    case False
    with rest nm have "InnerCorestore_generate_key_pair ext (Some ?n) s1 = (Inr (pk, sk, gn), s')" by simp
    then show ?thesis
      by (rule generate_key_pair_ok) (use False ic in auto)
  qed
qed

lemma load_feed_content:
  assumes laws: "disk_laws ext content dir"
    and run: "InnerCorestore_load_feed ext (pk, sk, gn) s = (Inr q, s')"
  obtains c where "c = (case gn of None \<Rightarrow> content (cs_world s)
      | Some n \<Rightarrow> (if content (cs_world s) (name_file ext (cs_inner s) (x_discovery_key ext pk)) = []
          then (content (cs_world s))(name_file ext (cs_inner s) (x_discovery_key ext pk) := n)
          else content (cs_world s)))"
    "content (cs_world s') (key_file ext (cs_inner s) (x_discovery_key ext pk)) = pk"
    "\<And>p. \<forall>x \<in> set hypercore_files. p \<noteq> InnerCorestore_feed_path ext (cs_inner s) (x_discovery_key ext pk) @ [x] \<Longrightarrow>
       content (cs_world s') p = c p"
proof -
  let ?d = "x_discovery_key ext pk"
  let ?dir = "InnerCorestore_feed_path ext (cs_inner s) ?d"
  from run obtain u s1 st s2 f s3 where
    u: "(case gn of Some name \<Rightarrow> rust_bind (InnerCorestore_write_name_if_empty ext ?d name) (\<lambda>_. rust_return ())
        | None \<Rightarrow> rust_return ()) s = (Inr u, s1)"
    and st: "in_world (x_storage_disk ext (InnerCorestore_feed_path ext (cs_inner s1) ?d)) s1 = (Inr st, s2)"
    and f: "in_world (x_feed_build ext pk st sk) s2 = (Inr f, s3)"
    and q: "InnerCorestore_file_feed ext gn f s3 = (Inr q, s')"
    unfolding InnerCorestore_load_feed_def Let_def prod.case by (auto simp: rust_get_apply elim!: rust_bind_InrE)
  have "same_mem s s1" using u by (rule world_onlyD [rotated]) (intro world_only_intros)
  then have ic: "cs_inner s1 = cs_inner s" by (simp add: same_memD)
  have w': "cs_world s' = cs_world s3"
    using q by (cases rule: file_feed_cases) simp_all
  have c1: "content (cs_world s1) = (case gn of None \<Rightarrow> content (cs_world s)
      | Some n \<Rightarrow> (if content (cs_world s) (name_file ext (cs_inner s) ?d) = []
          then (content (cs_world s))(name_file ext (cs_inner s) ?d := n) else content (cs_world s)))"
    using u write_name_ok [OF laws] by (auto simp: rust_return_apply elim!: rust_bind_InrE split: option.splits)
  have c2: "content (cs_world s2) = content (cs_world s1)" and dir: "dir st = ?dir"
    using st ic laws by (auto simp: in_world_Inr disk_laws_def writing_laws_def) (metis snd_conv, blast)
  from f have b: "x_feed_build ext pk st sk (cs_world s2) = (Inr f, cs_world s3)"
    by (simp add: in_world_Inr)
  show ?thesis
  proof (rule that [OF c1])
    show "content (cs_world s') (key_file ext (cs_inner s) ?d) = pk"
      using b laws w' dir unfolding disk_laws_def writing_laws_def by metis
    show "content (cs_world s') p = content (cs_world s1) p"
      if "\<forall>x \<in> set hypercore_files. p \<noteq> ?dir @ [x]" for p
      using b laws w' dir c2 that unfolding disk_laws_def writing_laws_def by metis
  qed
qed

lemma open_feed_new_run:
  "Option.bind key (FeedMap_get_key (cs_feeds s)) = None \<Longrightarrow> Option.bind name (FeedMap_get_name (cs_feeds s)) = None \<Longrightarrow>
   InnerCorestore_open_feed ext key name s =
     rust_bind (InnerCorestore_feed_keys ext key name) (InnerCorestore_load_feed ext) s"
  by (simp add: InnerCorestore_open_feed_def rust_get_bind_apply)

lemma load_feed_disk_ok:
  assumes laws: "disk_laws ext content dir" and naming: "naming_laws ext"
    and ok: "disk_ok ext content (cs_inner s) (cs_world s)"
    and name: "\<And>n. gn = Some n \<Longrightarrow> \<exists>sk. name_key_pair ext (cs_inner s) n = Inr (pk, sk)"
    and len: "length pk = 32"
    and run: "InnerCorestore_load_feed ext (pk, sk, gn) s = (Inr q, s')"
  shows "disk_ok ext content (cs_inner s) (cs_world s')"
proof -
  let ?d = "x_discovery_key ext pk"
  let ?C = "content (cs_world s)" and ?C' = "content (cs_world s')"
  from load_feed_content [OF laws run] obtain c where
    c: "c = (case gn of None \<Rightarrow> ?C
      | Some n \<Rightarrow> (if ?C (name_file ext (cs_inner s) ?d) = [] then ?C(name_file ext (cs_inner s) ?d := n) else ?C))"
    and key: "?C' (key_file ext (cs_inner s) ?d) = pk"
    and rest: "\<And>p. \<forall>x \<in> set hypercore_files. p \<noteq> InnerCorestore_feed_path ext (cs_inner s) ?d @ [x] \<Longrightarrow> ?C' p = c p"
    by blast
  have names: "?C' (name_file ext (cs_inner s) d) = c (name_file ext (cs_inner s) d)" for d
    by (rule rest) (auto simp: hypercore_files_def)
  have keys: "?C' (key_file ext (cs_inner s) d) = ?C (key_file ext (cs_inner s) d)" if "d \<noteq> ?d" for d
  proof -
    have "?C' (key_file ext (cs_inner s) d) = c (key_file ext (cs_inner s) d)"
      by (rule rest) (use that in \<open>auto simp: feed_path_inj [OF naming]\<close>)
    then show ?thesis by (auto simp: c split: option.splits)
  qed
  have "x_discovery_key ext pk' = d"
    if "?C' (name_file ext (cs_inner s) d) \<noteq> []"
      and "name_key_pair ext (cs_inner s) (?C' (name_file ext (cs_inner s) d)) = Inr (pk', sk')" for d pk' sk'
    using that ok name
    by (auto simp: names c disk_ok_def feed_path_inj [OF naming] split: option.splits if_splits)
  moreover have "length (?C' (key_file ext (cs_inner s) d)) = 32 \<and> x_discovery_key ext (?C' (key_file ext (cs_inner s) d)) = d"
    if "?C' (key_file ext (cs_inner s) d) \<noteq> []" for d
    using that ok key len keys [of d] by (cases "d = ?d") (auto simp: disk_ok_def)
  ultimately show ?thesis by (auto simp: disk_ok_def)
qed

lemma load_feed_inner:
  assumes "InnerCorestore_load_feed ext (pk, sk, gn) s = (r, s')"
  obtains m where "cs_inner s' = (cs_inner s)\<lparr>ic_feeds := m\<rparr>"
  using assms
proof (cases rule: load_feed_cases)
  case (failed e)
  then show ?thesis using that [of "cs_feeds s"] by (simp add: same_memD)
next
  case (built s1 f st w)
  from built(3) obtain m where "cs_inner s' = (cs_inner s1)\<lparr>ic_feeds := m\<rparr>"
    by (cases rule: file_feed_cases) (auto simp: filed_def)
  then show ?thesis using that same_memD [OF built(1)] by simp
qed

lemma open_feed_disk_ok:
  assumes laws: "disk_laws ext content dir" and naming: "naming_laws ext" and pub: "key_laws ext"
    and ok: "disk_ok ext content (cs_inner s) (cs_world s)"
    and run: "InnerCorestore_open_feed ext key name s = (Inr q, s')"
  shows "disk_ok ext content (cs_inner s') (cs_world s')"
proof (cases "Option.bind key (FeedMap_get_key (cs_feeds s)) = None \<and> Option.bind name (FeedMap_get_name (cs_feeds s)) = None")
  case True
  with run obtain pk sk gn s0 where keys: "InnerCorestore_feed_keys ext key name s = (Inr (pk, sk, gn), s0)"
    and load: "InnerCorestore_load_feed ext (pk, sk, gn) s0 = (Inr q, s')"
    by (auto simp: open_feed_new_run elim!: rust_bind_InrE)
  have ic: "cs_inner s0 = cs_inner s"
    using same_memD [OF feed_keys_ok(2) [OF keys]] by simp
  have content: "content (cs_world s0) = content (cs_world s)"
    using feed_keys_content [OF _ keys] laws by (simp add: disk_laws_def)
  have "disk_ok ext content (cs_inner s0) (cs_world s0)"
    using ok by (simp add: disk_ok_def content ic)
  then have "disk_ok ext content (cs_inner s0) (cs_world s')"
    using feed_keys_ok(1) [OF keys]
    by (intro load_feed_disk_ok [OF laws naming _ _ _ load]) (auto simp: ic dest: keys_ok_name keys_ok_length [OF pub])
  moreover obtain m where "cs_inner s' = (cs_inner s0)\<lparr>ic_feeds := m\<rparr>"
    using load by (rule load_feed_inner)
  ultimately show ?thesis by simp
next
  case False
  with run have "s' = s"
    by (auto simp: open_feed_loaded) (metis open_feed_loaded option.exhaust prod.inject)
  with ok show ?thesis by simp
qed

end
