(* ===== verification/Sample_World.thy ===== *)
theory Sample_World
  imports Core_Store_Disk
begin

section \<open>A concrete world to run the corestore in\<close>

text \<open>
  The theorems about the corestore hold for any implementation of the code outside this repository
  that satisfies the named laws.  This theory gives one such implementation, with files in memory and
  simple stand-ins for the key functions, shows that it satisfies every law, and runs the corestore in
  it, so that the theorems can be applied to concrete inputs.
\<close>

record sample_feed =
  sf_key :: bytes
  sf_secret :: "bytes option"
  sf_blocks :: "bytes option list"

type_synonym sample_files = "path \<Rightarrow> bytes"

definition sample_ext :: "(sample_files, sample_feed, path, bytes) cs_ext" where
  "sample_ext =
     \<lparr>x_open = (\<lambda>p w. (Inr (), w)),
      x_read = (\<lambda>p i n w.
        if unat i + unat n \<le> length (w p) then (Inr (take (unat n) (drop (unat i) (w p))), w)
        else (Inl (IoError ''out of bounds''), w)),
      x_write = (\<lambda>p i b w. (Inr (), w(p := take (unat i) (w p) @ b @ drop (unat i + length b) (w p)))),
      x_len = (\<lambda>p w. if length (w p) < 2 ^ 64 then (Inr (of_nat (length (w p))), w) else (Inl (Panic ''too large''), w)),
      x_random = (\<lambda>w. (Inr (replicate 32 7), w)),
      x_storage_disk = (\<lambda>p w. (Inr p, w)),
      x_feed_build = (\<lambda>pk st sk w. (Inr \<lparr>sf_key = pk, sf_secret = sk, sf_blocks = []\<rparr>, w(st @ [''key''] := pk))),
      x_feed_public_key = sf_key,
      x_public_from_bytes = (\<lambda>b. if length b = 32 then Inr b else Inl (IoError ''bad key'')),
      x_secret_from_bytes = Inr,
      x_public_of_secret = (\<lambda>b. take 32 (b @ replicate 32 0)),
      x_blake2b_with_key = (\<lambda>n k. k),
      x_blake2b_update = (\<lambda>h b. b @ h),
      x_blake2b_finalize = (\<lambda>h. take 32 (h @ replicate 32 0)),
      x_discovery_key = rev,
      x_hex_encode = map (\<lambda>b. char_of (unat b)),
      x_receiver_alive = (\<lambda>_. True)\<rparr>"

definition sample_store :: "(sample_files, sample_feed) cs_state" where
  "sample_store =
     \<lparr>cs_inner = \<lparr>ic_master_key = replicate 32 7, ic_feeds = FeedMap_new, ic_name = ''default'',
        ic_storage_path = [''store''], ic_subscribers = [0]\<rparr>,
      cs_world = (\<lambda>_. []), cs_heap = [], cs_sent = []\<rparr>"

text \<open>The same store after a feed has been opened in it by an earlier run.\<close>

definition sample_on_disk :: "(sample_files, sample_feed) cs_state" where
  "sample_on_disk = sample_store\<lparr>cs_world :=
     (\<lambda>_. [])(key_file sample_ext (cs_inner sample_store) (replicate 32 5) := replicate 32 5)\<rparr>"

subsection \<open>It satisfies the laws\<close>

lemma sample_feed_build_law: "feed_build_law sample_ext"
  by (simp add: feed_build_law_def sample_ext_def)

lemma sample_key_laws: "key_laws sample_ext"
  by (auto simp: key_laws_def sample_ext_def min_def)

lemma sample_naming_laws: "naming_laws sample_ext"
proof -
  have "inj (\<lambda>b :: u8. char_of (unat b) :: char)"
  proof (rule injI)
    fix a b :: u8
    assume "char_of (unat a) = (char_of (unat b) :: char)"
    then have "unat a mod 256 = unat b mod 256"
      by (metis of_char_of)
    moreover have "unat a < 256" "unat b < 256"
      using unsigned_less [of a] unsigned_less [of b] by simp_all
    ultimately have "unat a = unat b"
      by simp
    then show "a = b"
      by (rule unsigned_word_eqI)
  qed
  then show ?thesis
    by (simp add: naming_laws_def sample_ext_def inj_mapI inj_on_def)
qed

lemma sample_disk_laws: "disk_laws sample_ext (\<lambda>w. w) (\<lambda>st. st)"
proof -
  have "reading_laws sample_ext (\<lambda>w. w)"
    by (auto simp: reading_laws_def sample_ext_def unat_of_nat)
  moreover have "writing_laws sample_ext (\<lambda>w. w) (\<lambda>st. st)"
    by (auto simp: writing_laws_def sample_ext_def hypercore_files_def)
  ultimately show ?thesis by (simp add: disk_laws_def)
qed

lemma sample_cs_inv: "cs_inv sample_ext sample_store"
  by (simp add: cs_inv_def names_sound_def bus_ok_def sample_store_def FeedMap_wf_new FeedMap_sound_new)
    (simp add: FeedMap_get_name_def FeedMap_new_def)

lemma sample_disk_ok: "disk_ok sample_ext (\<lambda>w. w) (cs_inner sample_store) (cs_world sample_store)"
  by (simp add: disk_ok_def sample_store_def)

lemma sample_on_disk_ok: "disk_ok sample_ext (\<lambda>w. w) (cs_inner sample_on_disk) (cs_world sample_on_disk)"
  using feed_path_inj [OF sample_naming_laws, of "cs_inner sample_store"]
  by (auto simp: disk_ok_def sample_on_disk_def) (simp_all add: sample_ext_def)

lemma sample_room: "cs_room sample_store"
  by (simp add: sample_store_def FeedMap_new_def)

lemmas sample_laws = sample_feed_build_law sample_key_laws sample_naming_laws sample_disk_laws
  sample_cs_inv sample_disk_ok sample_room

subsection \<open>Runs\<close>

lemmas corestore_run_simps = Corestore_get_by_name_def InnerCorestore_get_by_name_def Corestore_get_by_key_def
  InnerCorestore_get_by_key_def Corestore_get_by_dkey_def InnerCorestore_get_by_dkey_def
  InnerCorestore_open_feed_def InnerCorestore_feed_keys_def InnerCorestore_read_name_def
  InnerCorestore_write_name_if_empty_def InnerCorestore_name_storage_def InnerCorestore_feed_storage_def
  len_or_zero_def random_access_disk_def InnerCorestore_generate_key_pair_def name_key_pair_def
  InnerCorestore_derive_secret_def derive_key_def key_try_into_def pubkey_from_bytes_def
  InnerCorestore_load_feed_def InnerCorestore_file_feed_def InnerCorestore_feed_path_def in_world_def
  InnerCorestore_emit_def send_event_def FeedMap_insert_simp FeedMap_link_def FeedMap_get_key_def
  FeedMap_get_name_def FeedMap_get_dkey_def

lemma sample_get_by_name:
  "\<exists>s'. Corestore_get_by_name sample_ext [1] sample_store = (Inr 0, s')"
  by (simp add: corestore_run_simps rust_simps sample_ext_def sample_store_def FeedMap_new_def Let_def)

lemma sample_get_by_key:
  "\<exists>s'. Corestore_get_by_key sample_ext (replicate 32 5) sample_store = (Inr 0, s')"
  by (simp add: corestore_run_simps rust_simps sample_ext_def sample_store_def FeedMap_new_def Let_def)

end
