(* ===== verification/Core_Store_Theorems.thy ===== *)
theory Core_Store_Theorems
  imports Sample_World
begin

section \<open>What the corestore guarantees\<close>

text \<open>
  The properties of the public operations: \<open>get_by_name\<close>, \<open>get_by_key\<close> and \<open>get_by_dkey\<close> return the
  right feed and return it again without opening it twice, every opening is announced once, the
  invariant holds in every reachable state, and the master key survives a restart.
\<close>

lemma filed_lookup:
  assumes "cs_inv ext s" and "cs_room s"
  shows "FeedMap_get_key (cs_feeds (filed ext f gn k s)) (x_feed_public_key ext f) = Some (length (cs_heap s))"
    and "gn = Some n \<Longrightarrow> FeedMap_get_name (cs_feeds (filed ext f gn k s)) n = Some (length (cs_heap s))"
    and "gn \<noteq> Some n \<Longrightarrow> FeedMap_get_name (cs_feeds (filed ext f gn k s)) n = FeedMap_get_name (cs_feeds s) n"
  using assms by (simp_all add: cs_inv_def FeedMap_link_lookup)

lemma name_key_length: "name_key_pair ext ic n = Inr (pk, sk) \<Longrightarrow> key_laws ext \<Longrightarrow> length pk = 32"
  by (auto simp: name_key_pair_def key_laws_def split: sum.splits)

text \<open>The key pair found for a feed opened by key is that key's.\<close>

lemma feed_keys_requested:
  assumes disk: "disk_laws ext content dir" and keys: "key_laws ext" and naming: "naming_laws ext"
    and ok: "disk_ok ext content (cs_inner s) (cs_world s)" and k: "length k = 32"
    and run: "InnerCorestore_feed_keys ext (Some k) None s = (Inr (pk, sk, gn), s')"
  shows "pk = k"
proof -
  let ?n = "content (cs_world s) (name_file ext (cs_inner s) (x_discovery_key ext k))"
  have reading: "reading_laws ext content" using disk by (simp add: disk_laws_def)
  note found = feed_keys_by_key [OF reading keys run]
  show ?thesis
  proof (cases "?n = []")
    case True
    with found show ?thesis by simp
  next
    case False
    with found obtain sk' where pair: "name_key_pair ext (cs_inner s) ?n = Inr (pk, sk')" by auto
    with ok False have "x_discovery_key ext pk = x_discovery_key ext k" by (simp add: disk_ok_def)
    moreover have "length pk = 32"
      using pair keys by (rule name_key_length)
    ultimately show ?thesis using naming k by (auto simp: naming_laws_def dest: inj_onD)
  qed
qed

subsection \<open>Opening by name\<close>

lemma get_by_name_found:
  assumes law: "feed_build_law ext" and inv: "cs_inv ext s" and room: "cs_room s"
    and run: "Corestore_get_by_name ext n s = (Inr q, s')"
  shows "FeedMap_get_name (cs_feeds s') n = Some q"
    and "cs_inv ext s'"
    and "name_key_pair ext (cs_inner s') n = name_key_pair ext (cs_inner s) n"
proof -
  have open_run: "InnerCorestore_open_feed ext None (Some n) s = (Inr q, s')"
    using run by (simp add: Corestore_get_by_name_def InnerCorestore_get_by_name_def)
  show "cs_inv ext s'"
    using law inv room open_run by (rule open_feed_inv)
  have "FeedMap_get_name (cs_feeds s') n = Some q \<and> name_key_pair ext (cs_inner s') n = name_key_pair ext (cs_inner s) n"
    using law inv room open_run
  proof (cases rule: open_feed_returns)
    case old
    then show ?thesis by simp
  next
    case (new pk sk gn s0 s1 f)
    have "gn = Some n"
      using feed_keys_ok(1) [OF new(3)] by (auto simp: keys_ok_def split: option.splits)
    moreover have "cs_inv ext s1" "cs_room s1"
      using inv room new(4) by (auto simp: cs_inv_same_mem same_memD)
    ultimately show ?thesis
      using new filed_lookup(2) [of ext s1 gn n f] same_memD [OF new(4)] by simp
  qed
  then show "FeedMap_get_name (cs_feeds s') n = Some q"
    and "name_key_pair ext (cs_inner s') n = name_key_pair ext (cs_inner s) n" by simp_all
qed

lemma get_by_name_feed:
  assumes "feed_build_law ext" and "cs_inv ext s" and "cs_room s"
    and "Corestore_get_by_name ext n s = (Inr q, s')"
  shows "\<exists>f sk. deref (cs_heap s') q = Some f \<and> name_key_pair ext (cs_inner s) n = Inr (x_feed_public_key ext f, sk)"
  using get_name_feed [OF get_by_name_found(2,1) [OF assms]] get_by_name_found(3) [OF assms] by simp



subsection \<open>Opening by public key\<close>

lemma get_by_key_found:
  assumes law: "feed_build_law ext" and keys: "key_laws ext" and naming: "naming_laws ext"
    and disk: "disk_laws ext content dir"
    and inv: "cs_inv ext s" and ok: "disk_ok ext content (cs_inner s) (cs_world s)" and room: "cs_room s"
    and k: "length k = 32" and run: "InnerCorestore_get_by_key ext k s = (Inr q, s')"
  shows "FeedMap_get_key (cs_feeds s') k = Some q"
proof -
  have open_run: "InnerCorestore_open_feed ext (Some k) None s = (Inr q, s')"
    using run by (simp add: InnerCorestore_get_by_key_def)
  from law inv room open_run show ?thesis
  proof (cases rule: open_feed_returns)
    case old
    then show ?thesis by simp
  next
    case (new pk sk gn s0 s1 f)
    have "pk = k"
      using disk keys naming ok k new(3) by (rule feed_keys_requested)
    moreover have "cs_inv ext s1" "cs_room s1"
      using inv room new(4) by (auto simp: cs_inv_same_mem same_memD)
    ultimately show ?thesis
      using new filed_lookup(1) [of ext s1 f gn] same_memD [OF new(4)] by simp
  qed
qed

lemma get_by_key_inv:
  "feed_build_law ext \<Longrightarrow> cs_inv ext s \<Longrightarrow> cs_room s \<Longrightarrow> InnerCorestore_get_by_key ext k s = (r, s') \<Longrightarrow> cs_inv ext s'"
  unfolding InnerCorestore_get_by_key_def by (rule open_feed_inv)

lemma get_by_key_feed:
  assumes "feed_build_law ext" and "key_laws ext" and "naming_laws ext" and "disk_laws ext content dir"
    and "cs_inv ext s" and "disk_ok ext content (cs_inner s) (cs_world s)" and "cs_room s"
    and "length k = 32" and "InnerCorestore_get_by_key ext k s = (Inr q, s')"
  shows "\<exists>f. deref (cs_heap s') q = Some f \<and> x_feed_public_key ext f = k"
  using get_by_key_inv [OF assms(1,5,7,9)] get_by_key_found [OF assms] by (rule get_key_feed)

text \<open>
  C8. When the names and keys on disk are in the right directories, a successful \<open>get_by_key\<close> returns a
  feed with exactly the requested public key, even when the key pair is derived from a name found on
  disk; it returns the same feed again at no cost, and it leaves names and keys on disk in the right
  directories.
\<close>

theorem get_by_key_opens:
  assumes "feed_build_law ext" and "key_laws ext" and "naming_laws ext" and "disk_laws ext content dir"
    and "cs_inv ext s" and "disk_ok ext content (cs_inner s) (cs_world s)" and "cs_room s"
    and "length k = 32" and run: "Corestore_get_by_key ext k s = (Inr q, s')"
  shows "(\<exists>f. deref (cs_heap s') q = Some f \<and> x_feed_public_key ext f = k)
    \<and> Corestore_get_by_key ext k s' = (Inr q, s') \<and> cs_inv ext s'
    \<and> disk_ok ext content (cs_inner s') (cs_world s')"
proof -
  have inner: "InnerCorestore_get_by_key ext k s = (Inr q, s')"
    using run by (simp add: Corestore_get_by_key_def)
  note found = get_by_key_found [OF assms(1-8) inner]
  have "disk_ok ext content (cs_inner s') (cs_world s')"
    using inner open_feed_disk_ok [OF assms(4,3,2,6)] by (simp add: InnerCorestore_get_by_key_def)
  with found get_by_key_feed [OF assms(1-8) inner] get_by_key_inv [OF assms(1,5,7) inner] show ?thesis
    by (simp add: Corestore_get_by_key_def InnerCorestore_get_by_key_def open_feed_loaded)
qed

theorem get_by_key_opens_witness:
  "\<exists>s' f. Corestore_get_by_key sample_ext (replicate 32 5) sample_store = (Inr 0, s') \<and>
     deref (cs_heap s') 0 = Some f \<and> sf_key f = replicate 32 5 \<and>
     Corestore_get_by_key sample_ext (replicate 32 5) s' = (Inr 0, s')"
proof -
  obtain s' where s': "Corestore_get_by_key sample_ext (replicate 32 5) sample_store = (Inr 0, s')"
    using sample_get_by_key by blast
  have "x_feed_public_key sample_ext = sf_key" by (simp add: sample_ext_def)
  moreover have "length (replicate 32 (5 :: u8)) = 32" by simp
  note get_by_key_opens [OF sample_laws this s']
  ultimately show ?thesis using s' by auto
qed

subsection \<open>Opening by discovery key\<close>

lemma on_disk_key:
  assumes disk: "disk_laws ext content dir" and ok: "disk_ok ext content (cs_inner s) (cs_world s)"
    and p: "InnerCorestore_feed_storage ext d ''key'' s = (Inr p, s1)"
    and read: "x_read ext p 0 32 (cs_world s1) = (Inr key, w2)"
  shows "x_discovery_key ext key = d \<and> length key = 32 \<and> content w2 = content (cs_world s)"
proof -
  have reading: "reading_laws ext content" using disk by (simp add: disk_laws_def)
  have c1: "content (cs_world s1) = content (cs_world s)" and p': "p = key_file ext (cs_inner s) d"
    using feed_storage_content [OF reading p] feed_storage_ok [OF p] by simp_all
  have "unat (0 :: u64) + unat (32 :: u64) \<le> length (content (cs_world s1) p) \<and>
      key = take (unat (32 :: u64)) (drop (unat (0 :: u64)) (content (cs_world s1) p))"
    using reading read unfolding reading_laws_def by blast
  then have "32 \<le> length (content (cs_world s1) p) \<and> key = take 32 (content (cs_world s1) p)"
    by simp
  moreover have "content w2 = content (cs_world s1)"
    using reading read by (rule x_read_content)
  moreover have "content (cs_world s) p \<noteq> [] \<Longrightarrow>
      length (content (cs_world s) p) = 32 \<and> x_discovery_key ext (content (cs_world s) p) = d"
    using ok by (simp add: disk_ok_def p')
  ultimately show ?thesis
    using c1 by (cases "content (cs_world s) p = []") auto
qed

text \<open>
  C9. \<open>get_by_dkey\<close> never returns a wrong feed: a feed it returns, loaded or found on disk, has the
  requested discovery key; and when it returns no feed, none is loaded under that discovery key and the
  table of feeds is unchanged.
\<close>

theorem get_by_dkey_opens:
  assumes law: "feed_build_law ext" and keys: "key_laws ext" and naming: "naming_laws ext"
    and disk: "disk_laws ext content dir"
    and inv: "cs_inv ext s" and ok: "disk_ok ext content (cs_inner s) (cs_world s)" and room: "cs_room s"
    and run: "Corestore_get_by_dkey ext d s = (Inr found, s')"
  shows "case found of
      Some q \<Rightarrow> \<exists>f. deref (cs_heap s') q = Some f \<and> x_discovery_key ext (x_feed_public_key ext f) = d
    | None \<Rightarrow> FeedMap_get_dkey (cs_feeds s) d = None \<and> cs_feeds s' = cs_feeds s"
  using run unfolding Corestore_get_by_dkey_def
proof (cases rule: get_by_dkey_cases)
  case (loaded q)
  with get_dkey_feed [OF inv] show ?thesis by simp
next
  case absent
  have "FeedMap_get_dkey (cs_feeds s) d = None"
    using run absent by (auto simp: Corestore_get_by_dkey_def InnerCorestore_get_by_dkey_def rust_simps
        split: option.splits)
  with absent show ?thesis by (simp add: same_memD)
next
  case (on_disk key p s1 s2 r')
  then obtain q where q: "found = Some q" "InnerCorestore_get_by_key ext key s2 = (Inr q, s')"
    by (cases r') auto
  have key: "x_discovery_key ext key = d" "content (cs_world s2) = content (cs_world s)" "length key = 32"
    using on_disk_key [OF disk ok on_disk(1,5)] by simp_all
  have "cs_inv ext s2" "cs_room s2" "disk_ok ext content (cs_inner s2) (cs_world s2)"
    using inv room ok key(2) on_disk(3) by (auto simp: cs_inv_same_mem same_memD disk_ok_def)
  then have "\<exists>f. deref (cs_heap s') q = Some f \<and> x_feed_public_key ext f = key"
    using get_by_key_feed [OF law keys naming disk] key(3) q(2) by blast
  with key(1) q(1) show ?thesis by auto
qed simp

lemma sample_get_by_dkey:
  "\<exists>s'. Corestore_get_by_dkey sample_ext (replicate 32 5) sample_on_disk = (Inr (Some 0), s')"
  by (simp add: corestore_run_simps rust_simps sample_ext_def sample_on_disk_def sample_store_def FeedMap_new_def Let_def)

theorem get_by_dkey_opens_witness:
  "\<exists>s' f. Corestore_get_by_dkey sample_ext (replicate 32 5) sample_on_disk = (Inr (Some 0), s') \<and>
     deref (cs_heap s') 0 = Some f \<and> rev (sf_key f) = replicate 32 5"
proof -
  obtain s' where s': "Corestore_get_by_dkey sample_ext (replicate 32 5) sample_on_disk = (Inr (Some 0), s')"
    using sample_get_by_dkey by blast
  have inv: "cs_inv sample_ext sample_on_disk" and room: "cs_room sample_on_disk"
    using sample_cs_inv sample_room
    by (auto simp: sample_on_disk_def cs_inv_def names_sound_def bus_ok_def)
  note get_by_dkey_opens [OF sample_feed_build_law sample_key_laws sample_naming_laws sample_disk_laws
      inv sample_on_disk_ok room s']
  moreover have "x_feed_public_key sample_ext = sf_key" "x_discovery_key sample_ext = rev" by (simp_all add: sample_ext_def)
  ultimately show ?thesis using s' by auto
qed

subsection \<open>Announcements\<close>

text \<open>
  C5. Whichever way a feed is asked for, a successful \<open>open_feed\<close> either hands back a feed that was
  already in the table and changes nothing, or opens a new one and sends exactly one event for it to
  every subscriber, in the order of subscription.
\<close>

theorem open_feed_announces_once:
  assumes "feed_build_law ext" and "cs_inv ext s" and "cs_room s"
    and "InnerCorestore_open_feed ext key name s = (Inr q, s')"
  shows "(s' = s \<and> q \<in> fset (fmran (fm_feeds (cs_feeds s)))) \<or>
    (q = length (cs_heap s) \<and> length (cs_heap s') = Suc (length (cs_heap s)) \<and>
     cs_sent s' = cs_sent s @ map (\<lambda>c. (c, CorestoreFeed q)) (cs_subs s))"
  using assms
proof (cases rule: open_feed_returns)
  case old
  then have "q \<in> fset (fmran (fm_feeds (cs_feeds s)))"
    by (auto simp: FeedMap_get_key_def FeedMap_get_name_def bind_eq_Some_conv intro: fmranI)
  with old show ?thesis by simp
next
  case (new pk sk gn s0 s1 f)
  then show ?thesis
    using same_memD [OF new(4)] by (simp add: filed_def)
qed

theorem open_feed_announces_once_witness:
  "\<exists>s'. Corestore_get_by_name sample_ext [1] sample_store = (Inr 0, s') \<and> cs_sent s' = [(0, CorestoreFeed 0)]"
proof -
  obtain s' where s': "Corestore_get_by_name sample_ext [1] sample_store = (Inr 0, s')"
    using sample_get_by_name by blast
  have "InnerCorestore_open_feed sample_ext None (Some [1]) sample_store = (Inr 0, s')"
    using s' by (simp add: Corestore_get_by_name_def InnerCorestore_get_by_name_def)
  note open_feed_announces_once [OF sample_feed_build_law sample_cs_inv sample_room this]
  with s' show ?thesis by (auto simp: sample_store_def FeedMap_new_def)
qed


definition sample_opened :: "(sample_files, sample_feed) cs_state" where
  "sample_opened = sample_store\<lparr>cs_inner := (cs_inner sample_store)\<lparr>ic_subscribers := []\<rparr>,
     cs_world := (\<lambda>_. [])([''store'', ''master_key''] := replicate 32 7)\<rparr>"

lemma sample_open:
  "Corestore_open sample_ext [''store''] (\<lambda>_. []) = (Inr sample_opened, cs_world sample_opened)"
  by (simp add: Corestore_open_def InnerCorestore_open_def InnerCorestore_with_storage_path_def random_access_disk_def
      generate_key_def sample_ext_def sample_opened_def sample_store_def rust_simps MASTER_KEY_FILENAME_def)

lemma sample_opened_get_by_name:
  "\<exists>s'. Corestore_get_by_name sample_ext [1] sample_opened = (Inr 0, s') \<and> FeedMap_get_name (cs_feeds s') [1] = Some 0"
  by (simp add: corestore_run_simps rust_simps sample_ext_def sample_opened_def sample_store_def FeedMap_new_def Let_def)


subsection \<open>The master key survives a restart\<close>

text \<open>Reads inside a file succeed, and the operating system returns 32 random bytes.\<close>

definition reads_succeed :: "('w, 'f, 'st, 'h) cs_ext \<Rightarrow> ('w \<Rightarrow> path \<Rightarrow> bytes) \<Rightarrow> bool" where
  "reads_succeed ext content \<longleftrightarrow>
     (\<forall>p i n w. unat i + unat n \<le> length (content w p) \<longrightarrow> (\<exists>b w'. x_read ext p i n w = (Inr b, w'))) \<and>
     (\<forall>w b w'. x_random ext w = (Inr b, w') \<longrightarrow> length b = 32)"

lemma failed_read:
  assumes "reads_succeed ext content" and "x_read ext p 0 n w = (Inl e, w')"
  shows "length (content w p) < unat n"
proof (rule ccontr)
  assume "\<not> length (content w p) < unat n"
  then have "unat (0 :: u64) + unat n \<le> length (content w p)" by simp
  then obtain b w' where "x_read ext p 0 n w = (Inr b, w')"
    using assms(1) unfolding reads_succeed_def by blast
  with assms(2) show False by simp
qed

lemma open_master_key:
  assumes disk: "disk_laws ext content dir" and total: "reads_succeed ext content"
    and run: "InnerCorestore_open ext p w = (Inr ic, w')"
  defines "mp \<equiv> p @ [MASTER_KEY_FILENAME]"
  shows "32 \<le> length (content w' mp) \<and> ic_master_key ic = take 32 (content w' mp) \<and>
    (32 \<le> length (content w mp) \<longrightarrow> content w' = content w)"
proof -
  have reading: "reading_laws ext content" using disk by (simp add: disk_laws_def)
  from run obtain w1 rd w2 where
    w1: "x_open ext mp w = (Inr (), w1)"
    and rd: "rust_try (x_read ext mp 0 32) w1 = (Inr rd, w2)"
    and mk: "(case rd of Some key \<Rightarrow> rust_unwrap (rust_lift (key_try_into key))
        | None \<Rightarrow> rust_bind (generate_key ext) (\<lambda>key.
            rust_bind (rust_unwrap (x_write ext mp 0 (take 32 key))) (\<lambda>_. rust_return key))) w2
       = (Inr (ic_master_key ic), w')"
    unfolding InnerCorestore_open_def InnerCorestore_with_storage_path_def random_access_disk_def mp_def
    by (auto simp: rust_return_apply elim!: rust_bind_InrE)
  have c1: "content w1 = content w"
    using reading w1 by (rule x_open_content)
  show ?thesis
  proof (cases rd)
    case (Some key)
    then have read: "x_read ext mp 0 32 w1 = (Inr key, w2)" using rd by (simp add: rust_try_Inr)
    have "unat (0 :: u64) + unat (32 :: u64) \<le> length (content w1 mp) \<and>
        key = take (unat (32 :: u64)) (drop (unat (0 :: u64)) (content w1 mp))"
      using reading read unfolding reading_laws_def by blast
    moreover have "w' = w2" "ic_master_key ic = key"
      using mk Some by (auto simp: rust_simps key_try_into_def split: if_splits)
    moreover have "content w2 = content w1" using reading read by (rule x_read_content)
    ultimately show ?thesis using c1 by simp
  next
    case None
    then obtain e where read: "x_read ext mp 0 32 w1 = (Inl (IoError e), w2)" using rd by (auto simp: rust_try_Inr)
    then have short: "length (content w1 mp) < 32" using failed_read [OF total read] by simp
    from mk None obtain w3 where rnd: "x_random ext w2 = (Inr (ic_master_key ic), w3)"
      and wr: "x_write ext mp 0 (take 32 (ic_master_key ic)) w3 = (Inr (), w')"
      by (auto simp: generate_key_def rust_unwrap_Inr rust_return_apply elim!: rust_bind_InrE)
    have len: "length (ic_master_key ic) = 32" using total rnd unfolding reads_succeed_def by blast
    have c3: "content w3 = content w1"
      using x_random_content [OF reading rnd] x_read_content [OF reading read] by simp
    show ?thesis using x_write_content [OF disk wr] len short c1 c3 by simp
  qed
qed

text \<open>
  C10. Opening a store again finds the master key it was opened with before, as long as the key file has
  not been changed in between: the second opening writes nothing, and every name has the same key pair
  as before the restart.
\<close>

theorem master_key_survives_restart:
  assumes "disk_laws ext content dir" and "reads_succeed ext content"
    and "InnerCorestore_open ext p w = (Inr ic, w')"
    and "content w2 (p @ [MASTER_KEY_FILENAME]) = content w' (p @ [MASTER_KEY_FILENAME])"
    and "InnerCorestore_open ext p w2 = (Inr ic2, w2')"
  shows "ic_master_key ic2 = ic_master_key ic \<and> content w2' = content w2 \<and>
    (\<forall>name. name_key_pair ext ic2 name = name_key_pair ext ic name)"
  using open_master_key [OF assms(1-3)] open_master_key [OF assms(1,2,5)] assms(4)
  by (simp add: name_key_pair_def InnerCorestore_derive_secret_def)

theorem master_key_survives_restart_witness:
  "\<exists>ic2 w2'. InnerCorestore_open sample_ext [''store''] (cs_world sample_opened) = (Inr ic2, w2') \<and>
     ic_master_key ic2 = replicate 32 7 \<and> w2' = cs_world sample_opened"
proof -
  have first: "InnerCorestore_open sample_ext [''store''] (\<lambda>_. []) = (Inr (cs_inner sample_opened), cs_world sample_opened)"
    using sample_open by (rule Corestore_open_ok) auto
  have "\<exists>ic2 w2'. InnerCorestore_open sample_ext [''store''] (cs_world sample_opened) = (Inr ic2, w2')"
    by (simp add: InnerCorestore_open_def InnerCorestore_with_storage_path_def random_access_disk_def
        key_try_into_def sample_ext_def sample_opened_def rust_simps MASTER_KEY_FILENAME_def)
  then obtain ic2 w2' where second: "InnerCorestore_open sample_ext [''store''] (cs_world sample_opened) = (Inr ic2, w2')"
    by blast
  have "reads_succeed sample_ext (\<lambda>w. w)"
    by (simp add: reads_succeed_def sample_ext_def)
  note master_key_survives_restart [OF sample_disk_laws this first refl second]
  with second show ?thesis by (simp add: sample_opened_def sample_store_def)
qed

subsection \<open>A feed opened twice\<close>

text \<open>
  C40. \<open>get_by_name\<close> looks a name up only by name, so a feed that is already open by key and has no name
  on disk is opened a second time: the two calls return different feeds with the same public key, both
  live and both on the same storage directory.
\<close>

theorem get_by_name_opens_duplicate:
  assumes law: "feed_build_law ext" and keys: "key_laws ext" and naming: "naming_laws ext"
    and disk: "disk_laws ext content dir"
    and inv: "cs_inv ext s" and ok: "disk_ok ext content (cs_inner s) (cs_world s)"
    and room: "cs_room s" and room1: "cs_room s1"
    and fresh: "FeedMap_get_name (cs_feeds s) n = None"
    and nameless: "content (cs_world s) (name_file ext (cs_inner s) (x_discovery_key ext k)) = []"
    and pair: "name_key_pair ext (cs_inner s) n = Inr (k, sk)"
    and by_key: "Corestore_get_by_key ext k s = (Inr q1, s1)"
    and by_name: "Corestore_get_by_name ext n s1 = (Inr q2, s2)"
  shows "q1 \<noteq> q2 \<and> (\<exists>f1 f2. deref (cs_heap s2) q1 = Some f1 \<and> deref (cs_heap s2) q2 = Some f2 \<and>
    x_feed_public_key ext f1 = k \<and> x_feed_public_key ext f2 = k)"
proof -
  have run1: "InnerCorestore_open_feed ext (Some k) None s = (Inr q1, s1)"
    and run2: "InnerCorestore_open_feed ext None (Some n) s1 = (Inr q2, s2)"
    using by_key by_name by (simp_all add: Corestore_get_by_key_def InnerCorestore_get_by_key_def
        Corestore_get_by_name_def InnerCorestore_get_by_name_def)
  have inv1: "cs_inv ext s1" using law inv room run1 by (rule open_feed_inv)
  obtain f1 where f1: "deref (cs_heap s1) q1 = Some f1" "x_feed_public_key ext f1 = k"
    using get_by_key_feed [OF law keys naming disk inv ok room name_key_length [OF pair keys], of q1 s1] by_key
    by (auto simp: Corestore_get_by_key_def)
  have no_name: "FeedMap_get_name (cs_feeds s1) n = None \<and> name_key_pair ext (cs_inner s1) n = Inr (k, sk)"
    using law inv room run1
  proof (cases rule: open_feed_returns)
    case old
    then show ?thesis using fresh pair by simp
  next
    case (new pk sk' gn s0 t f)
    have reading: "reading_laws ext content" using disk by (simp add: disk_laws_def)
    have "gn = None" using feed_keys_by_key [OF reading keys new(3)] nameless by simp
    moreover have "cs_inv ext t" "cs_room t" using inv room new(4) by (auto simp: cs_inv_same_mem same_memD)
    ultimately show ?thesis
      using fresh pair new(5) filed_lookup(3) [of ext t gn n f] same_memD [OF new(4)] by simp
  qed
  from law inv1 room1 run2 show ?thesis
  proof (cases rule: open_feed_returns)
    case old
    with no_name show ?thesis by simp
  next
    case (new pk sk' gn s0 t f2)
    have "pk = k" using feed_keys_ok(1) [OF new(3)] no_name by (auto simp: keys_ok_def split: option.splits)
    with new f1 same_memD [OF new(4)] show ?thesis by (auto simp: deref_eq_Some nth_append)
  qed
qed

text \<open>The public key derived in the sample store from the name \<open>[1]\<close>.\<close>

definition sample_name_key :: bytes where
  "sample_name_key = take 32 ([1] @ NAMESPACE @ replicate 32 7)"

lemma sample_name_key_pair:
  "name_key_pair sample_ext (cs_inner sample_store) [1] = Inr (sample_name_key, sample_name_key)"
  by (simp add: name_key_pair_def InnerCorestore_derive_secret_def derive_key_def key_try_into_def sample_ext_def
      sample_store_def sample_name_key_def NAMESPACE_def)

lemma sample_open_twice:
  "\<exists>s1 s2. Corestore_get_by_key sample_ext sample_name_key sample_store = (Inr 0, s1) \<and> cs_room s1 \<and>
     Corestore_get_by_name sample_ext [1] s1 = (Inr 1, s2)"
  by (simp add: corestore_run_simps rust_simps sample_ext_def sample_store_def sample_name_key_def NAMESPACE_def
      FeedMap_new_def Let_def)

theorem get_by_name_opens_duplicate_witness:
  "\<exists>s1 s2 f1 f2. Corestore_get_by_key sample_ext sample_name_key sample_store = (Inr 0, s1) \<and>
     Corestore_get_by_name sample_ext [1] s1 = (Inr 1, s2) \<and>
     deref (cs_heap s2) 0 = Some f1 \<and> deref (cs_heap s2) 1 = Some f2 \<and> sf_key f1 = sf_key f2"
proof -
  obtain s1 s2 where s1: "Corestore_get_by_key sample_ext sample_name_key sample_store = (Inr 0, s1)"
    and room: "cs_room s1" and s2: "Corestore_get_by_name sample_ext [1] s1 = (Inr 1, s2)"
    using sample_open_twice by blast
  have "FeedMap_get_name (cs_feeds sample_store) [1] = None"
    by (simp add: sample_store_def FeedMap_new_def FeedMap_get_name_def)
  moreover have "cs_world sample_store p = []" for p
    by (simp add: sample_store_def)
  moreover have "x_feed_public_key sample_ext = sf_key" by (simp add: sample_ext_def)
  ultimately show ?thesis
    using s1 s2 get_by_name_opens_duplicate [OF sample_laws room _ _ sample_name_key_pair s1 s2] by auto
qed

end
