(* ===== verification/Feed_Api.thy ===== *)
theory Feed_Api
  imports Core_Store_Props
begin

section \<open>Using an open feed\<close>

text \<open>
  The server, the replicator and the corestore share feeds as \<open>Arc<Mutex<Feed>>\<close>.  \<open>Feed\<close> itself is code
  of the \<open>hypercore\<close> crate: the record \<open>feed_api\<close> holds the operations this repository calls on it, on
  feeds of any type \<open>'f\<close> and a world of any type \<open>'w\<close>, and \<open>with_feed\<close> is a call made while the feed's
  lock is held.  The documented behaviour of the crate that the properties rely on is stated in
  \<open>feed_keys_kept\<close> (a feed keeps its key pair) and \<open>feed_blocks\<close> (a feed is an append-only log of blocks).
\<close>

subsection \<open>The operations of a feed\<close>

text \<open>\<open>hypercore::Event\<close>; the events this repository does not look at are \<open>FeedOther\<close>.\<close>

datatype feed_event = FeedAppend | FeedDownload u64 | FeedOther

text \<open>The proof that comes with a block: \<open>Proof \{ index, nodes, signature \}\<close>.\<close>

record ('nd, 'sig) proof_msg =
  pf_index :: u64
  pf_nodes :: "'nd list"
  pf_signature :: "'sig option"

record ('w, 'f, 'nd, 'sig) feed_api =
  f_secret_key :: "'f \<Rightarrow> bytes option"
  f_len :: "'f \<Rightarrow> u64"
  f_byte_len :: "'f \<Rightarrow> u64"
  f_has :: "'f \<Rightarrow> u64 \<Rightarrow> bool"
  f_subscribe :: "('f \<times> 'w, nat) rust"
  f_get :: "u64 \<Rightarrow> ('f \<times> 'w, bytes option) rust"
  f_append :: "bytes \<Rightarrow> ('f \<times> 'w, unit) rust"
  f_proof :: "u64 \<Rightarrow> bool \<Rightarrow> ('f \<times> 'w, ('nd, 'sig) proof_msg) rust"
  f_put :: "u64 \<Rightarrow> bytes option \<Rightarrow> ('nd, 'sig) proof_msg \<Rightarrow> ('f \<times> 'w, unit) rust"
  f_compress :: "'f \<Rightarrow> u64 \<Rightarrow> u64 \<Rightarrow> bytes result"

text \<open>
  A call on the feed in cell \<open>q\<close> with its lock held.  A handle always points to a cell, so the first
  branch is never taken (\<open>with_feed_run\<close>).
\<close>

definition with_feed :: "ref \<Rightarrow> ('f \<times> 'w, 'a) rust \<Rightarrow> (('w, 'f) cs_state, 'a) rust" where
  "with_feed q m = (\<lambda>s.
     case deref (cs_heap s) q of
       None \<Rightarrow> (Inl (Panic ''dangling handle''), s)
     | Some f \<Rightarrow> (case m (f, cs_world s) of
         (r, f', w') \<Rightarrow> (r, s\<lparr>cs_heap := (cs_heap s)[q := f'], cs_world := w'\<rparr>)))"

text \<open>A look at the feed with its lock held.\<close>

abbreviation peek_feed :: "ref \<Rightarrow> ('f \<Rightarrow> 'a) \<Rightarrow> (('w, 'f) cs_state, 'a) rust" where
  "peek_feed q g \<equiv> with_feed q (rust_get (\<lambda>(f, w). g f))"

subsection \<open>What is relied on\<close>

text \<open>No operation changes the key pair of a feed.\<close>

definition keeps_keys ::
  "('w, 'f, 'st, 'h) cs_ext \<Rightarrow> ('w, 'f, 'nd, 'sig) feed_api \<Rightarrow> ('f \<times> 'w, 'a) rust \<Rightarrow> bool" where
  "keeps_keys ext fa m \<longleftrightarrow>
     (\<forall>f w r f' w'. m (f, w) = (r, f', w') \<longrightarrow>
        x_feed_public_key ext f' = x_feed_public_key ext f \<and> f_secret_key fa f' = f_secret_key fa f)"

definition feed_keys_kept :: "('w, 'f, 'st, 'h) cs_ext \<Rightarrow> ('w, 'f, 'nd, 'sig) feed_api \<Rightarrow> bool" where
  "feed_keys_kept ext fa \<longleftrightarrow>
     keeps_keys ext fa (f_subscribe fa) \<and> (\<forall>i. keeps_keys ext fa (f_get fa i)) \<and>
     (\<forall>b. keeps_keys ext fa (f_append fa b)) \<and> (\<forall>i d. keeps_keys ext fa (f_proof fa i d)) \<and>
     (\<forall>i v p. keeps_keys ext fa (f_put fa i v p))"

text \<open>
  A feed is a log: \<open>block f i\<close> is the block it holds at index \<open>i\<close>.  Reading and subscribing change
  nothing, and a successful append puts one block at the end.
\<close>

definition same_log :: "('w, 'f, 'nd, 'sig) feed_api \<Rightarrow> ('f \<Rightarrow> u64 \<Rightarrow> bytes option) \<Rightarrow> 'f \<Rightarrow> 'f \<Rightarrow> bool" where
  "same_log fa block f f' \<longleftrightarrow> block f' = block f \<and> f_len fa f' = f_len fa f \<and> f_byte_len fa f' = f_byte_len fa f"

definition appended ::
  "('w, 'f, 'nd, 'sig) feed_api \<Rightarrow> ('f \<Rightarrow> u64 \<Rightarrow> bytes option) \<Rightarrow> bytes \<Rightarrow> 'f \<Rightarrow> 'f \<Rightarrow> bool" where
  "appended fa block b f f' \<longleftrightarrow>
     block f' = (block f)(f_len fa f \<mapsto> b) \<and> unat (f_len fa f') = Suc (unat (f_len fa f)) \<and>
     unat (f_byte_len fa f') = unat (f_byte_len fa f) + length b"

definition feed_blocks :: "('w, 'f, 'nd, 'sig) feed_api \<Rightarrow> ('f \<Rightarrow> u64 \<Rightarrow> bytes option) \<Rightarrow> bool" where
  "feed_blocks fa block \<longleftrightarrow>
     (\<forall>i f w r f' w'. f_get fa i (f, w) = (r, f', w') \<longrightarrow>
        same_log fa block f f' \<and> (\<forall>b. r = Inr b \<longrightarrow> b = block f i)) \<and>
     (\<forall>f w r f' w'. f_subscribe fa (f, w) = (r, f', w') \<longrightarrow> same_log fa block f f') \<and>
     (\<forall>b f w f' w'. f_append fa b (f, w) = (Inr (), f', w') \<longrightarrow> appended fa block b f f') \<and>
     (\<forall>b f w e f' w'. f_append fa b (f, w) = (Inl e, f', w') \<longrightarrow> same_log fa block f f')"

lemma feed_get_same: "feed_blocks fa block \<Longrightarrow> f_get fa i (f, w) = (r, f', w') \<Longrightarrow> same_log fa block f f'"
  unfolding feed_blocks_def by (elim conjE) blast

lemma feed_get_answer: "feed_blocks fa block \<Longrightarrow> f_get fa i (f, w) = (r, f', w') \<Longrightarrow> r = Inr b \<Longrightarrow> b = block f i"
  unfolding feed_blocks_def by (elim conjE) blast

lemma feed_append_appended:
  assumes "feed_blocks fa block" "f_append fa b (f, w) = (Inr (), f', w')"
  shows "appended fa block b f f'"
proof -
  have "\<forall>b f w f' w'. f_append fa b (f, w) = (Inr (), f', w') \<longrightarrow> appended fa block b f f'"
    using assms(1) unfolding feed_blocks_def by (elim conjE)
  with assms(2) show ?thesis by blast
qed

lemma appended_last:
  assumes "appended fa block b f f'"
  shows "0 < f_len fa f'" and "f_len fa f' - 1 = f_len fa f" and "block f' (f_len fa f' - 1) = Some b"
proof -
  have len: "unat (f_len fa f') = Suc (unat (f_len fa f))" using assms by (simp add: appended_def)
  then have "f_len fa f' \<noteq> 0" by auto
  moreover from this show last: "f_len fa f' - 1 = f_len fa f" using len by (simp add: word_unat_eq_iff unat_minus_one)
  ultimately show "0 < f_len fa f'" "block f' (f_len fa f' - 1) = Some b" using assms by (simp_all add: word_gt_0 appended_def)
qed

subsection \<open>Calls on feeds keep the corestore intact\<close>

lemma with_feed_run:
  assumes "deref (cs_heap s) q = Some f"
  shows "with_feed q m s =
    (case m (f, cs_world s) of (r, f', w') \<Rightarrow> (r, s\<lparr>cs_heap := (cs_heap s)[q := f'], cs_world := w'\<rparr>))"
  using assms by (simp add: with_feed_def)

lemma with_feedE:
  assumes "with_feed q m s = (r, s')" and "deref (cs_heap s) q = Some f"
  obtains f' w' where "m (f, cs_world s) = (r, f', w')"
    "s' = s\<lparr>cs_heap := (cs_heap s)[q := f'], cs_world := w'\<rparr>"
  using assms by (auto simp: with_feed_def split: prod.splits)

lemma peek_feed_run [simp]:
  "deref (cs_heap s) q = Some f \<Longrightarrow> peek_feed q g s = (Inr (g f), s)"
  by (simp add: with_feed_run rust_get_apply) (auto simp: deref_eq_Some)

lemma peek_feed_any: "peek_feed q g s = (r, s') \<Longrightarrow> s' = s"
  by (cases "deref (cs_heap s) q") (auto simp: peek_feed_run, simp add: with_feed_def)

text \<open>A store in which some feeds have been replaced by feeds with the same key pair.\<close>

definition same_keys ::
  "('w, 'f, 'st, 'h) cs_ext \<Rightarrow> ('w, 'f, 'nd, 'sig) feed_api \<Rightarrow> 'f store \<Rightarrow> 'f store \<Rightarrow> bool" where
  "same_keys ext fa h h' \<longleftrightarrow>
     map (\<lambda>f. (x_feed_public_key ext f, f_secret_key fa f)) h' = map (\<lambda>f. (x_feed_public_key ext f, f_secret_key fa f)) h"

lemma same_keysD:
  assumes "same_keys ext fa h h'" and "deref h r = Some f"
  obtains f' where "deref h' r = Some f'" "x_feed_public_key ext f' = x_feed_public_key ext f"
    "f_secret_key fa f' = f_secret_key fa f"
proof -
  have "length h' = length h" "r < length h"
    using assms map_eq_imp_length_eq unfolding same_keys_def by (auto simp: deref_eq_Some)
  moreover from this have "(x_feed_public_key ext (h' ! r), f_secret_key fa (h' ! r))
      = (x_feed_public_key ext (h ! r), f_secret_key fa (h ! r))"
    using assms(1) unfolding same_keys_def by (metis (no_types, lifting) nth_map)
  ultimately show ?thesis
    using assms(2) that [of "h' ! r"] by (auto simp: deref_eq_Some)
qed

lemma same_keys_refl [simp]: "same_keys ext fa h h"
  by (simp add: same_keys_def)

lemma same_keys_update:
  assumes "keeps_keys ext fa m" and "m (f, w) = (r, f', w')" and "deref h q = Some f"
  shows "same_keys ext fa h (h[q := f'])"
proof -
  have "x_feed_public_key ext f' = x_feed_public_key ext f \<and> f_secret_key fa f' = f_secret_key fa f"
    using assms(1,2) unfolding keeps_keys_def by blast
  with assms(3) show ?thesis
    by (auto simp: same_keys_def map_update deref_eq_Some list_update_same_conv)
qed

text \<open>The rest of the corestore's state does not move during a call on a feed.\<close>

definition feed_only :: "('w, 'f) cs_state \<Rightarrow> ('w, 'f) cs_state \<Rightarrow> bool" where
  "feed_only s s' \<longleftrightarrow>
     cs_inner s' = cs_inner s \<and> cs_sent s' = cs_sent s \<and> length (cs_heap s') = length (cs_heap s)"

lemma feed_only_refl [simp]: "feed_only s s"
  by (simp add: feed_only_def)

lemma feed_only_trans: "feed_only s s' \<Longrightarrow> feed_only s' s'' \<Longrightarrow> feed_only s s''"
  by (simp add: feed_only_def)

lemma FeedMap_sound_same_keys:
  assumes sound: "FeedMap_sound (x_feed_public_key ext) dk h m" and keys: "same_keys ext fa h h'"
  shows "FeedMap_sound (x_feed_public_key ext) dk h' m"
proof -
  have lift: "\<exists>f'. deref h' r = Some f' \<and> x_feed_public_key ext f' = x_feed_public_key ext f"
    if "deref h r = Some f" for r f
    using that by (rule same_keysD [OF keys]) auto
  show ?thesis
    unfolding FeedMap_sound_def
  proof (intro conjI allI impI)
    fix i r
    assume "fmlookup (fm_feeds m) i = Some r"
    with sound obtain f where "deref h r = Some f" "FeedMap_get_key m (x_feed_public_key ext f) \<noteq> None"
        "FeedMap_get_dkey m (dk (x_feed_public_key ext f)) \<noteq> None"
      unfolding FeedMap_sound_def by blast
    with lift [of r f] show "\<exists>f. deref h' r = Some f \<and> FeedMap_get_key m (x_feed_public_key ext f) \<noteq> None \<and>
        FeedMap_get_dkey m (dk (x_feed_public_key ext f)) \<noteq> None" by auto
  next
    fix k r
    assume "FeedMap_get_key m k = Some r"
    with sound obtain f where "deref h r = Some f" "x_feed_public_key ext f = k"
      unfolding FeedMap_sound_def by blast
    with lift [of r f] show "\<exists>f. deref h' r = Some f \<and> x_feed_public_key ext f = k" by auto
  next
    fix d r
    assume "FeedMap_get_dkey m d = Some r"
    with sound obtain f where "deref h r = Some f" "dk (x_feed_public_key ext f) = d"
      unfolding FeedMap_sound_def by blast
    with lift [of r f] show "\<exists>f. deref h' r = Some f \<and> dk (x_feed_public_key ext f) = d" by auto
  qed
qed

lemma cs_inv_same_keys:
  assumes inv: "cs_inv ext s" and only: "feed_only s s'" and keys: "same_keys ext fa (cs_heap s) (cs_heap s')"
  shows "cs_inv ext s'"
proof -
  have "names_sound ext s'"
    unfolding names_sound_def
  proof (intro allI impI)
    fix n r
    assume "FeedMap_get_name (cs_feeds s') n = Some r"
    with only have "FeedMap_get_name (cs_feeds s) n = Some r" by (simp add: feed_only_def)
    from get_name_feed [OF inv this] obtain f sk where f: "deref (cs_heap s) r = Some f"
        "name_key_pair ext (cs_inner s) n = Inr (x_feed_public_key ext f, sk)" by blast
    obtain f' where "deref (cs_heap s') r = Some f'" "x_feed_public_key ext f' = x_feed_public_key ext f"
      using keys f(1) by (rule same_keysD)
    with f(2) only show "\<exists>f sk. deref (cs_heap s') r = Some f \<and> name_key_pair ext (cs_inner s') n = Inr (x_feed_public_key ext f, sk)"
      by (auto simp: feed_only_def)
  qed
  moreover have "FeedMap_sound (x_feed_public_key ext) (x_discovery_key ext) (cs_heap s') (cs_feeds s')"
    using inv only FeedMap_sound_same_keys [OF _ keys] by (simp add: cs_inv_def feed_only_def)
  ultimately show ?thesis
    using inv only by (simp add: cs_inv_def bus_ok_def feed_only_def)
qed

lemma with_feed_frame:
  assumes "keeps_keys ext fa m" and "with_feed q m s = (r, s')"
  shows "feed_only s s' \<and> same_keys ext fa (cs_heap s) (cs_heap s')"
proof (cases "deref (cs_heap s) q")
  case None
  with assms(2) show ?thesis by (simp add: with_feed_def)
next
  case (Some f)
  with assms(2) obtain f' w' where m: "m (f, cs_world s) = (r, f', w')"
    and s': "s' = s\<lparr>cs_heap := (cs_heap s)[q := f'], cs_world := w'\<rparr>"
    by (rule with_feedE)
  have "same_keys ext fa (cs_heap s) ((cs_heap s)[q := f'])"
    using assms(1) m Some by (rule same_keys_update)
  then show ?thesis
    by (simp add: s' feed_only_def)
qed

lemma with_feed_inv:
  "keeps_keys ext fa m \<Longrightarrow> with_feed q m s = (r, s') \<Longrightarrow> cs_inv ext s \<Longrightarrow> cs_inv ext s'"
  by (blast dest: with_feed_frame intro: cs_inv_same_keys)

lemma same_keys_trans: "same_keys ext fa h h' \<Longrightarrow> same_keys ext fa h' h'' \<Longrightarrow> same_keys ext fa h h''"
  by (simp add: same_keys_def)

lemma keeps_keys_get: "keeps_keys ext fa (rust_get g)"
  by (auto simp: keeps_keys_def rust_get_apply)

end
