(* ===== verification/Rpc_Schema.thy ===== *)
theory Rpc_Schema
  imports HS_Prelude
begin

section \<open>The messages between client and server (\<open>common/src/schema.proto\<close>)\<close>

text \<open>
  The messages of the RPC methods that client and server implement, with the fields of the schema.
  \<open>required\<close> fields are plain, \<open>optional\<close> fields are options, \<open>repeated\<close> fields are lists.  A \<open>String\<close> is
  the list of its UTF-8 bytes, as characters.
\<close>

text \<open>\<open>str::as_bytes\<close>\<close>

definition as_bytes :: "string \<Rightarrow> bytes" where
  "as_bytes = map (\<lambda>c. of_nat (of_char c))"

record peer_info =
  pi_remote_public_key :: bytes
  pi_remote_address :: string
  pi_type :: string

record open_request =
  or_id :: u32
  or_key :: "bytes option"
  or_name :: "string option"
  or_weak :: "bool option"

record open_response =
  os_key :: bytes
  os_length :: u64
  os_byte_length :: u64
  os_writable :: bool
  os_peers :: "peer_info list"
  os_discovery_key :: "bytes option"

record get_request =
  gr_id :: u32
  gr_seq :: u64
  gr_resource_id :: u64
  gr_wait :: "bool option"
  gr_if_available :: "bool option"
  gr_on_wait_id :: "u64 option"

record get_response =
  gs_block :: "bytes option"

record append_request =
  ar_id :: u32
  ar_blocks :: "bytes list"

record append_response =
  as_length :: u64
  as_byte_length :: u64
  as_seq :: u64

record seek_request =
  sr_id :: u32
  sr_byte_offset :: u64
  sr_start :: "u64 option"
  sr_end :: "u64 option"
  sr_wait :: "bool option"
  sr_if_available :: "bool option"

record seek_response =
  sk_seq :: u64
  sk_block_offset :: u64

record append_event =
  ae_id :: u64
  ae_length :: u64
  ae_byte_length :: u64

record download_event =
  de_id :: u64
  de_seq :: u64
  de_byte_length :: "u64 option"

text \<open>The two events the server sends to the client.\<close>

datatype client_event = OnAppend append_event | OnDownload download_event

fun client_event_id :: "client_event \<Rightarrow> u64" where
  "client_event_id (OnAppend e) = ae_id e"
| "client_event_id (OnDownload e) = de_id e"

record network_status =
  ns_discovery_key :: bytes
  ns_announce :: "bool option"
  ns_lookup :: "bool option"
  ns_remember :: "bool option"

record configure_network_request =
  cn_configuration :: network_status
  cn_flush :: "bool option"
  cn_copy_from :: "bytes option"
  cn_overwrite :: "bool option"

record network_status_response =
  nr_status :: "network_status option"

end
