(* ===== verification/Server_Session.thy ===== *)
theory Server_Session
  imports Feed_Api Rpc_Schema
begin

section \<open>The server's session (\<open>server/src/rpc/session.rs\<close>)\<close>

text \<open>
  A \<open>Session\<close> serves one client connection.  It maps the ids the client chooses to open feeds and, for
  every open feed, spawns a task that forwards the feed's events to the client.  The corestore behind it
  is shared with other sessions and with the replicator; \<open>sv_store\<close> is its state.

  The calls to the client go through generated code and \<open>hrpc\<close>: they are the parameter \<open>call\<close>, which may
  fail.  A task is an entry of \<open>ss_tasks\<close>; it subscribes to its feed when it first runs (\<open>nt_events\<close>), and
  then handles the events that reach it one by one.
\<close>

record feed_state =
  fs_id :: u32
  fs_feed :: ref
  fs_notify_task :: "nat option"

record notify_task =
  nt_id :: u64
  nt_feed :: ref
  nt_events :: "nat option"

record session =
  ss_cores :: "(u32, feed_state) fmap"
  ss_tasks :: "notify_task list"
  ss_sent :: "client_event list"

record ('w, 'f) sv_state =
  sv_session :: session
  sv_store :: "('w, 'f) cs_state"

definition in_store :: "(('w, 'f) cs_state, 'a) rust \<Rightarrow> (('w, 'f) sv_state, 'a) rust" where
  "in_store m = (\<lambda>s. case m (sv_store s) of (r, t) \<Rightarrow> (r, s\<lparr>sv_store := t\<rparr>))"

definition set_session :: "(session \<Rightarrow> session) \<Rightarrow> (('w, 'f) sv_state, unit) rust" where
  "set_session g = rust_modify (\<lambda>s. s\<lparr>sv_session := g (sv_session s)\<rparr>)"

definition Session_new :: session where
  "Session_new = \<lparr>ss_cores = fmempty, ss_tasks = [], ss_sent = []\<rparr>"

definition bad_id :: fault where
  "bad_id = IoError ''Bad ID''"

text \<open>\<open>cores.get(&req.id).ok_or(bad_id())?\<close>\<close>

definition Session_core :: "u32 \<Rightarrow> (('w, 'f) sv_state, ref) rust" where
  "Session_core cid =
     rust_bind (rust_get (\<lambda>s. fmlookup (ss_cores (sv_session s)) cid)) (\<lambda>core.
     case core of
       None \<Rightarrow> rust_fail bad_id
     | Some state \<Rightarrow> rust_return (fs_feed state))"

subsection \<open>Reading and appending\<close>

definition Session_get ::
  "('w, 'f, 'nd, 'sig) feed_api \<Rightarrow> get_request \<Rightarrow> (('w, 'f) sv_state, get_response) rust" where
  "Session_get fa req =
     rust_bind (Session_core (gr_id req)) (\<lambda>feed.
     rust_bind (in_store (with_feed feed (f_get fa (gr_seq req)))) (\<lambda>block.
     rust_return \<lparr>gs_block = block\<rparr>))"

text \<open>The blocks are appended one by one while the feed's lock is held.\<close>

definition Session_append ::
  "('w, 'f, 'nd, 'sig) feed_api \<Rightarrow> append_request \<Rightarrow> (('w, 'f) sv_state, append_response) rust" where
  "Session_append fa req =
     rust_bind (Session_core (ar_id req)) (\<lambda>feed.
     in_store (with_feed feed
       (rust_bind (rust_for (f_append fa) (ar_blocks req)) (\<lambda>_.
        rust_get (\<lambda>(f, w).
          \<lparr>as_length = f_len fa f, as_byte_length = f_byte_len fa f, as_seq = f_len fa f\<rparr>)))))"

subsection \<open>Forwarding events\<close>

text \<open>A call to the client: on success the client has received the event.\<close>

definition call_client ::
  "(client_event \<Rightarrow> ('w, unit) rust) \<Rightarrow> client_event \<Rightarrow> (('w, 'f) sv_state, unit) rust" where
  "call_client call ev =
     rust_bind (in_store (in_world (call ev))) (\<lambda>_.
     set_session (\<lambda>ss. ss\<lparr>ss_sent := ss_sent ss @ [ev]\<rparr>))"

text \<open>The body of the loop in \<open>notify_loop\<close>.\<close>

definition notify_event ::
  "('w, 'f, 'nd, 'sig) feed_api \<Rightarrow> (client_event \<Rightarrow> ('w, unit) rust) \<Rightarrow> u64 \<Rightarrow> ref \<Rightarrow> feed_event \<Rightarrow>
   (('w, 'f) sv_state, unit) rust" where
  "notify_event fa call cid feed event =
     (case event of
        FeedAppend \<Rightarrow>
          rust_bind (in_store (peek_feed feed (\<lambda>f. (f_len fa f, f_byte_len fa f)))) (\<lambda>(len, byte_len).
          call_client call (OnAppend \<lparr>ae_id = cid, ae_length = len, ae_byte_length = byte_len\<rparr>))
      | FeedDownload seq \<Rightarrow>
          rust_bind (in_store (peek_feed feed (f_byte_len fa))) (\<lambda>byte_len.
          call_client call (OnDownload \<lparr>de_id = cid, de_seq = seq, de_byte_length = Some byte_len\<rparr>))
      | FeedOther \<Rightarrow> rust_return ())"

text \<open>The whole task, when \<open>events\<close> are the events its subscription yields before it ends.\<close>

definition notify_loop ::
  "('w, 'f, 'nd, 'sig) feed_api \<Rightarrow> (client_event \<Rightarrow> ('w, unit) rust) \<Rightarrow> u64 \<Rightarrow> ref \<Rightarrow> feed_event list \<Rightarrow>
   (('w, 'f) sv_state, unit) rust" where
  "notify_loop fa call cid feed events =
     rust_bind (in_store (with_feed feed (f_subscribe fa))) (\<lambda>_.
     rust_for (notify_event fa call cid feed) events)"

subsection \<open>Opening\<close>

definition FeedState_new :: "u32 \<Rightarrow> ref \<Rightarrow> feed_state" where
  "FeedState_new cid feed = \<lparr>fs_id = cid, fs_feed = feed, fs_notify_task = None\<rparr>"

definition FeedState_set_notify_task :: "nat \<Rightarrow> feed_state \<Rightarrow> feed_state" where
  "FeedState_set_notify_task task st = st\<lparr>fs_notify_task := Some task\<rparr>"

text \<open>\<open>task::spawn(notify_loop(..))\<close>\<close>

definition spawn_notify :: "u64 \<Rightarrow> ref \<Rightarrow> (('w, 'f) sv_state, nat) rust" where
  "spawn_notify cid feed =
     rust_bind (rust_get (\<lambda>s. length (ss_tasks (sv_session s)))) (\<lambda>t.
     rust_bind (set_session (\<lambda>ss.
       ss\<lparr>ss_tasks := ss_tasks ss @ [\<lparr>nt_id = cid, nt_feed = feed, nt_events = None\<rparr>]\<rparr>)) (\<lambda>_.
     rust_return t))"

text \<open>The feed an open request asks for.\<close>

definition Session_find_feed ::
  "('w, 'f, 'st, 'h) cs_ext \<Rightarrow> open_request \<Rightarrow> (('w, 'f) sv_state, ref) rust" where
  "Session_find_feed ext req =
     (case or_name req of
        Some name \<Rightarrow> in_store (Corestore_get_by_name ext (as_bytes name))
      | None \<Rightarrow>
          (case or_key req of
             Some key \<Rightarrow>
               if length key = 32 then in_store (Corestore_get_by_key ext key)
               else rust_fail (IoError ''Invalid key length'')
           | None \<Rightarrow> rust_fail (IoError ''Invalid parameters'')))"

definition Session_open ::
  "('w, 'f, 'st, 'h) cs_ext \<Rightarrow> ('w, 'f, 'nd, 'sig) feed_api \<Rightarrow> open_request \<Rightarrow>
   (('w, 'f) sv_state, open_response) rust" where
  "Session_open ext fa req =
     rust_bind (Session_find_feed ext req) (\<lambda>feed.
     let state = FeedState_new (or_id req) feed in
     rust_bind (spawn_notify (ucast (or_id req)) feed) (\<lambda>notify_task.
     let state = FeedState_set_notify_task notify_task state in
     rust_bind (set_session (\<lambda>ss. ss\<lparr>ss_cores := fmupd (or_id req) state (ss_cores ss)\<rparr>)) (\<lambda>_.
     in_store (peek_feed feed (\<lambda>f.
       \<lparr>os_key = x_feed_public_key ext f, os_length = f_len fa f, os_byte_length = f_byte_len fa f,
        os_writable = (f_secret_key fa f \<noteq> None), os_peers = [], os_discovery_key = None\<rparr>)))))"

definition Session_configure ::
  "configure_network_request \<Rightarrow> (('w, 'f) sv_state, network_status_response) rust" where
  "Session_configure req = rust_return \<lparr>nr_status = None\<rparr>"

subsection \<open>All the steps of a session\<close>

text \<open>
  A request of the client, the first run of a task, or an event that reaches a task.  Requests and task
  steps interleave in any order.
\<close>

definition task_start :: "('w, 'f, 'nd, 'sig) feed_api \<Rightarrow> nat \<Rightarrow> (('w, 'f) sv_state, unit) rust" where
  "task_start fa t =
     rust_bind (rust_get (\<lambda>s. nt_feed (ss_tasks (sv_session s) ! t))) (\<lambda>feed.
     rust_bind (in_store (with_feed feed (f_subscribe fa))) (\<lambda>events.
     set_session (\<lambda>ss. ss\<lparr>ss_tasks := (ss_tasks ss)[t := (ss_tasks ss ! t)\<lparr>nt_events := Some events\<rparr>]\<rparr>)))"

definition task_event ::
  "('w, 'f, 'nd, 'sig) feed_api \<Rightarrow> (client_event \<Rightarrow> ('w, unit) rust) \<Rightarrow> nat \<Rightarrow> feed_event \<Rightarrow>
   (('w, 'f) sv_state, unit) rust" where
  "task_event fa call t event =
     rust_bind (rust_get (\<lambda>s. ss_tasks (sv_session s) ! t)) (\<lambda>task.
     notify_event fa call (nt_id task) (nt_feed task) event)"

inductive session_step ::
  "('w, 'f, 'st, 'h) cs_ext \<Rightarrow> ('w, 'f, 'nd, 'sig) feed_api \<Rightarrow> (client_event \<Rightarrow> ('w, unit) rust) \<Rightarrow>
   ('w, 'f) sv_state \<Rightarrow> ('w, 'f) sv_state \<Rightarrow> bool"
  for ext fa call where
  req_open: "cs_room (sv_store s) \<Longrightarrow> Session_open ext fa oreq s = (ores, s') \<Longrightarrow> session_step ext fa call s s'"
| req_get: "Session_get fa greq s = (gres, s') \<Longrightarrow> session_step ext fa call s s'"
| req_append: "Session_append fa areq s = (ares, s') \<Longrightarrow> session_step ext fa call s s'"
| start: "t < length (ss_tasks (sv_session s)) \<Longrightarrow> nt_events (ss_tasks (sv_session s) ! t) = None \<Longrightarrow>
    task_start fa t s = (u, s') \<Longrightarrow> session_step ext fa call s s'"
| event: "t < length (ss_tasks (sv_session s)) \<Longrightarrow> nt_events (ss_tasks (sv_session s) ! t) = Some c \<Longrightarrow>
    task_event fa call t ev s = (u, s') \<Longrightarrow> session_step ext fa call s s'"

end
