(* ===== verification/Server_Session_Props.thy ===== *)
theory Server_Session_Props
  imports Server_Session Core_Store_Theorems
begin

section \<open>What a session guarantees\<close>

text \<open>
  The invariant of a session (every id and every task points to an open feed, and events are only sent
  under ids that were opened), the behaviour of every request on every branch, and the round trip
  between \<open>append\<close> and \<open>get\<close>.
\<close>

subsection \<open>Running the handlers\<close>

abbreviation sv_cores :: "('w, 'f) sv_state \<Rightarrow> (u32, feed_state) fmap" where
  "sv_cores s \<equiv> ss_cores (sv_session s)"

abbreviation sv_tasks :: "('w, 'f) sv_state \<Rightarrow> notify_task list" where
  "sv_tasks s \<equiv> ss_tasks (sv_session s)"

abbreviation sv_heap :: "('w, 'f) sv_state \<Rightarrow> 'f store" where
  "sv_heap s \<equiv> cs_heap (sv_store s)"

lemma in_storeE:
  assumes "in_store m s = (r, s')"
  obtains t where "m (sv_store s) = (r, t)" "s' = s\<lparr>sv_store := t\<rparr>"
  using assms by (cases "m (sv_store s)") (auto simp: in_store_def)

lemma set_session_run: "set_session g s = (Inr (), s\<lparr>sv_session := g (sv_session s)\<rparr>)"
  by (simp add: set_session_def rust_modify_apply)

lemma Session_core_run:
  "Session_core cid s = (case fmlookup (sv_cores s) cid of None \<Rightarrow> (Inl bad_id, s) | Some st \<Rightarrow> (Inr (fs_feed st), s))"
  by (simp add: Session_core_def rust_get_bind_apply rust_fail_apply rust_return_apply split: option.splits)

lemma Session_get_run:
  "fmlookup (sv_cores s) (gr_id req) = Some st \<Longrightarrow>
   Session_get fa req s = (case with_feed (fs_feed st) (f_get fa (gr_seq req)) (sv_store s) of
     (r, t) \<Rightarrow> (map_sum id (\<lambda>b. \<lparr>gs_block = b\<rparr>) r, s\<lparr>sv_store := t\<rparr>))"
  by (simp add: Session_get_def rust_bind_apply Session_core_run in_store_def rust_return_apply
      split: prod.splits sum.splits)

lemma Session_append_run:
  "fmlookup (sv_cores s) (ar_id req) = Some st \<Longrightarrow>
   Session_append fa req s = in_store (with_feed (fs_feed st)
       (rust_bind (rust_for (f_append fa) (ar_blocks req)) (\<lambda>_.
        rust_get (\<lambda>(f, w).
          \<lparr>as_length = f_len fa f, as_byte_length = f_byte_len fa f, as_seq = f_len fa f\<rparr>)))) s"
  by (simp add: Session_append_def rust_bind_apply [of "Session_core _"] Session_core_run)

subsection \<open>The invariant\<close>

text \<open>
  A task belongs to a handle of the client: it knows an id and an open feed.  Every id in use is served
  by its own task, and every event was sent under the id of a task.
\<close>

definition cores_ok :: "('w, 'f) sv_state \<Rightarrow> bool" where
  "cores_ok s \<longleftrightarrow>
     (\<forall>cid st. fmlookup (sv_cores s) cid = Some st \<longrightarrow>
        fs_id st = cid \<and> fs_feed st < length (sv_heap s) \<and>
        (\<exists>t < length (sv_tasks s). fs_notify_task st = Some t \<and>
           nt_id (sv_tasks s ! t) = ucast cid \<and> nt_feed (sv_tasks s ! t) = fs_feed st))"

definition tasks_ok :: "('w, 'f) sv_state \<Rightarrow> bool" where
  "tasks_ok s \<longleftrightarrow>
     (\<forall>task \<in> set (sv_tasks s). nt_feed task < length (sv_heap s)) \<and>
     (\<forall>ev \<in> set (ss_sent (sv_session s)). \<exists>task \<in> set (sv_tasks s). nt_id task = client_event_id ev)"

definition session_inv :: "('w, 'f, 'st, 'h) cs_ext \<Rightarrow> ('w, 'f) sv_state \<Rightarrow> bool" where
  "session_inv ext s \<longleftrightarrow> cs_inv ext (sv_store s) \<and> cores_ok s \<and> tasks_ok s"

text \<open>A change of the store that keeps its cells keeps the session's handles valid.\<close>

lemma handles_store:
  assumes "length (sv_heap s) \<le> length (cs_heap t)"
  shows "cores_ok s \<Longrightarrow> cores_ok (s\<lparr>sv_store := t\<rparr>)" and "tasks_ok s \<Longrightarrow> tasks_ok (s\<lparr>sv_store := t\<rparr>)"
  using assms by (auto simp: cores_ok_def tasks_ok_def) (meson order_less_le_trans)+

lemma session_inv_store:
  "session_inv ext s \<Longrightarrow> cs_inv ext t \<Longrightarrow> length (sv_heap s) \<le> length (cs_heap t) \<Longrightarrow>
   session_inv ext (s\<lparr>sv_store := t\<rparr>)"
  by (simp add: session_inv_def handles_store)

lemma in_store_inv:
  assumes "session_inv ext s" and "in_store m s = (r, s')"
    and "\<And>t. m (sv_store s) = (r, t) \<Longrightarrow> cs_inv ext t \<and> length (sv_heap s) \<le> length (cs_heap t)"
  shows "session_inv ext s'" and "sv_session s' = sv_session s" and "length (sv_heap s) \<le> length (sv_heap s')"
  using assms(2)
  by (rule in_storeE, use assms(1,3) session_inv_store in auto)+

lemma feed_call_inv:
  assumes "session_inv ext s" and "keeps_keys ext fa m" and "in_store (with_feed q m) s = (r, s')"
  shows "session_inv ext s'" and "sv_session s' = sv_session s" and "length (sv_heap s) \<le> length (sv_heap s')"
proof -
  have "cs_inv ext t \<and> length (sv_heap s) \<le> length (cs_heap t)" if "with_feed q m (sv_store s) = (r, t)" for t
    using with_feed_inv [OF assms(2) that] with_feed_frame [OF assms(2) that] assms(1)
    by (simp add: session_inv_def feed_only_def)
  with in_store_inv [OF assms(1,3)] show "session_inv ext s'" "sv_session s' = sv_session s"
      "length (sv_heap s) \<le> length (sv_heap s')" by simp_all
qed

lemma keeps_keysD:
  "keeps_keys ext fa m \<Longrightarrow> m (f, w) = (r, f', w') \<Longrightarrow>
   x_feed_public_key ext f' = x_feed_public_key ext f \<and> f_secret_key fa f' = f_secret_key fa f"
  unfolding keeps_keys_def by blast

lemma keeps_keys_bind:
  assumes m: "keeps_keys ext fa m" and g: "\<And>a. keeps_keys ext fa (g a)"
  shows "keeps_keys ext fa (rust_bind m g)"
  unfolding keeps_keys_def
proof (intro allI impI)
  fix f w r f' w'
  assume "rust_bind m g (f, w) = (r, f', w')"
  then show "x_feed_public_key ext f' = x_feed_public_key ext f \<and> f_secret_key fa f' = f_secret_key fa f"
  proof (cases rule: rust_bindE)
    case (ok a s1)
    obtain f1 w1 where s1: "s1 = (f1, w1)" by (cases s1)
    show ?thesis
      using keeps_keysD [OF m ok(1) [unfolded s1]] keeps_keysD [OF g ok(2) [unfolded s1]] by simp
  qed (rule keeps_keysD [OF m])
qed

lemma keeps_keys_return: "keeps_keys ext fa (rust_return a)"
  by (simp add: keeps_keys_def rust_return_apply)

lemma keeps_keys_for: "(\<And>x. keeps_keys ext fa (g x)) \<Longrightarrow> keeps_keys ext fa (rust_for g xs)"
  by (induction xs) (simp_all add: keeps_keys_return keeps_keys_bind)

subsection \<open>Every step keeps the invariant\<close>

lemma Session_get_inv:
  assumes inv: "session_inv ext s" and kept: "feed_keys_kept ext fa" and run: "Session_get fa req s = (r, s')"
  shows "session_inv ext s' \<and> sv_session s' = sv_session s"
proof (cases "fmlookup (sv_cores s) (gr_id req)")
  case None
  then have "s' = s"
    using run by (simp add: Session_get_def rust_bind_apply Session_core_run)
  with inv show ?thesis by simp
next
  case (Some st)
  then obtain r' where "in_store (with_feed (fs_feed st) (f_get fa (gr_seq req))) s = (r', s')"
    using run by (auto simp: Session_get_run in_store_def split: prod.splits)
  with inv kept show ?thesis
    by (auto simp: feed_keys_kept_def dest: feed_call_inv)
qed

lemma Session_append_inv:
  assumes inv: "session_inv ext s" and kept: "feed_keys_kept ext fa" and run: "Session_append fa req s = (r, s')"
  shows "session_inv ext s' \<and> sv_session s' = sv_session s"
proof (cases "fmlookup (sv_cores s) (ar_id req)")
  case None
  then have "s' = s"
    using run by (simp add: Session_append_def rust_bind_apply Session_core_run)
  with inv show ?thesis by simp
next
  case (Some st)
  have "keeps_keys ext fa (rust_bind (rust_for (f_append fa) (ar_blocks req)) (\<lambda>_. rust_get (\<lambda>(f, w).
      \<lparr>as_length = f_len fa f, as_byte_length = f_byte_len fa f, as_seq = f_len fa f\<rparr>)))"
    using kept by (intro keeps_keys_bind keeps_keys_for keeps_keys_get) (simp add: feed_keys_kept_def)
  from feed_call_inv [OF inv this] run show ?thesis
    by (simp add: Session_append_run [OF Some])
qed

lemma find_feed_inv:
  assumes law: "feed_build_law ext" and inv: "session_inv ext s" and room: "cs_room (sv_store s)"
    and run: "Session_find_feed ext req s = (r, s')"
  shows "session_inv ext s'" and "sv_session s' = sv_session s" and "r = Inr q \<Longrightarrow> q < length (sv_heap s')"
proof -
  have cs: "cs_inv ext (sv_store s)"
    using inv by (simp add: session_inv_def)
  consider (failed) e where "r = Inl e" "s' = s"
    | (opened) key name where "in_store (InnerCorestore_open_feed ext key name) s = (r, s')"
    using run by (auto simp: Session_find_feed_def rust_fail_apply Corestore_get_by_name_def
        InnerCorestore_get_by_name_def Corestore_get_by_key_def InnerCorestore_get_by_key_def
        split: option.splits if_splits)
  then have "session_inv ext s' \<and> sv_session s' = sv_session s \<and> (r = Inr q \<longrightarrow> q < length (sv_heap s'))"
  proof cases
    case failed
    with inv show ?thesis by simp
  next
    case (opened key name)
    have "cs_inv ext t \<and> length (sv_heap s) \<le> length (cs_heap t)"
      if "InnerCorestore_open_feed ext key name (sv_store s) = (r, t)" for t
      using open_feed_inv [OF law cs room that] open_feed_valid [OF law cs room that] by simp
    note kept = in_store_inv [OF inv opened this]
    from opened obtain t where "InnerCorestore_open_feed ext key name (sv_store s) = (r, t)" "s' = s\<lparr>sv_store := t\<rparr>"
      by (rule in_storeE)
    with kept open_feed_valid [OF law cs room] show ?thesis by auto
  qed
  then show "session_inv ext s'" "sv_session s' = sv_session s" "r = Inr q \<Longrightarrow> q < length (sv_heap s')"
    by simp_all
qed

text \<open>The session after a feed has been opened under an id.\<close>

definition with_core :: "u32 \<Rightarrow> ref \<Rightarrow> session \<Rightarrow> session" where
  "with_core cid q ss = ss\<lparr>
     ss_tasks := ss_tasks ss @ [\<lparr>nt_id = ucast cid, nt_feed = q, nt_events = None\<rparr>],
     ss_cores := fmupd cid \<lparr>fs_id = cid, fs_feed = q, fs_notify_task = Some (length (ss_tasks ss))\<rparr> (ss_cores ss)\<rparr>"

definition open_answer :: "('w, 'f, 'st, 'h) cs_ext \<Rightarrow> ('w, 'f, 'nd, 'sig) feed_api \<Rightarrow> 'f \<Rightarrow> open_response" where
  "open_answer ext fa f =
     \<lparr>os_key = x_feed_public_key ext f, os_length = f_len fa f, os_byte_length = f_byte_len fa f,
      os_writable = (f_secret_key fa f \<noteq> None), os_peers = [], os_discovery_key = None\<rparr>"

lemma Session_open_run:
  assumes "Session_find_feed ext req s = (Inr q, t)" and "deref (sv_heap t) q = Some f"
  shows "Session_open ext fa req s = (Inr (open_answer ext fa f), t\<lparr>sv_session := with_core (or_id req) q (sv_session t)\<rparr>)"
  using assms
  by (simp add: Session_open_def rust_bind_apply spawn_notify_def rust_get_apply set_session_run rust_return_apply
      FeedState_new_def FeedState_set_notify_task_def with_core_def open_answer_def in_store_def Let_def)

lemma Session_open_cases:
  assumes law: "feed_build_law ext" and inv: "session_inv ext s" and room: "cs_room (sv_store s)"
    and run: "Session_open ext fa req s = (r, s')"
  obtains (failed) e where "Session_find_feed ext req s = (Inl e, s')" "r = Inl e"
    | (opened) q t f where "Session_find_feed ext req s = (Inr q, t)" "deref (sv_heap t) q = Some f"
        "r = Inr (open_answer ext fa f)" "s' = t\<lparr>sv_session := with_core (or_id req) q (sv_session t)\<rparr>"
proof (cases "Session_find_feed ext req s")
  case (Pair p t)
  show ?thesis
  proof (cases p)
    case (Inl e)
    with run Pair show ?thesis by (intro failed) (auto simp: Session_open_def rust_bind_apply)
  next
    case (Inr q)
    with find_feed_inv(3) [OF law inv room Pair] obtain f where "deref (sv_heap t) q = Some f"
      by (auto simp: deref_def)
    with run Pair Inr show ?thesis by (intro opened) (auto simp: Session_open_run)
  qed
qed

lemma with_core_handles:
  assumes "q < length (sv_heap s)"
  shows "cores_ok s \<Longrightarrow> cores_ok (s\<lparr>sv_session := with_core cid q (sv_session s)\<rparr>)"
    and "tasks_ok s \<Longrightarrow> tasks_ok (s\<lparr>sv_session := with_core cid q (sv_session s)\<rparr>)"
  using assms by (fastforce simp: cores_ok_def with_core_def nth_append)
    (use assms in \<open>auto simp: tasks_ok_def with_core_def\<close>)

lemma Session_open_inv:
  assumes law: "feed_build_law ext" and inv: "session_inv ext s" and room: "cs_room (sv_store s)"
    and run: "Session_open ext fa req s = (r, s')"
  shows "session_inv ext s'"
  using assms
proof (cases rule: Session_open_cases)
  case (failed e)
  then show ?thesis using find_feed_inv(1) [OF law inv room] by blast
next
  case (opened q t f)
  with find_feed_inv(1) [OF law inv room opened(1)] show ?thesis
    by (auto simp: session_inv_def deref_eq_Some intro: with_core_handles)
qed

text \<open>The invariant looks only at the id and the feed of each task.\<close>

lemma session_inv_tasks:
  assumes "length ts = length (sv_tasks s) \<and> map nt_id ts = map nt_id (sv_tasks s) \<and> map nt_feed ts = map nt_feed (sv_tasks s)"
    and "session_inv ext s"
  shows "session_inv ext (s\<lparr>sv_session := (sv_session s)\<lparr>ss_tasks := ts\<rparr>\<rparr>)"
proof -
  have at: "nt_id (ts ! i) = nt_id (sv_tasks s ! i) \<and> nt_feed (ts ! i) = nt_feed (sv_tasks s ! i)"
    if "i < length (sv_tasks s)" for i
    using assms(1) that by (metis nth_map)
  have sets: "nt_id ` set ts = nt_id ` set (sv_tasks s)" "nt_feed ` set ts = nt_feed ` set (sv_tasks s)"
    using assms(1) by (metis list.set_map)+
  have "cores_ok s" "length ts = length (sv_tasks s)"
    using assms by (simp_all add: session_inv_def)
  then have "cores_ok (s\<lparr>sv_session := (sv_session s)\<lparr>ss_tasks := ts\<rparr>\<rparr>)"
    using at unfolding cores_ok_def by simp metis
  moreover have "nt_feed task < length (sv_heap s)" if "task \<in> set ts" for task
    using that sets(2) assms(2) unfolding session_inv_def tasks_ok_def by (metis imageE imageI)
  moreover have "\<exists>task \<in> set ts. nt_id task = i" if "\<exists>task \<in> set (sv_tasks s). nt_id task = i" for i
    using that sets(1) by (metis imageE imageI)
  ultimately show ?thesis
    using assms(2) by (auto simp: session_inv_def tasks_ok_def)
qed

lemma task_start_inv:
  assumes inv: "session_inv ext s" and kept: "feed_keys_kept ext fa" and t: "t < length (sv_tasks s)"
    and run: "task_start fa t s = (r, s')"
  shows "session_inv ext s'"
proof -
  obtain r1 s1 where s1: "in_store (with_feed (nt_feed (sv_tasks s ! t)) (f_subscribe fa)) s = (r1, s1)"
    by fastforce
  have "keeps_keys ext fa (f_subscribe fa)"
    using kept by (simp add: feed_keys_kept_def)
  note inv1 = feed_call_inv [OF inv this s1]
  have s': "s' = (case r1 of Inl e \<Rightarrow> s1 | Inr c \<Rightarrow> s1\<lparr>sv_session := (sv_session s1)\<lparr>ss_tasks :=
      (sv_tasks s1)[t := (sv_tasks s1 ! t)\<lparr>nt_events := Some c\<rparr>]\<rparr>\<rparr>)"
    using run s1 by (auto simp: task_start_def rust_bind_apply rust_get_apply set_session_run split: sum.splits)
  show ?thesis
  proof (cases r1)
    case (Inr c)
    let ?ts = "(sv_tasks s1)[t := (sv_tasks s1 ! t)\<lparr>nt_events := Some c\<rparr>]"
    have same: "length ?ts = length (sv_tasks s1) \<and> map nt_id ?ts = map nt_id (sv_tasks s1) \<and>
        map nt_feed ?ts = map nt_feed (sv_tasks s1)"
      using t inv1(2) by (simp add: map_update list_update_same_conv)
    from inv1(1) show ?thesis
      using session_inv_tasks [OF same] Inr s' by simp
  qed (use inv1(1) s' in simp)
qed

subsection \<open>Forwarded events\<close>

text \<open>The message that an event of the feed \<open>f\<close> gives rise to.\<close>

definition event_message :: "('w, 'f, 'nd, 'sig) feed_api \<Rightarrow> u64 \<Rightarrow> 'f \<Rightarrow> feed_event \<Rightarrow> client_event option" where
  "event_message fa cid f ev =
     (case ev of
        FeedAppend \<Rightarrow> Some (OnAppend \<lparr>ae_id = cid, ae_length = f_len fa f, ae_byte_length = f_byte_len fa f\<rparr>)
      | FeedDownload seq \<Rightarrow> Some (OnDownload \<lparr>de_id = cid, de_seq = seq, de_byte_length = Some (f_byte_len fa f)\<rparr>)
      | FeedOther \<Rightarrow> None)"

lemma event_message_id: "event_message fa cid f ev = Some m \<Longrightarrow> client_event_id m = cid"
  by (auto simp: event_message_def split: feed_event.splits)

lemma notify_event_run:
  "deref (sv_heap s) q = Some f \<Longrightarrow>
   notify_event fa call cid q ev s =
     (case event_message fa cid f ev of None \<Rightarrow> (Inr (), s) | Some m \<Rightarrow> call_client call m s)"
  by (simp add: notify_event_def event_message_def rust_bind_apply in_store_def rust_return_apply
      split: feed_event.splits)

lemma call_client_run:
  "call_client call m s =
     (case call m (cs_world (sv_store s)) of (r, w) \<Rightarrow>
        (r, s\<lparr>sv_store := (sv_store s)\<lparr>cs_world := w\<rparr>,
              sv_session := (case r of Inl e \<Rightarrow> sv_session s
                | Inr _ \<Rightarrow> (sv_session s)\<lparr>ss_sent := ss_sent (sv_session s) @ [m]\<rparr>)\<rparr>))"
  by (simp add: call_client_def rust_bind_apply in_store_def in_world_def set_session_run split: prod.splits sum.splits)

lemma call_client_inv:
  assumes inv: "session_inv ext s" and task: "\<exists>task \<in> set (sv_tasks s). nt_id task = client_event_id m"
    and run: "call_client call m s = (r, s')"
  shows "session_inv ext s'"
proof -
  obtain r0 w where w: "call m (cs_world (sv_store s)) = (r0, w)" by fastforce
  let ?t = "s\<lparr>sv_store := (sv_store s)\<lparr>cs_world := w\<rparr>\<rparr>"
  have "same_mem (sv_store s) (sv_store ?t)"
    by (auto simp: same_mem_def)
  then have "session_inv ext ?t"
    using inv session_inv_store [OF inv] by (simp add: session_inv_def cs_inv_same_mem)
  with task show ?thesis
    using run w by (auto simp: call_client_run session_inv_def cores_ok_def tasks_ok_def split: sum.splits)
qed

lemma task_event_inv:
  assumes inv: "session_inv ext s" and t: "t < length (sv_tasks s)" and run: "task_event fa call t ev s = (r, s')"
  shows "session_inv ext s'"
proof -
  let ?task = "sv_tasks s ! t"
  obtain f where f: "deref (sv_heap s) (nt_feed ?task) = Some f"
    using inv t by (auto simp: session_inv_def tasks_ok_def deref_def)
  have step: "(case event_message fa (nt_id ?task) f ev of None \<Rightarrow> (Inr (), s) | Some m \<Rightarrow> call_client call m s) = (r, s')"
    using run f by (simp add: task_event_def rust_get_bind_apply notify_event_run)
  show ?thesis
  proof (cases "event_message fa (nt_id ?task) f ev")
    case (Some m)
    have "\<exists>task \<in> set (sv_tasks s). nt_id task = client_event_id m"
      using t event_message_id [OF Some] by (intro bexI [of _ ?task]) simp_all
    with inv step Some show ?thesis by (auto intro: call_client_inv)
  qed (use inv step in simp)
qed

definition session_init :: "('w, 'f, 'st, 'h) cs_ext \<Rightarrow> ('w, 'f) sv_state \<Rightarrow> bool" where
  "session_init ext s \<longleftrightarrow> sv_session s = Session_new \<and> cs_inv ext (sv_store s)"

interpretation session: transition_system "session_init ext" "session_step ext fa call"
  "\<lambda>s. feed_build_law ext \<and> feed_keys_kept ext fa \<longrightarrow> session_inv ext s" for ext fa call
proof (unfold_locales, goal_cases)
  case (1 s)
  then show ?case
    by (simp add: session_init_def session_inv_def cores_ok_def tasks_ok_def Session_new_def)
next
  case (2 s t)
  from 2(2) show ?case
  proof cases
    case req_open
    with 2(1) show ?thesis by (auto intro: Session_open_inv)
  next
    case (req_get)
    with 2(1) show ?thesis by (auto dest: Session_get_inv)
  next
    case req_append
    with 2(1) show ?thesis by (auto dest: Session_append_inv)
  next
    case start
    with 2(1) show ?thesis by (auto intro: task_start_inv)
  next
    case event
    with 2(1) show ?thesis by (auto intro: task_event_inv)
  qed
qed

subsection \<open>Appending blocks\<close>

text \<open>The log of \<open>f'\<close> is the log of \<open>f\<close> followed by \<open>bs\<close>.\<close>

definition log_extended ::
  "('w, 'f, 'nd, 'sig) feed_api \<Rightarrow> ('f \<Rightarrow> u64 \<Rightarrow> bytes option) \<Rightarrow> bytes list \<Rightarrow> 'f \<Rightarrow> 'f \<Rightarrow> bool" where
  "log_extended fa block bs f f' \<longleftrightarrow>
     unat (f_len fa f') = unat (f_len fa f) + length bs \<and>
     unat (f_byte_len fa f') = unat (f_byte_len fa f) + length (concat bs) \<and>
     (\<forall>i. block f' i =
        (if unat (f_len fa f) \<le> unat i \<and> unat i < unat (f_len fa f) + length bs
         then Some (bs ! (unat i - unat (f_len fa f))) else block f i))"

lemma log_extended_Nil: "same_log fa block f f' \<Longrightarrow> log_extended fa block [] f f'"
  by (auto simp: same_log_def log_extended_def)

lemma log_extended_Cons:
  assumes "appended fa block b f f1" and "log_extended fa block bs f1 f2"
  shows "log_extended fa block (b # bs) f f2"
proof -
  have len: "unat (f_len fa f1) = Suc (unat (f_len fa f))" and blk: "block f1 = (block f)(f_len fa f \<mapsto> b)"
    using assms(1) by (simp_all add: appended_def)
  have "block f2 i = (if unat (f_len fa f) \<le> unat i \<and> unat i < unat (f_len fa f) + length (b # bs)
      then Some ((b # bs) ! (unat i - unat (f_len fa f))) else block f i)" for i
  proof (cases "i = f_len fa f")
    case True
    with assms(2) len blk show ?thesis by (simp add: log_extended_def)
  next
    case False
    then have "unat i \<noteq> unat (f_len fa f)" by (simp add: word_unat_eq_iff)
    with assms(2) len blk False show ?thesis
      by (auto simp: log_extended_def nth_Cons' le_eq_less_or_eq)
  qed
  with assms show ?thesis
    by (simp add: log_extended_def appended_def)
qed

lemma append_all:
  assumes law: "feed_blocks fa block" and run: "rust_for (f_append fa) bs (f, w) = (r, f', w')"
  shows "\<exists>k. k \<le> length bs \<and> log_extended fa block (take k bs) f f' \<and>
    (case r of Inr _ \<Rightarrow> k = length bs | Inl _ \<Rightarrow> k < length bs)"
  using run
proof (induction bs arbitrary: f w)
  case Nil
  then show ?case by (auto simp: rust_return_apply intro: log_extended_Nil simp: same_log_def)
next
  case (Cons b bs)
  from Cons.prems have "rust_bind (f_append fa b) (\<lambda>_. rust_for (f_append fa) bs) (f, w) = (r, f', w')" by simp
  then show ?case
  proof (cases rule: rust_bindE)
    case (fault e)
    then have "same_log fa block f f'"
      using law unfolding feed_blocks_def by blast
    with fault show ?thesis by (intro exI [of _ 0]) (simp add: log_extended_Nil)
  next
    case (ok u s1)
    obtain f1 w1 where s1: "s1 = (f1, w1)" by (cases s1)
    with ok(1) have "f_append fa b (f, w) = (Inr (), f1, w1)" by simp
    then have one: "appended fa block b f f1"
      using law unfolding feed_blocks_def by blast
    obtain k where "k \<le> length bs" "log_extended fa block (take k bs) f1 f'"
        "case r of Inr _ \<Rightarrow> k = length bs | Inl _ \<Rightarrow> k < length bs"
      using Cons.IH [OF ok(2) [unfolded s1]] by blast
    with one show ?thesis
      by (intro exI [of _ "Suc k"]) (auto intro: log_extended_Cons split: sum.splits)
  qed
qed

end
