(* ===== verification/Sample_Feeds.thy ===== *)
theory Sample_Feeds
  imports Sample_World Feed_Api
begin

section \<open>Concrete feeds for the sample world\<close>

text \<open>
  Feeds that keep their blocks in memory, as an instance of \<open>feed_api\<close>; they satisfy the laws the
  properties of the server and of the replicator assume.
\<close>

definition sample_block :: "sample_feed \<Rightarrow> u64 \<Rightarrow> bytes option" where
  "sample_block f i = (if unat i < length (sf_blocks f) then sf_blocks f ! unat i else None)"

definition sample_bytes :: "sample_feed \<Rightarrow> nat" where
  "sample_bytes f = sum_list (map (\<lambda>b. case b of None \<Rightarrow> 0 | Some v \<Rightarrow> length v) (sf_blocks f))"

definition sample_put :: "nat \<Rightarrow> bytes \<Rightarrow> sample_feed \<Rightarrow> sample_feed" where
  "sample_put i v f = f\<lparr>sf_blocks := (sf_blocks f @ replicate (Suc i - length (sf_blocks f)) None)[i := Some v]\<rparr>"

definition sample_api :: "(sample_files, sample_feed, u64 \<times> bytes \<times> u64, bytes) feed_api" where
  "sample_api =
     \<lparr>f_secret_key = sf_secret,
      f_len = (\<lambda>f. of_nat (length (sf_blocks f))),
      f_byte_len = (\<lambda>f. of_nat (sample_bytes f)),
      f_has = (\<lambda>f i. sample_block f i \<noteq> None),
      f_subscribe = (\<lambda>s. (Inr 0, s)),
      f_get = (\<lambda>i s. (Inr (sample_block (fst s) i), s)),
      f_append = (\<lambda>b s.
        if Suc (length (sf_blocks (fst s))) < 2 ^ 64 \<and> sample_bytes (fst s) + length b < 2 ^ 64
        then (Inr (), (fst s)\<lparr>sf_blocks := sf_blocks (fst s) @ [Some b]\<rparr>, snd s)
        else (Inl (IoError ''feed full''), s)),
      f_proof = (\<lambda>i d s. (Inr \<lparr>pf_index = i, pf_nodes = [], pf_signature = Some []\<rparr>, s)),
      f_put = (\<lambda>i v p s. (Inr (), (case v of None \<Rightarrow> fst s | Some b \<Rightarrow> sample_put (unat i) b (fst s)), snd s)),
      f_compress = (\<lambda>f start len. Inr (map (\<lambda>b. if b = None then 0 else 1) (sf_blocks f) @ [0]))\<rparr>"

lemma sample_put_block: "sample_block (sample_put (unat i) b f) = (sample_block f)(i \<mapsto> b)"
  by (rule ext) (auto simp: sample_block_def sample_put_def nth_list_update nth_append word_unat_eq_iff)

lemma sample_put_key [simp]: "sf_key (sample_put n b f) = sf_key f"
  by (simp add: sample_put_def)

lemma sample_keys_kept: "feed_keys_kept sample_ext sample_api"
  by (auto simp: feed_keys_kept_def keeps_keys_def sample_ext_def sample_api_def sample_put_def
      split: if_splits option.splits)

lemma sample_same_log [simp]: "same_log sample_api sample_block f f"
  by (simp add: same_log_def)

lemma sample_appended:
  assumes "Suc (length (sf_blocks f)) < 2 ^ 64" and "sample_bytes f + length b < 2 ^ 64"
  shows "appended sample_api sample_block b f (f\<lparr>sf_blocks := sf_blocks f @ [Some b]\<rparr>)"
proof -
  have len: "unat (of_nat (length (sf_blocks f)) :: u64) = length (sf_blocks f)"
    using assms(1) by (simp add: unat_of_nat)
  have "sample_block (f\<lparr>sf_blocks := sf_blocks f @ [Some b]\<rparr>) i
      = ((sample_block f)(of_nat (length (sf_blocks f)) \<mapsto> b)) i" for i
    using len by (auto simp: sample_block_def nth_append word_unat_eq_iff)
  then have "sample_block (f\<lparr>sf_blocks := sf_blocks f @ [Some b]\<rparr>) = (sample_block f)(f_len sample_api f \<mapsto> b)"
    by (simp add: fun_eq_iff sample_api_def)
  moreover have "unat (f_len sample_api (f\<lparr>sf_blocks := sf_blocks f @ [Some b]\<rparr>)) = Suc (length (sf_blocks f))"
    using unat_of_nat_u64 [OF assms(1)] by (simp add: sample_api_def)
  moreover have "sample_bytes f < 2 ^ 64" using assms(2) by simp
  note unat_of_nat_u64 [OF this]
  moreover have "unat (f_byte_len sample_api (f\<lparr>sf_blocks := sf_blocks f @ [Some b]\<rparr>)) = sample_bytes f + length b"
    using unat_of_nat_u64 [OF assms(2)] by (simp add: sample_api_def sample_bytes_def)
  ultimately show ?thesis
    using len by (simp add: appended_def) (simp add: sample_api_def)
qed

lemma sample_feed_blocks: "feed_blocks sample_api sample_block"
proof -
  have "appended sample_api sample_block b f f'"
    if "f_append sample_api b (f, w) = (Inr (), f', w')" for b f w f' w'
    using that sample_appended [of f b] by (auto simp: sample_api_def split: if_splits)
  moreover have "same_log sample_api sample_block f f'"
    if "f_append sample_api b (f, w) = (Inl e, f', w')" for b f w e f' w'
    using that by (auto simp: sample_api_def same_log_def split: if_splits)
  moreover have "same_log sample_api sample_block f f' \<and> (\<forall>b. r = Inr b \<longrightarrow> b = sample_block f i)"
    if "f_get sample_api i (f, w) = (r, f', w')" for i f w r f' w'
    using that by (auto simp: sample_api_def same_log_def)
  moreover have "same_log sample_api sample_block f f'"
    if "f_subscribe sample_api (f, w) = (r, f', w')" for f w r f' w'
    using that by (auto simp: sample_api_def same_log_def)
  ultimately show ?thesis
    unfolding feed_blocks_def by blast
qed

end
