(* ===== verification/Server_Theorems.thy ===== *)
theory Server_Theorems
  imports Server_Session_Props Sample_Feeds
begin

section \<open>Properties of the server's session\<close>

text \<open>
  What a client can rely on when it talks to a session: what \<open>open\<close> answers, that appended blocks can be
  read back, what happens with unknown ids and failing appends, which events it is sent, and the
  invariant that holds however requests and forwarding tasks interleave.
\<close>

text \<open>Reading a block that the feed holds succeeds.\<close>

definition feed_reads :: "('w, 'f, 'nd, 'sig) feed_api \<Rightarrow> ('f \<Rightarrow> u64 \<Rightarrow> bytes option) \<Rightarrow> bool" where
  "feed_reads fa block \<longleftrightarrow>
     (\<forall>f w i. block f i \<noteq> None \<longrightarrow> (\<exists>f' w'. f_get fa i (f, w) = (Inr (block f i), f', w')))"

lemma sample_feed_reads: "feed_reads sample_api sample_block"
  by (simp add: feed_reads_def sample_api_def)

lemma Session_append_log:
  assumes blocks: "feed_blocks fa block"
    and core: "fmlookup (sv_cores s) (ar_id req) = Some st" and f: "deref (sv_heap s) (fs_feed st) = Some f"
    and run: "Session_append fa req s = (r, s')"
  obtains k f' where "k \<le> length (ar_blocks req)" "deref (sv_heap s') (fs_feed st) = Some f'"
    "log_extended fa block (take k (ar_blocks req)) f f'" "sv_session s' = sv_session s"
    "case r of Inl _ \<Rightarrow> k < length (ar_blocks req)
     | Inr resp \<Rightarrow> k = length (ar_blocks req) \<and>
         resp = \<lparr>as_length = f_len fa f', as_byte_length = f_byte_len fa f', as_seq = f_len fa f'\<rparr>"
proof -
  let ?m = "rust_bind (rust_for (f_append fa) (ar_blocks req)) (\<lambda>_. rust_get (\<lambda>(f, w).
    \<lparr>as_length = f_len fa f, as_byte_length = f_byte_len fa f, as_seq = f_len fa f\<rparr>))"
  have "in_store (with_feed (fs_feed st) ?m) s = (r, s')"
    using run by (simp add: Session_append_run [OF core])
  then obtain t where t: "with_feed (fs_feed st) ?m (sv_store s) = (r, t)" "s' = s\<lparr>sv_store := t\<rparr>"
    by (rule in_storeE)
  from t(1) f obtain f' w' where m: "?m (f, cs_world (sv_store s)) = (r, f', w')"
      and t': "t = (sv_store s)\<lparr>cs_heap := (sv_heap s)[fs_feed st := f'], cs_world := w'\<rparr>"
    by (rule with_feedE)
  have f': "deref (sv_heap s') (fs_feed st) = Some f'"
    using f t(2) t' by (simp add: deref_eq_Some)
  obtain r1 f1 w1 where loop: "rust_for (f_append fa) (ar_blocks req) (f, cs_world (sv_store s)) = (r1, f1, w1)"
    by (metis prod_cases3)
  with m have r: "f' = f1" "r = map_sum id (\<lambda>_. \<lparr>as_length = f_len fa f1, as_byte_length = f_byte_len fa f1,
      as_seq = f_len fa f1\<rparr>) r1"
    by (auto simp: rust_bind_apply rust_get_apply split: sum.splits)
  from append_all [OF blocks loop] obtain k where "k \<le> length (ar_blocks req)"
      "log_extended fa block (take k (ar_blocks req)) f f1"
      "case r1 of Inr _ \<Rightarrow> k = length (ar_blocks req) | Inl _ \<Rightarrow> k < length (ar_blocks req)" by blast
  with f' r t(2) that [of k f'] show ?thesis by (cases r1) auto
qed

subsection \<open>Appending and reading back\<close>

text \<open>
  C16. After a successful \<open>append\<close> the answer gives the new length and byte length, every block sent can be
  read back with \<open>get\<close> at its position, and every earlier block is what it was.
\<close>

theorem Session_append_then_get:
  assumes "feed_blocks fa block" and "feed_reads fa block"
    and "fmlookup (sv_cores s) (ar_id req) = Some st" and "deref (sv_heap s) (fs_feed st) = Some f"
    and "Session_append fa req s = (Inr resp, s')"
  shows "unat (as_length resp) = unat (f_len fa f) + length (ar_blocks req)
    \<and> unat (as_byte_length resp) = unat (f_byte_len fa f) + length (concat (ar_blocks req))
    \<and> (\<forall>greq i. gr_id greq = ar_id req \<longrightarrow> i < length (ar_blocks req) \<longrightarrow>
         unat (gr_seq greq) = unat (f_len fa f) + i \<longrightarrow>
         (\<exists>t. Session_get fa greq s' = (Inr \<lparr>gs_block = Some (ar_blocks req ! i)\<rparr>, t)))
    \<and> (\<forall>greq b. gr_id greq = ar_id req \<longrightarrow> unat (gr_seq greq) < unat (f_len fa f) \<longrightarrow>
         block f (gr_seq greq) = Some b \<longrightarrow> (\<exists>t. Session_get fa greq s' = (Inr \<lparr>gs_block = Some b\<rparr>, t)))"
proof -
  from assms(1,3-5) obtain k f' where k: "deref (sv_heap s') (fs_feed st) = Some f'"
      "log_extended fa block (take k (ar_blocks req)) f f'" "sv_session s' = sv_session s"
      "k = length (ar_blocks req)"
      "resp = \<lparr>as_length = f_len fa f', as_byte_length = f_byte_len fa f', as_seq = f_len fa f'\<rparr>"
    by (rule Session_append_log) simp
  then have log: "log_extended fa block (ar_blocks req) f f'" by simp
  have read: "\<exists>t. Session_get fa greq s' = (Inr \<lparr>gs_block = Some b\<rparr>, t)"
    if gid: "gr_id greq = ar_id req" and held: "block f' (gr_seq greq) = Some b" for greq b
  proof -
    have core: "fmlookup (sv_cores s') (gr_id greq) = Some st"
      using gid k(3) assms(3) by simp
    obtain g w where "f_get fa (gr_seq greq) (f', cs_world (sv_store s')) = (Inr (Some b), g, w)"
      using assms(2) held unfolding feed_reads_def by (metis option.distinct(1))
    then show ?thesis
      by (simp add: Session_get_run [OF core] with_feed_run [OF k(1)])
  qed
  show ?thesis
    using log k(5) by (auto simp: log_extended_def intro!: read)
qed

definition sample_sv :: "(sample_files, sample_feed) sv_state" where
  "sample_sv = \<lparr>sv_session = \<lparr>
      ss_cores = fmupd 3 \<lparr>fs_id = 3, fs_feed = 0, fs_notify_task = Some 0\<rparr> fmempty,
      ss_tasks = [\<lparr>nt_id = 3, nt_feed = 0, nt_events = None\<rparr>], ss_sent = []\<rparr>,
     sv_store = sample_store\<lparr>cs_heap := [\<lparr>sf_key = [9], sf_secret = Some [8], sf_blocks = [Some [1, 2]]\<rparr>]\<rparr>\<rparr>"

lemma sample_sv_core:
  "fmlookup (sv_cores sample_sv) 3 = Some \<lparr>fs_id = 3, fs_feed = 0, fs_notify_task = Some 0\<rparr>"
  "sv_heap sample_sv = [\<lparr>sf_key = [9], sf_secret = Some [8], sf_blocks = [Some [1, 2]]\<rparr>]"
  by (simp_all add: sample_sv_def)

lemma sample_append:
  "\<exists>resp s'. Session_append sample_api \<lparr>ar_id = 3, ar_blocks = [[4], [5, 6]]\<rparr> sample_sv = (Inr resp, s')"
  by (simp add: Session_append_def Session_core_run sample_sv_core rust_bind_apply in_store_def with_feed_def deref_def
      rust_return_apply) (simp add: sample_api_def sample_bytes_def rust_get_apply)

theorem Session_append_then_get_witness:
  "\<exists>resp s' t. Session_append sample_api \<lparr>ar_id = 3, ar_blocks = [[4], [5, 6]]\<rparr> sample_sv = (Inr resp, s') \<and>
     unat (as_length resp) = 3 \<and> unat (as_byte_length resp) = 5 \<and>
     Session_get sample_api \<lparr>gr_id = 3, gr_seq = 2, gr_resource_id = 1, gr_wait = None, gr_if_available = None,
       gr_on_wait_id = None\<rparr> s' = (Inr \<lparr>gs_block = Some [5, 6]\<rparr>, t)"
proof -
  let ?req = "\<lparr>ar_id = 3, ar_blocks = [[4], [5, 6]]\<rparr> :: append_request"
  let ?greq = "\<lparr>gr_id = 3, gr_seq = 2, gr_resource_id = 1, gr_wait = None, gr_if_available = None,
    gr_on_wait_id = None\<rparr> :: get_request"
  obtain resp s' where run: "Session_append sample_api ?req sample_sv = (Inr resp, s')"
    using sample_append by blast
  have core: "fmlookup (sv_cores sample_sv) (ar_id ?req) = Some \<lparr>fs_id = 3, fs_feed = 0, fs_notify_task = Some 0\<rparr>"
    by (simp add: sample_sv_core)
  have cell: "deref (sv_heap sample_sv) 0 = Some \<lparr>sf_key = [9], sf_secret = Some [8], sf_blocks = [Some [1, 2]]\<rparr>"
    by (simp add: sample_sv_core deref_def)
  note result = Session_append_then_get [OF sample_feed_blocks sample_feed_reads core _ run, simplified, OF cell]
  have "\<exists>t. Session_get sample_api ?greq s' = (Inr \<lparr>gs_block = Some ([[4], [5, 6]] ! 1)\<rparr>, t)"
    using result by (auto simp: sample_api_def dest!: spec [of _ ?greq] spec [of _ 1])
  moreover have "unat (as_length resp) = 3" "unat (as_byte_length resp) = 5"
    using result by (auto simp: sample_api_def sample_bytes_def)
  ultimately show ?thesis using run by auto
qed

subsection \<open>Errors\<close>

text \<open>
  C19. A request for an id that is not open is answered with the error \<open>Bad ID\<close>, an \<open>open\<close> request with
  neither name nor key or with a key of the wrong length is refused, and none of these changes anything.
\<close>

theorem Session_refuses:
  "(fmlookup (sv_cores s) (gr_id greq) = None \<longrightarrow> Session_get fa greq s = (Inl (IoError ''Bad ID''), s)) \<and>
   (fmlookup (sv_cores s) (ar_id areq) = None \<longrightarrow> Session_append fa areq s = (Inl (IoError ''Bad ID''), s)) \<and>
   (or_name oreq = None \<longrightarrow> or_key oreq = None \<longrightarrow>
      Session_open ext fa oreq s = (Inl (IoError ''Invalid parameters''), s)) \<and>
   (or_name oreq = None \<longrightarrow> (\<exists>k. or_key oreq = Some k \<and> length k \<noteq> 32) \<longrightarrow>
      Session_open ext fa oreq s = (Inl (IoError ''Invalid key length''), s))"
  by (auto simp: Session_get_def Session_append_def Session_core_run Session_open_def Session_find_feed_def
      bad_id_def rust_bind_apply rust_fail_apply)

theorem Session_refuses_witness:
  "Session_get sample_api \<lparr>gr_id = 4, gr_seq = 0, gr_resource_id = 1, gr_wait = None, gr_if_available = None,
     gr_on_wait_id = None\<rparr> sample_sv = (Inl (IoError ''Bad ID''), sample_sv) \<and>
   Session_append sample_api \<lparr>ar_id = 4, ar_blocks = [[1]]\<rparr> sample_sv = (Inl (IoError ''Bad ID''), sample_sv) \<and>
   Session_open sample_ext sample_api \<lparr>or_id = 4, or_key = Some [1], or_name = None, or_weak = None\<rparr> sample_sv
     = (Inl (IoError ''Invalid key length''), sample_sv)"
proof -
  have "fmlookup (sv_cores sample_sv) 4 = None" by (simp add: sample_sv_def)
  then show ?thesis
    using Session_refuses [of sample_sv "\<lparr>gr_id = 4, gr_seq = 0, gr_resource_id = 1, gr_wait = None,
        gr_if_available = None, gr_on_wait_id = None\<rparr>" sample_api "\<lparr>ar_id = 4, ar_blocks = [[1]]\<rparr>"
        "\<lparr>or_id = 4, or_key = Some [1], or_name = None, or_weak = None\<rparr>" sample_ext]
    by simp
qed

text \<open>
  C19. An \<open>append\<close> is not atomic: when a block cannot be appended the request fails, and the blocks before
  it stay appended, and nothing after it.
\<close>

theorem Session_append_fails:
  assumes "feed_blocks fa block"
    and "fmlookup (sv_cores s) (ar_id req) = Some st" and "deref (sv_heap s) (fs_feed st) = Some f"
    and "Session_append fa req s = (Inl e, s')"
  shows "\<exists>k f'. k < length (ar_blocks req) \<and> deref (sv_heap s') (fs_feed st) = Some f' \<and>
    unat (f_len fa f') = unat (f_len fa f) + k \<and>
    (\<forall>i. unat (f_len fa f) \<le> unat i \<and> unat i < unat (f_len fa f) + k \<longrightarrow>
       block f' i = Some (ar_blocks req ! (unat i - unat (f_len fa f)))) \<and>
    (\<forall>i. unat i < unat (f_len fa f) \<longrightarrow> block f' i = block f i)"
proof -
  from assms obtain k f' where "k < length (ar_blocks req)" "deref (sv_heap s') (fs_feed st) = Some f'"
      "log_extended fa block (take k (ar_blocks req)) f f'"
    by (rule Session_append_log) simp
  then show ?thesis
    by (intro exI [of _ k] exI [of _ f']) (auto simp: log_extended_def)
qed

text \<open>A feed that refuses the block \<open>[13]\<close>.\<close>

definition picky_api :: "(sample_files, sample_feed, u64 \<times> bytes \<times> u64, bytes) feed_api" where
  "picky_api = sample_api\<lparr>f_append := (\<lambda>b s. if b = [13] then (Inl (IoError ''refused''), s) else f_append sample_api b s)\<rparr>"

lemma picky_feed_blocks: "feed_blocks picky_api sample_block"
proof -
  have other [simp]: "same_log picky_api = same_log sample_api" "appended picky_api = appended sample_api"
      "f_get picky_api = f_get sample_api" "f_subscribe picky_api = f_subscribe sample_api"
    by (auto simp: fun_eq_iff same_log_def appended_def picky_api_def)
  have refuse: "f_append picky_api b s = (if b = [13] then (Inl (IoError ''refused''), s) else f_append sample_api b s)" for b s
    by (simp add: picky_api_def)
  show ?thesis
    using sample_feed_blocks unfolding feed_blocks_def other refuse by simp
qed

lemma picky_append:
  "\<exists>s'. Session_append picky_api \<lparr>ar_id = 3, ar_blocks = [[4], [13], [5]]\<rparr> sample_sv = (Inl (IoError ''refused''), s')"
  by (simp add: Session_append_def Session_core_run sample_sv_core rust_bind_apply in_store_def with_feed_def deref_def
      rust_return_apply) (simp add: picky_api_def sample_api_def sample_bytes_def rust_bind_apply)

theorem Session_append_fails_witness:
  "\<exists>s' k f'. Session_append picky_api \<lparr>ar_id = 3, ar_blocks = [[4], [13], [5]]\<rparr> sample_sv
      = (Inl (IoError ''refused''), s') \<and> k < 3 \<and> deref (sv_heap s') 0 = Some f' \<and>
      unat (f_len picky_api f') = 1 + k"
proof -
  let ?req = "\<lparr>ar_id = 3, ar_blocks = [[4], [13], [5]]\<rparr> :: append_request"
  obtain s' where run: "Session_append picky_api ?req sample_sv = (Inl (IoError ''refused''), s')"
    using picky_append by blast
  have core: "fmlookup (sv_cores sample_sv) (ar_id ?req) = Some \<lparr>fs_id = 3, fs_feed = 0, fs_notify_task = Some 0\<rparr>"
    by (simp add: sample_sv_core)
  have cell: "deref (sv_heap sample_sv) 0 = Some \<lparr>sf_key = [9], sf_secret = Some [8], sf_blocks = [Some [1, 2]]\<rparr>"
    by (simp add: sample_sv_core deref_def)
  have "f_len picky_api \<lparr>sf_key = [9], sf_secret = Some [8], sf_blocks = [Some [1, 2]]\<rparr> = 1"
    by (simp add: picky_api_def sample_api_def)
  with run Session_append_fails [OF picky_feed_blocks core _ run, simplified, OF cell] show ?thesis
    by (auto simp: numeral_3_eq_3)
qed

subsection \<open>Opening\<close>

lemma find_feed_key:
  assumes law: "feed_build_law ext" and keys: "key_laws ext" and naming: "naming_laws ext"
    and disk: "disk_laws ext content dir"
    and inv: "session_inv ext s" and ok: "disk_ok ext content (cs_inner (sv_store s)) (cs_world (sv_store s))"
    and room: "cs_room (sv_store s)" and run: "Session_find_feed ext req s = (Inr q, t)"
    and f: "deref (sv_heap t) q = Some f"
  shows "case or_name req of
      Some n \<Rightarrow> \<exists>sk. name_key_pair ext (cs_inner (sv_store s)) (as_bytes n) = Inr (x_feed_public_key ext f, sk)
    | None \<Rightarrow> or_key req = Some (x_feed_public_key ext f)"
proof -
  have cs: "cs_inv ext (sv_store s)" using inv by (simp add: session_inv_def)
  show ?thesis
  proof (cases "or_name req")
    case (Some n)
    then have "in_store (Corestore_get_by_name ext (as_bytes n)) s = (Inr q, t)"
      using run by (simp add: Session_find_feed_def)
    then show ?thesis
      by (rule in_storeE) (use get_by_name_feed [OF law cs room] f Some in fastforce)
  next
    case None
    then obtain k where k: "or_key req = Some k" "in_store (Corestore_get_by_key ext k) s = (Inr q, t)" "length k = 32"
      using run by (auto simp: Session_find_feed_def rust_fail_apply split: option.splits if_splits)
    from k(2) show ?thesis
      by (rule in_storeE)
        (use get_by_key_feed [OF law keys naming disk cs ok room k(3)] f k(1) None in \<open>fastforce simp: Corestore_get_by_key_def\<close>)
  qed
qed

lemma session_open_feed:
  assumes "feed_build_law ext" "key_laws ext" "naming_laws ext" "disk_laws ext content dir"
    and "session_inv ext s" "disk_ok ext content (cs_inner (sv_store s)) (cs_world (sv_store s))" "cs_room (sv_store s)"
    and "Session_open ext fa req s = (Inr resp, s')"
  shows "(\<exists>st f. fmlookup (sv_cores s') (or_id req) = Some st \<and> deref (sv_heap s') (fs_feed st) = Some f \<and>
       os_key resp = x_feed_public_key ext f \<and> os_length resp = f_len fa f \<and> os_byte_length resp = f_byte_len fa f \<and>
       (os_writable resp \<longleftrightarrow> f_secret_key fa f \<noteq> None))
    \<and> (case or_name req of
         Some n \<Rightarrow> \<exists>sk. name_key_pair ext (cs_inner (sv_store s)) (as_bytes n) = Inr (os_key resp, sk)
       | None \<Rightarrow> or_key req = Some (os_key resp))"
  using assms(1,5,7,8)
proof (cases rule: Session_open_cases)
  case (opened q t f)
  have "resp = open_answer ext fa f" using opened(3) by simp
  with opened(4) find_feed_key [OF assms(1-7) opened(1,2)] opened(2) show ?thesis
    by (auto simp: with_core_def open_answer_def split: option.splits)
qed simp

text \<open>
  C18. A successful \<open>open\<close> makes the requested id refer to a feed with the requested key, or with the key
  derived from the requested name, and answers with that feed's key, lengths and writability; every
  other id refers to the feed it did before.
\<close>

theorem Session_open_answers:
  assumes law: "feed_build_law ext" and "key_laws ext" and "naming_laws ext" and "disk_laws ext content dir"
    and inv: "session_inv ext s" and "disk_ok ext content (cs_inner (sv_store s)) (cs_world (sv_store s))"
    and room: "cs_room (sv_store s)" and run: "Session_open ext fa req s = (Inr resp, s')"
  shows "(\<exists>st f. fmlookup (sv_cores s') (or_id req) = Some st \<and> deref (sv_heap s') (fs_feed st) = Some f \<and>
       os_key resp = x_feed_public_key ext f \<and> os_length resp = f_len fa f \<and> os_byte_length resp = f_byte_len fa f \<and>
       (os_writable resp \<longleftrightarrow> f_secret_key fa f \<noteq> None))
    \<and> (case or_name req of
         Some n \<Rightarrow> \<exists>sk. name_key_pair ext (cs_inner (sv_store s)) (as_bytes n) = Inr (os_key resp, sk)
       | None \<Rightarrow> or_key req = Some (os_key resp))
    \<and> (\<forall>cid. cid \<noteq> or_id req \<longrightarrow> fmlookup (sv_cores s') cid = fmlookup (sv_cores s) cid)"
proof -
  from law inv room run have "fmlookup (sv_cores s') cid = fmlookup (sv_cores s) cid" if "cid \<noteq> or_id req" for cid
  proof (cases rule: Session_open_cases)
    case (opened q t f)
    with that find_feed_inv(2) [OF law inv room opened(1)] show ?thesis by (simp add: with_core_def)
  qed simp
  with session_open_feed [OF assms(1-7) run] show ?thesis by blast
qed

definition sample_fresh :: "(sample_files, sample_feed) sv_state" where
  "sample_fresh = \<lparr>sv_session = Session_new, sv_store = sample_store\<rparr>"

lemma sample_fresh_inv: "session_inv sample_ext sample_fresh"
  using sample_cs_inv by (simp add: sample_fresh_def session_inv_def Session_new_def cores_ok_def tasks_ok_def)

lemma sample_session_open:
  "\<exists>resp s'. Session_open sample_ext sample_api \<lparr>or_id = 1, or_key = Some (replicate 32 5), or_name = None, or_weak = None\<rparr>
     sample_fresh = (Inr resp, s')"
proof -
  obtain t where t: "Corestore_get_by_key sample_ext (replicate 32 5) sample_store = (Inr 0, t)"
    using sample_get_by_key by blast
  have inner: "InnerCorestore_get_by_key sample_ext (replicate 32 5) sample_store = (Inr 0, t)"
    using t by (simp add: Corestore_get_by_key_def)
  obtain f where f: "deref (cs_heap t) 0 = Some f"
    using get_by_key_feed [OF sample_laws _ inner] by auto
  let ?req = "\<lparr>or_id = 1, or_key = Some (replicate 32 5), or_name = None, or_weak = None\<rparr> :: open_request"
  have "Session_find_feed sample_ext ?req sample_fresh = (Inr 0, sample_fresh\<lparr>sv_store := t\<rparr>)"
    using t by (simp add: Session_find_feed_def in_store_def sample_fresh_def)
  from Session_open_run [OF this, of f] f show ?thesis by auto
qed

theorem Session_open_answers_witness:
  "\<exists>resp s' st. Session_open sample_ext sample_api
      \<lparr>or_id = 1, or_key = Some (replicate 32 5), or_name = None, or_weak = None\<rparr> sample_fresh = (Inr resp, s') \<and>
      os_key resp = replicate 32 5 \<and> fmlookup (sv_cores s') 1 = Some st"
proof -
  obtain resp s' where run: "Session_open sample_ext sample_api
      \<lparr>or_id = 1, or_key = Some (replicate 32 5), or_name = None, or_weak = None\<rparr> sample_fresh = (Inr resp, s')"
    using sample_session_open by blast
  have ok: "disk_ok sample_ext (\<lambda>w. w) (cs_inner (sv_store sample_fresh)) (cs_world (sv_store sample_fresh))"
    using sample_disk_ok by (simp add: sample_fresh_def)
  have room: "cs_room (sv_store sample_fresh)"
    using sample_room by (simp add: sample_fresh_def)
  from Session_open_answers [OF sample_feed_build_law sample_key_laws sample_naming_laws sample_disk_laws
      sample_fresh_inv ok room run] run show ?thesis by auto
qed

subsection \<open>Events\<close>

text \<open>Forwarding a sequence of events of a feed that no one else touches, to a client that is there.\<close>

lemma notify_events_sent:
  assumes "deref (sv_heap s) q = Some f" and "\<And>m w. \<exists>w'. call m w = (Inr (), w')"
  shows "\<exists>s'. rust_for (notify_event fa call cid q) evs s = (Inr (), s') \<and>
    ss_sent (sv_session s') = ss_sent (sv_session s) @ List.map_filter (event_message fa cid f) evs"
  using assms(1)
proof (induction evs arbitrary: s)
  case Nil
  then show ?case by (simp add: rust_return_apply List.map_filter_simps)
next
  case (Cons ev evs)
  show ?case
  proof (cases "event_message fa cid f ev")
    case None
    with Cons show ?thesis
      by (simp add: rust_bind_apply notify_event_run List.map_filter_simps)
  next
    case (Some m)
    obtain w where w: "call m (cs_world (sv_store s)) = (Inr (), w)"
      using assms(2) by blast
    let ?s = "s\<lparr>sv_store := (sv_store s)\<lparr>cs_world := w\<rparr>,
      sv_session := (sv_session s)\<lparr>ss_sent := ss_sent (sv_session s) @ [m]\<rparr>\<rparr>"
    have step: "notify_event fa call cid q ev s = (Inr (), ?s)"
      using Cons.prems Some w by (simp add: notify_event_run call_client_run)
    have "deref (sv_heap ?s) q = Some f" using Cons.prems by simp
    from Cons.IH [OF this] obtain s' where
      "rust_for (notify_event fa call cid q) evs ?s = (Inr (), s')"
      "ss_sent (sv_session s') = ss_sent (sv_session ?s) @ List.map_filter (event_message fa cid f) evs" by blast
    with step Some show ?thesis
      by (intro exI [of _ s']) (simp add: rust_bind_apply List.map_filter_simps)
  qed
qed



text \<open>
  C17. However a client's requests and the forwarding tasks interleave, in every reachable state of a
  session each open id refers to a live feed that has its own forwarding task under the same id, every
  message sent to the client carries the id of a task, and the corestore's invariant holds.
\<close>

theorem session_reachable_sound:
  assumes "feed_build_law ext" and "feed_keys_kept ext fa" and "session_init ext s0"
    and "(session_step ext fa call)\<^sup>*\<^sup>* s0 s"
  shows "(\<forall>cid st. fmlookup (sv_cores s) cid = Some st \<longrightarrow>
        (\<exists>f. deref (sv_heap s) (fs_feed st) = Some f) \<and>
        (\<exists>task \<in> set (sv_tasks s). nt_id task = ucast cid \<and> nt_feed task = fs_feed st))
    \<and> (\<forall>ev \<in> set (ss_sent (sv_session s)). \<exists>task \<in> set (sv_tasks s). nt_id task = client_event_id ev)
    \<and> cs_inv ext (sv_store s)"
proof -
  have "session_inv ext s"
    using session.inv_reachable [OF assms(3,4)] assms(1,2) by simp
  then show ?thesis
    by (auto simp: session_inv_def cores_ok_def tasks_ok_def deref_def) (metis nth_mem)
qed

theorem session_reachable_sound_witness:
  "\<exists>s st f. (session_step sample_ext sample_api (\<lambda>m w. (Inr (), w)))\<^sup>*\<^sup>* sample_fresh s \<and>
     fmlookup (sv_cores s) 1 = Some st \<and> deref (sv_heap s) (fs_feed st) = Some f"
proof -
  let ?step = "session_step sample_ext sample_api (\<lambda>m w. (Inr (), w))"
  obtain resp s where run: "Session_open sample_ext sample_api
      \<lparr>or_id = 1, or_key = Some (replicate 32 5), or_name = None, or_weak = None\<rparr> sample_fresh = (Inr resp, s)"
    using sample_session_open by blast
  have room: "cs_room (sv_store sample_fresh)"
    using sample_room by (simp add: sample_fresh_def)
  have reach: "?step\<^sup>*\<^sup>* sample_fresh s"
    using room run by (blast intro: session_step.req_open)
  have init: "session_init sample_ext sample_fresh"
    using sample_cs_inv by (simp add: session_init_def sample_fresh_def)
  have "\<exists>st. fmlookup (sv_cores s) 1 = Some st"
    using sample_feed_build_law sample_fresh_inv room run
    by (cases rule: Session_open_cases) (auto simp: with_core_def)
  with reach session_reachable_sound [OF sample_feed_build_law sample_keys_kept init reach] show ?thesis by blast
qed

text \<open>A session in which id 1 refers to a feed that was opened earlier.\<close>

definition sample_reopened :: "(sample_files, sample_feed) sv_state" where
  "sample_reopened = \<lparr>sv_session = \<lparr>
      ss_cores = fmupd 1 \<lparr>fs_id = 1, fs_feed = 0, fs_notify_task = Some 0\<rparr> fmempty,
      ss_tasks = [\<lparr>nt_id = 1, nt_feed = 0, nt_events = Some 0\<rparr>], ss_sent = []\<rparr>,
     sv_store = sample_store\<lparr>cs_heap := [\<lparr>sf_key = [9], sf_secret = None, sf_blocks = []\<rparr>]\<rparr>\<rparr>"

lemma sample_reopened_room: "cs_room (sv_store sample_reopened)"
  using sample_room by (simp add: sample_reopened_def)

lemma sample_reopened_inv: "session_inv sample_ext sample_reopened"
  using sample_cs_inv by (simp add: sample_reopened_def session_inv_def cores_ok_def tasks_ok_def sample_store_def
      cs_inv_def names_sound_def bus_ok_def FeedMap_wf_new FeedMap_sound_new)
    (simp add: FeedMap_get_name_def FeedMap_new_def)

lemma sample_reopen:
  "\<exists>resp s'. Session_open sample_ext sample_api \<lparr>or_id = 1, or_key = Some (replicate 32 5), or_name = None, or_weak = None\<rparr>
     sample_reopened = (Inr resp, s')"
  by (simp add: Session_open_def Session_find_feed_def in_store_def sample_reopened_def sample_store_def
      spawn_notify_def set_session_def FeedState_new_def with_feed_def
      corestore_run_simps rust_simps sample_ext_def FeedMap_new_def Let_def deref_def)

lemma find_feed_heap:
  assumes "feed_build_law ext" and "session_inv ext s" and "cs_room (sv_store s)"
    and "Session_find_feed ext req s = (r, t)"
  shows "length (sv_heap s) \<le> length (sv_heap t)"
  using assms(4) open_feed_valid [OF assms(1) _ assms(3)] assms(2)
  by (auto simp: Session_find_feed_def rust_fail_apply Corestore_get_by_name_def session_inv_def
      InnerCorestore_get_by_name_def Corestore_get_by_key_def InnerCorestore_get_by_key_def
      split: option.splits if_splits elim!: in_storeE)

text \<open>
  Opening an id again does not end the forwarding task of the feed it referred to before: that task
  goes on sending the old feed's lengths to the client under the id that now means another feed.
\<close>

theorem reopened_id_hears_old_feed:
  assumes law: "feed_build_law ext" and inv: "session_inv ext s" and room: "cs_room (sv_store s)"
    and core: "fmlookup (sv_cores s) (or_id req) = Some st"
    and run: "Session_open ext fa req s = (Inr resp, s')"
    and up: "\<And>m w. \<exists>w'. call m w = (Inr (), w')"
  shows "\<exists>t f s''. fs_notify_task st = Some t \<and> t < length (sv_tasks s') \<and> deref (sv_heap s') (fs_feed st) = Some f \<and>
    task_event fa call t FeedAppend s' = (Inr (), s'') \<and>
    ss_sent (sv_session s'') = ss_sent (sv_session s') @
      [OnAppend \<lparr>ae_id = ucast (or_id req), ae_length = f_len fa f, ae_byte_length = f_byte_len fa f\<rparr>]"
proof -
  obtain t where t: "t < length (sv_tasks s)" "fs_notify_task st = Some t"
      "nt_id (sv_tasks s ! t) = ucast (or_id req)" "nt_feed (sv_tasks s ! t) = fs_feed st" "fs_feed st < length (sv_heap s)"
    using inv core by (auto simp: session_inv_def cores_ok_def)
  from law inv room run have tasks: "\<exists>x. sv_tasks s' = sv_tasks s @ [x]" and heap: "length (sv_heap s) \<le> length (sv_heap s')"
    by (cases rule: Session_open_cases;
        use find_feed_inv(2) [OF law inv room] find_feed_heap [OF law inv room] in \<open>force simp: with_core_def\<close>)+
  then obtain f where f: "deref (sv_heap s') (fs_feed st) = Some f"
    using t(5) by (auto simp: deref_def)
  obtain w where "call (OnAppend \<lparr>ae_id = ucast (or_id req), ae_length = f_len fa f, ae_byte_length = f_byte_len fa f\<rparr>)
      (cs_world (sv_store s')) = (Inr (), w)"
    using up by blast
  with t tasks f show ?thesis
    by (auto simp: task_event_def rust_get_bind_apply notify_event_run event_message_def call_client_run nth_append)
qed

theorem reopened_id_hears_old_feed_witness:
  "\<exists>resp s' f s''. Session_open sample_ext sample_api
      \<lparr>or_id = 1, or_key = Some (replicate 32 5), or_name = None, or_weak = None\<rparr> sample_reopened = (Inr resp, s') \<and>
    deref (sv_heap s') 0 = Some f \<and> task_event sample_api (\<lambda>m w. (Inr (), w)) 0 FeedAppend s' = (Inr (), s'')"
proof -
  let ?req = "\<lparr>or_id = 1, or_key = Some (replicate 32 5), or_name = None, or_weak = None\<rparr> :: open_request"
  obtain resp s' where run: "Session_open sample_ext sample_api ?req sample_reopened = (Inr resp, s')"
    using sample_reopen by blast
  have core: "fmlookup (sv_cores sample_reopened) (or_id ?req) = Some \<lparr>fs_id = 1, fs_feed = 0, fs_notify_task = Some 0\<rparr>"
    by (simp add: sample_reopened_def)
  from reopened_id_hears_old_feed [where call = "\<lambda>m w. (Inr (), w)", OF sample_feed_build_law sample_reopened_inv
      sample_reopened_room core run] run show ?thesis by auto
qed

end
