(* ===== verification/Named_Map.thy ===== *)
theory Named_Map
  imports HS_Interfaces
begin

section \<open>The client's table of sessions (\<open>client/src/freemap.rs\<close>)\<close>

text \<open>
  \<open>NamedMap\<close> files values under small integer ids and any number of names.  \<open>InnerMap\<close> is the
  structure behind the lock; the operations of \<open>NamedMap\<close> take the lock and delegate, so each is one
  atomic step.  Ids are handed out from the free list first and from \<open>len + 1\<close> otherwise; the
  allocation cannot overflow, since a table has fewer than \<open>2 ^ 64 - 1\<close> entries in memory (the bound
  is the \<open>limit\<close> of the registry below).
\<close>

record ('k, 'v) InnerMap =
  im_map :: "(u64, 'v) fmap"
  im_name_id :: "('k, u64) fmap"
  im_id_name :: "(u64, 'k list) fmap"
  im_free :: "u64 list"

definition InnerMap_new :: "('k, 'v) InnerMap" where
  "InnerMap_new = \<lparr>im_map = fmempty, im_name_id = fmempty, im_id_name = fmempty, im_free = []\<rparr>"

definition InnerMap_insert :: "'v \<Rightarrow> ('k, 'v) InnerMap \<Rightarrow> u64 \<times> ('k, 'v) InnerMap" where
  "InnerMap_insert value m =
     (let (nid, m') =
        (case im_free m of
           next_id # rest \<Rightarrow> (next_id, m\<lparr>im_free := rest\<rparr>)
         | [] \<Rightarrow> (hm_len (im_map m) + 1, m))
      in (nid, m'\<lparr>im_map := fmupd nid value (im_map m')\<rparr>))"

definition InnerMap_set_name :: "u64 \<Rightarrow> 'k \<Rightarrow> ('k, 'v) InnerMap \<Rightarrow> ('k, 'v) InnerMap" where
  "InnerMap_set_name nid key m =
     m\<lparr>im_name_id := fmupd key nid (im_name_id m),
       im_id_name := (case fmlookup (im_id_name m) nid of
           Some names \<Rightarrow> fmupd nid (names @ [key]) (im_id_name m)
         | None \<Rightarrow> fmupd nid [key] (im_id_name m))\<rparr>"

definition InnerMap_insert_with_name ::
  "'v \<Rightarrow> 'k \<Rightarrow> ('k, 'v) InnerMap \<Rightarrow> u64 \<times> ('k, 'v) InnerMap" where
  "InnerMap_insert_with_name value name m =
     (let (nid, m') = InnerMap_insert value m in (nid, InnerMap_set_name nid name m'))"

definition NamedMap_new :: "('k, 'v) InnerMap" where
  "NamedMap_new = InnerMap_new"

definition NamedMap_insert_with_name ::
  "'v \<Rightarrow> 'k \<Rightarrow> ('k, 'v) InnerMap \<Rightarrow> u64 \<times> ('k, 'v) InnerMap" where
  "NamedMap_insert_with_name value name inner = InnerMap_insert_with_name value name inner"

definition NamedMap_get :: "('k, 'v) InnerMap \<Rightarrow> u64 \<Rightarrow> 'v option" where
  "NamedMap_get inner nid = fmlookup (im_map inner) nid"

definition NamedMap_get_by_name :: "('k, 'v) InnerMap \<Rightarrow> 'k \<Rightarrow> 'v option" where
  "NamedMap_get_by_name inner key =
     (case fmlookup (im_name_id inner) key of
        None \<Rightarrow> None
      | Some nid \<Rightarrow> fmlookup (im_map inner) nid)"

definition NamedMap_set_name :: "u64 \<Rightarrow> 'k \<Rightarrow> ('k, 'v) InnerMap \<Rightarrow> ('k, 'v) InnerMap" where
  "NamedMap_set_name nid key inner = InnerMap_set_name nid key inner"

subsection \<open>The invariant of the table\<close>

text \<open>
  The ids in use and the ids on the free list partition \<open>1 .. n\<close>, where \<open>n\<close> counts both; every name
  resolves to an id in use, whose list of names holds it.
\<close>

abbreviation InnerMap_size :: "('k, 'v) InnerMap \<Rightarrow> nat" where
  "InnerMap_size m \<equiv> fcard (fmdom (im_map m))"

definition InnerMap_ids_ok :: "('k, 'v) InnerMap \<Rightarrow> bool" where
  "InnerMap_ids_ok m \<longleftrightarrow>
     distinct (im_free m) \<and>
     (\<forall>nid. fmlookup (im_map m) nid \<noteq> None \<longrightarrow> nid \<notin> set (im_free m)) \<and>
     (\<forall>nid. (fmlookup (im_map m) nid \<noteq> None \<or> nid \<in> set (im_free m)) \<longleftrightarrow>
        1 \<le> unat nid \<and> unat nid \<le> InnerMap_size m + length (im_free m))"

definition InnerMap_names_ok :: "('k, 'v) InnerMap \<Rightarrow> bool" where
  "InnerMap_names_ok m \<longleftrightarrow>
     (\<forall>key nid. fmlookup (im_name_id m) key = Some nid \<longrightarrow>
        fmlookup (im_map m) nid \<noteq> None \<and>
        (\<exists>names. fmlookup (im_id_name m) nid = Some names \<and> key \<in> set names))"

definition InnerMap_inv :: "('k, 'v) InnerMap \<Rightarrow> bool" where
  "InnerMap_inv m \<longleftrightarrow> InnerMap_ids_ok m \<and> InnerMap_names_ok m"

lemma InnerMap_inv_new: "InnerMap_inv InnerMap_new"
proof -
  have "\<not> (1 \<le> unat nid \<and> unat nid \<le> 0)" for nid :: u64
    by simp
  then show ?thesis
    by (auto simp: InnerMap_inv_def InnerMap_ids_ok_def InnerMap_names_ok_def InnerMap_new_def)
qed

text \<open>An allocated id is new, and it is the next number when the free list is empty.\<close>

lemma unat_hm_len_Suc:
  "fcard (fmdom m) < 2 ^ 64 - 1 \<Longrightarrow> unat (hm_len m + 1 :: u64) = Suc (fcard (fmdom m))"
  by (simp add: hm_len_def unat_word_ariths unat_of_nat)

lemma InnerMap_insert_cases:
  assumes "InnerMap_insert v m = (nid, m')"
  obtains (reuse) rest where "im_free m = nid # rest"
      "m' = m\<lparr>im_free := rest, im_map := fmupd nid v (im_map m)\<rparr>"
    | (grow) "im_free m = []" "nid = hm_len (im_map m) + 1" "m' = m\<lparr>im_map := fmupd nid v (im_map m)\<rparr>"
  using assms by (cases "im_free m") (auto simp: InnerMap_insert_def)

lemma InnerMap_insert_fresh:
  assumes "InnerMap_ids_ok m" and "InnerMap_size m < 2 ^ 64 - 1" and "InnerMap_insert v m = (nid, m')"
  shows "fmlookup (im_map m) nid = None"
  using assms(3)
proof (cases rule: InnerMap_insert_cases)
  case (reuse rest)
  with assms(1) show ?thesis
    by (fastforce simp: InnerMap_ids_ok_def)
next
  case grow
  then have "unat nid = Suc (InnerMap_size m)"
    using assms(2) by (simp add: unat_hm_len_Suc)
  with grow(1) assms(1) show ?thesis
    by (metis InnerMap_ids_ok_def add.right_neutral list.size(3) not_less_eq_eq order_refl)
qed

lemma InnerMap_insert_map:
  "InnerMap_insert v m = (nid, m') \<Longrightarrow> im_map m' = fmupd nid v (im_map m)"
  by (erule InnerMap_insert_cases) simp_all

lemma InnerMap_insert_names:
  "InnerMap_insert v m = (nid, m') \<Longrightarrow> im_name_id m' = im_name_id m \<and> im_id_name m' = im_id_name m"
  by (erule InnerMap_insert_cases) simp_all

lemma InnerMap_insert_ids_ok:
  assumes ok: "InnerMap_ids_ok m" and room: "InnerMap_size m < 2 ^ 64 - 1"
    and ins: "InnerMap_insert v m = (nid, m')"
  shows "InnerMap_ids_ok m'"
proof -
  note new = InnerMap_insert_fresh [OF assms]
  from ins show ?thesis
  proof (cases rule: InnerMap_insert_cases)
    case (reuse rest)
    with ok new show ?thesis
      by (auto simp: InnerMap_ids_ok_def)
  next
    case grow
    then have nid: "unat nid = Suc (InnerMap_size m)"
      using room by (simp add: unat_hm_len_Suc)
    have range: "fmlookup (im_map m) i \<noteq> None \<longleftrightarrow> 1 \<le> unat i \<and> unat i \<le> InnerMap_size m" for i
      using ok grow(1) by (simp add: InnerMap_ids_ok_def)
    have "fmlookup (im_map m') i \<noteq> None \<longleftrightarrow> 1 \<le> unat i \<and> unat i \<le> InnerMap_size m'" for i
    proof -
      have "unat i \<le> Suc (InnerMap_size m) \<longleftrightarrow> i = nid \<or> unat i \<le> InnerMap_size m"
        using nid by (metis le_Suc_eq word_unat_eq_iff)
      then show ?thesis
        using grow(3) new range [of i] nid by auto
    qed
    with grow show ?thesis
      by (simp add: InnerMap_ids_ok_def)
  qed
qed

lemma InnerMap_insert_inv:
  assumes "InnerMap_inv m" and "InnerMap_size m < 2 ^ 64 - 1" and "InnerMap_insert v m = (nid, m')"
  shows "InnerMap_inv m'"
proof -
  have "InnerMap_names_ok m'"
    using assms(1) InnerMap_insert_map [OF assms(3)] InnerMap_insert_names [OF assms(3)]
    by (auto simp: InnerMap_inv_def InnerMap_names_ok_def)
  with assms show ?thesis
    by (auto simp: InnerMap_inv_def dest: InnerMap_insert_ids_ok)
qed

lemma InnerMap_set_name_map [simp]:
  "im_map (InnerMap_set_name nid key m) = im_map m"
  "im_free (InnerMap_set_name nid key m) = im_free m"
  "im_name_id (InnerMap_set_name nid key m) = fmupd key nid (im_name_id m)"
  by (simp_all add: InnerMap_set_name_def)

lemma InnerMap_set_name_inv:
  assumes "InnerMap_inv m" and "fmlookup (im_map m) nid \<noteq> None"
  shows "InnerMap_inv (InnerMap_set_name nid key m)"
proof -
  have "InnerMap_ids_ok (InnerMap_set_name nid key m)"
    using assms(1) by (simp add: InnerMap_inv_def InnerMap_ids_ok_def)
  moreover have "InnerMap_names_ok (InnerMap_set_name nid key m)"
    using assms by (fastforce simp: InnerMap_inv_def InnerMap_names_ok_def InnerMap_set_name_def
        split: option.splits)
  ultimately show ?thesis
    by (simp add: InnerMap_inv_def)
qed

lemma InnerMap_insert_with_nameE:
  assumes "InnerMap_insert_with_name v k m = (nid, m')"
  obtains m1 where "InnerMap_insert v m = (nid, m1)" "m' = InnerMap_set_name nid k m1"
  using assms by (auto simp: InnerMap_insert_with_name_def split: prod.splits)

lemma InnerMap_insert_with_name_inv:
  assumes "InnerMap_inv m" and "InnerMap_size m < 2 ^ 64 - 1"
    and "InnerMap_insert_with_name v k m = (nid, m')"
  shows "InnerMap_inv m'"
  using assms(3)
  by (rule InnerMap_insert_with_nameE)
    (auto intro!: InnerMap_set_name_inv dest: InnerMap_insert_inv [OF assms(1,2)] InnerMap_insert_map)

lemma InnerMap_insert_with_name_lookup:
  assumes inv: "InnerMap_inv m" and room: "InnerMap_size m < 2 ^ 64 - 1"
    and ins: "InnerMap_insert_with_name v k m = (nid, m')"
  shows "NamedMap_get m nid = None"
    and "NamedMap_get m' j = (if j = nid then Some v else NamedMap_get m j)"
    and "NamedMap_get_by_name m' k' = (if k' = k then Some v else NamedMap_get_by_name m k')"
    and "InnerMap_size m' = Suc (InnerMap_size m)"
proof -
  from ins obtain m1 where m1: "InnerMap_insert v m = (nid, m1)" and m': "m' = InnerMap_set_name nid k m1"
    by (rule InnerMap_insert_with_nameE)
  have new: "fmlookup (im_map m) nid = None"
    using inv room m1 by (auto simp: InnerMap_inv_def dest: InnerMap_insert_fresh)
  note [simp] = InnerMap_insert_map [OF m1] InnerMap_insert_names [OF m1]
  show "NamedMap_get m nid = None" and "InnerMap_size m' = Suc (InnerMap_size m)"
    and "NamedMap_get m' j = (if j = nid then Some v else NamedMap_get m j)"
    using new by (simp_all add: NamedMap_get_def m')
  show "NamedMap_get_by_name m' k' = (if k' = k then Some v else NamedMap_get_by_name m k')"
    using inv new by (fastforce simp: NamedMap_get_by_name_def m' InnerMap_inv_def InnerMap_names_ok_def
        split: option.splits)
qed

subsection \<open>What the table provides\<close>

text \<open>Looking a session up by name is a registry: the client opens each name and key once.\<close>

interpretation sessions: registry
  "NamedMap_get_by_name :: ('k, 'v) InnerMap \<Rightarrow> 'k \<Rightarrow> 'v option"
  "Some :: 'k \<Rightarrow> 'k option"
  "\<lambda>name value m. snd (NamedMap_insert_with_name value name m)"
  "InnerMap_size" "2 ^ 64 - 1" InnerMap_inv
proof (unfold_locales, goal_cases)
  case (1 m x h k)
  then show ?case
    using InnerMap_insert_with_name_lookup(3) [OF 1, of h x "fst (InnerMap_insert_with_name h x m)"]
    by (simp add: NamedMap_insert_with_name_def eq_commute)
next
  case (2 m x h)
  then show ?case
    using InnerMap_insert_with_name_inv [OF 2, of h x "fst (InnerMap_insert_with_name h x m)"]
    by (simp add: NamedMap_insert_with_name_def)
next
  case (3 m x h)
  then show ?case
    using InnerMap_insert_with_name_lookup(4) [OF 3, of h x "fst (InnerMap_insert_with_name h x m)"]
    by (simp add: NamedMap_insert_with_name_def)
qed

text \<open>The client drives the table with these steps: a new session, or another name for one.\<close>

inductive NamedMap_step :: "('k, 'v) InnerMap \<Rightarrow> ('k, 'v) InnerMap \<Rightarrow> bool" where
  new_session: "InnerMap_size m < 2 ^ 64 - 1 \<Longrightarrow> NamedMap_insert_with_name v k m = (nid, m') \<Longrightarrow>
    NamedMap_step m m'"
| new_alias: "NamedMap_get m nid \<noteq> None \<Longrightarrow> NamedMap_step m (NamedMap_set_name nid k m)"

definition NamedMap_client_inv :: "('k, 'v) InnerMap \<Rightarrow> bool" where
  "NamedMap_client_inv m \<longleftrightarrow> InnerMap_inv m \<and> im_free m = []"

lemma NamedMap_step_inv:
  assumes "NamedMap_client_inv m" and "NamedMap_step m m'"
  shows "NamedMap_client_inv m'"
  using assms(2,1)
proof cases
  case (new_session v k nid)
  then have ins: "InnerMap_insert_with_name v k m = (nid, m')"
    by (simp add: NamedMap_insert_with_name_def)
  then have "im_free m' = []"
    using assms(1) by (auto simp: NamedMap_client_inv_def elim!: InnerMap_insert_with_nameE
        elim: InnerMap_insert_cases)
  with new_session ins assms(1) show ?thesis
    by (auto simp: NamedMap_client_inv_def intro: InnerMap_insert_with_name_inv)
next
  case (new_alias nid k)
  with assms(1) show ?thesis
    by (auto simp: NamedMap_client_inv_def NamedMap_set_name_def NamedMap_get_def intro: InnerMap_set_name_inv)
qed

interpretation named_map: transition_system
  "\<lambda>m :: ('k, 'v) InnerMap. m = NamedMap_new" NamedMap_step NamedMap_client_inv
proof (unfold_locales, goal_cases)
  case 1
  then show ?case
    by (simp add: NamedMap_client_inv_def NamedMap_new_def InnerMap_inv_new) (simp add: InnerMap_new_def)
next
  case 2
  then show ?case by (rule NamedMap_step_inv)
qed

subsection \<open>What the client relies on\<close>

text \<open>
  Opening a session hands out an id that was not in use; afterwards that id and that name resolve to
  the new session, every other id and every other name resolves to what it did before, and the table
  stays well formed.
\<close>

theorem NamedMap_insert_with_name_found:
  assumes "InnerMap_inv m" and "InnerMap_size m < 2 ^ 64 - 1"
    and "NamedMap_insert_with_name v k m = (nid, m')"
  shows "NamedMap_get m nid = None \<and> InnerMap_inv m' \<and>
    (\<forall>i. NamedMap_get m' i = (if i = nid then Some v else NamedMap_get m i)) \<and>
    (\<forall>j. NamedMap_get_by_name m' j = (if j = k then Some v else NamedMap_get_by_name m j))"
  using assms InnerMap_insert_with_name_lookup [of m v k nid m'] InnerMap_insert_with_name_inv [of m v k nid m']
  by (simp add: NamedMap_insert_with_name_def)

lemma sample_session:
  "NamedMap_insert_with_name True ''a'' (NamedMap_new :: (string, bool) InnerMap)
     = (1, \<lparr>im_map = fmupd 1 True fmempty, im_name_id = fmupd ''a'' 1 fmempty,
            im_id_name = fmupd 1 [''a''] fmempty, im_free = []\<rparr>)"
  by (simp add: NamedMap_insert_with_name_def InnerMap_insert_with_name_def InnerMap_insert_def
      InnerMap_set_name_def NamedMap_new_def InnerMap_new_def)

theorem NamedMap_insert_with_name_found_witness:
  "\<exists>m. NamedMap_insert_with_name True ''a'' (NamedMap_new :: (string, bool) InnerMap) = (1, m) \<and>
     NamedMap_get m 1 = Some True \<and> NamedMap_get_by_name m ''a'' = Some True \<and> NamedMap_get_by_name m ''b'' = None"
proof -
  have "InnerMap_size (NamedMap_new :: (string, bool) InnerMap) < 2 ^ 64 - 1"
    by (simp add: NamedMap_new_def InnerMap_new_def)
  moreover have "InnerMap_inv (NamedMap_new :: (string, bool) InnerMap)"
    by (simp add: NamedMap_new_def InnerMap_inv_new)
  moreover have "NamedMap_get_by_name (NamedMap_new :: (string, bool) InnerMap) ''b'' = None"
    by (simp add: NamedMap_new_def InnerMap_new_def NamedMap_get_by_name_def)
  ultimately show ?thesis
    using NamedMap_insert_with_name_found [OF _ _ sample_session] sample_session by auto
qed

text \<open>
  C35. In every state the client can bring its session table to, by opening sessions and giving them
  further names, the session ids are exactly \<open>1 .. n\<close> for \<open>n\<close> sessions, so that an id is never handed out
  twice, and every name that has an id resolves to a session.
\<close>

theorem NamedMap_reachable_ids:
  assumes "NamedMap_step\<^sup>*\<^sup>* NamedMap_new m"
  shows "(\<forall>nid. NamedMap_get m nid \<noteq> None \<longleftrightarrow> 1 \<le> unat nid \<and> unat nid \<le> InnerMap_size m) \<and>
    (\<forall>k nid. fmlookup (im_name_id m) k = Some nid \<longrightarrow> NamedMap_get_by_name m k \<noteq> None)"
proof -
  have "NamedMap_client_inv m"
    using named_map.inv_reachable [OF refl assms] .
  then show ?thesis
    by (fastforce simp: NamedMap_client_inv_def InnerMap_inv_def InnerMap_ids_ok_def InnerMap_names_ok_def
        NamedMap_get_def NamedMap_get_by_name_def split: option.splits)
qed

theorem NamedMap_reachable_ids_witness:
  "\<exists>m. NamedMap_step\<^sup>*\<^sup>* (NamedMap_new :: (string, bool) InnerMap) m \<and> NamedMap_get m 1 \<noteq> None \<and> NamedMap_get m 2 = None"
proof -
  obtain m where m: "NamedMap_insert_with_name True ''a'' (NamedMap_new :: (string, bool) InnerMap) = (1, m)"
    and size: "InnerMap_size m = 1"
    using sample_session by simp
  have "InnerMap_size (NamedMap_new :: (string, bool) InnerMap) < 2 ^ 64 - 1"
    by (simp add: NamedMap_new_def InnerMap_new_def)
  with m have run: "NamedMap_step\<^sup>*\<^sup>* (NamedMap_new :: (string, bool) InnerMap) m"
    by (blast intro: NamedMap_step.new_session)
  have ids: "NamedMap_get m nid \<noteq> None \<longleftrightarrow> 1 \<le> unat nid \<and> unat nid \<le> 1" for nid
    using NamedMap_reachable_ids [OF run] size by simp
  show ?thesis
    using run ids [of 1] ids [of 2] by auto
qed

end
