(* ===== verification/Remote_Core.thy ===== *)
theory Remote_Core
  imports Named_Map Rpc_Schema
begin

section \<open>The client's corestore and hypercores (\<open>client/src/session.rs\<close>)\<close>

text \<open>
  \<open>RemoteCorestore\<close> opens feeds on the server and keeps one session per feed; a \<open>RemoteHypercore\<close> is a
  handle to a shared cell (\<open>InnerHypercore\<close>) that mirrors the feed's length and byte length.  The server
  calls back with \<open>on_append\<close> and \<open>on_download\<close>.

  The generated RPC client, \<open>hex::encode\<close> and whether the receiver of an event channel is still there are
  the record \<open>cl_ext\<close>; its calls act on a world of any type \<open>'w\<close>.  Channels are numbered in the order they
  are made.  A listener's channel holds 100 events; waiting for a slow listener to take one is not
  modelled.
\<close>

record 'w cl_ext =
  rpc_open :: "open_request \<Rightarrow> ('w, open_response) rust"
  rpc_append :: "append_request \<Rightarrow> ('w, append_response) rust"
  rpc_get :: "get_request \<Rightarrow> ('w, get_response) rust"
  rpc_seek :: "seek_request \<Rightarrow> ('w, seek_response) rust"
  hex_encode :: "bytes \<Rightarrow> string"
  receiver_alive :: "nat \<Rightarrow> bool"

datatype hypercore_event = HypercoreAppend | HypercoreDownload u64

record inner_hypercore =
  ih_id :: u64
  ih_name :: "string option"
  ih_key :: "bytes option"
  ih_length :: u64
  ih_byte_length :: u64
  ih_writable :: bool
  ih_open :: bool
  ih_listeners :: "nat list"

record 'w cl_state =
  cl_sessions :: "(string, ref) InnerMap"
  cl_resource_counter :: u64
  cl_cores :: "inner_hypercore store"
  cl_channels :: nat
  cl_events :: "(nat \<times> hypercore_event) list"
  cl_world :: 'w

definition on_server :: "('w, 'a) rust \<Rightarrow> ('w cl_state, 'a) rust" where
  "on_server m = (\<lambda>s. case m (cl_world s) of (r, w) \<Rightarrow> (r, s\<lparr>cl_world := w\<rparr>))"

text \<open>\<open>self.inner.read()\<close> and \<open>self.inner.write()\<close>; a handle always points to a cell.\<close>

definition read_core :: "ref \<Rightarrow> (inner_hypercore \<Rightarrow> 'a) \<Rightarrow> ('w cl_state, 'a) rust" where
  "read_core q g = (\<lambda>s. case deref (cl_cores s) q of
     None \<Rightarrow> (Inl (Panic ''dangling handle''), s) | Some inner \<Rightarrow> (Inr (g inner), s))"

definition write_core :: "ref \<Rightarrow> (inner_hypercore \<Rightarrow> inner_hypercore) \<Rightarrow> ('w cl_state, unit) rust" where
  "write_core q g = (\<lambda>s. case deref (cl_cores s) q of
     None \<Rightarrow> (Inl (Panic ''dangling handle''), s) | Some inner \<Rightarrow> (Inr (), s\<lparr>cl_cores := (cl_cores s)[q := g inner]\<rparr>))"

subsection \<open>The shared cell\<close>

definition InnerHypercore_default :: inner_hypercore where
  "InnerHypercore_default =
     \<lparr>ih_id = 0, ih_name = None, ih_key = None, ih_length = 0, ih_byte_length = 0, ih_writable = False,
      ih_open = False, ih_listeners = []\<rparr>"

definition InnerHypercore_subscribe :: "ref \<Rightarrow> ('w cl_state, nat) rust" where
  "InnerHypercore_subscribe q =
     rust_bind (rust_get cl_channels) (\<lambda>c.
     rust_bind (rust_modify (\<lambda>s. s\<lparr>cl_channels := Suc c\<rparr>)) (\<lambda>_.
     rust_bind (write_core q (\<lambda>inner. inner\<lparr>ih_listeners := ih_listeners inner @ [c]\<rparr>)) (\<lambda>_.
     rust_return c)))"

definition InnerHypercore_len :: "inner_hypercore \<Rightarrow> u64" where
  "InnerHypercore_len inner = ih_length inner"

text \<open>All sends run to their end (\<open>join_all\<close>); a send to a receiver that is gone is ignored.\<close>

definition InnerHypercore_emit :: "'w cl_ext \<Rightarrow> hypercore_event \<Rightarrow> ref \<Rightarrow> ('w cl_state, unit) rust" where
  "InnerHypercore_emit ext event q =
     rust_bind (read_core q ih_listeners) (\<lambda>listeners.
     rust_modify (\<lambda>s. s\<lparr>cl_events := cl_events s @ map (\<lambda>c. (c, event)) (filter (receiver_alive ext) listeners)\<rparr>))"

subsection \<open>Remote hypercores\<close>

definition RemoteHypercore_new :: "bytes option \<Rightarrow> string option \<Rightarrow> ('w cl_state, ref) rust" where
  "RemoteHypercore_new key name =
     rust_bind (rust_get (\<lambda>s. length (cl_cores s))) (\<lambda>q.
     rust_bind (rust_modify (\<lambda>s. s\<lparr>cl_cores :=
       cl_cores s @ [InnerHypercore_default\<lparr>ih_key := key, ih_name := name\<rparr>]\<rparr>)) (\<lambda>_.
     rust_return q))"

definition RemoteHypercore_set_id :: "u64 \<Rightarrow> ref \<Rightarrow> ('w cl_state, unit) rust" where
  "RemoteHypercore_set_id nid q = write_core q (\<lambda>inner. inner\<lparr>ih_id := nid\<rparr>)"

definition RemoteHypercore_len :: "ref \<Rightarrow> ('w cl_state, u64) rust" where
  "RemoteHypercore_len q = read_core q ih_length"

definition RemoteHypercore_byte_length :: "ref \<Rightarrow> ('w cl_state, u64) rust" where
  "RemoteHypercore_byte_length q = read_core q ih_byte_length"

definition RemoteHypercore_key :: "ref \<Rightarrow> ('w cl_state, bytes) rust" where
  "RemoteHypercore_key q =
     rust_bind (read_core q ih_key) (\<lambda>key.
     case key of
       Some k \<Rightarrow> rust_return k
     | None \<Rightarrow> rust_fail (Panic ''called Option::unwrap() on a None value''))"

definition RemoteHypercore_append :: "'w cl_ext \<Rightarrow> bytes list \<Rightarrow> ref \<Rightarrow> ('w cl_state, unit) rust" where
  "RemoteHypercore_append ext blocks q =
     rust_bind (read_core q ih_id) (\<lambda>nid.
     rust_bind (on_server (rpc_append ext \<lparr>ar_id = ucast nid, ar_blocks = blocks\<rparr>)) (\<lambda>res.
     write_core q (\<lambda>inner. inner\<lparr>ih_length := as_length res, ih_byte_length := as_byte_length res\<rparr>)))"

text \<open>\<open>fetch_add\<close> returns the old value and wraps around.\<close>

definition RemoteHypercore_get :: "'w cl_ext \<Rightarrow> u64 \<Rightarrow> ref \<Rightarrow> ('w cl_state, bytes option) rust" where
  "RemoteHypercore_get ext seq q =
     rust_bind (read_core q ih_id) (\<lambda>nid.
     rust_bind (rust_get cl_resource_counter) (\<lambda>resource_id.
     rust_bind (rust_modify (\<lambda>s. s\<lparr>cl_resource_counter := cl_resource_counter s + 1\<rparr>)) (\<lambda>_.
     rust_bind (on_server (rpc_get ext
       \<lparr>gr_id = ucast nid, gr_seq = seq, gr_resource_id = resource_id, gr_wait = None, gr_if_available = None,
        gr_on_wait_id = None\<rparr>)) (\<lambda>r.
     rust_return (gs_block r)))))"

text \<open>\<open>usize\<close> has 64 bits on the platforms the program runs on.\<close>

definition RemoteHypercore_seek :: "'w cl_ext \<Rightarrow> u64 \<Rightarrow> ref \<Rightarrow> ('w cl_state, u64 \<times> u64) rust" where
  "RemoteHypercore_seek ext byte_offset q =
     rust_bind (read_core q ih_id) (\<lambda>nid.
     rust_bind (on_server (rpc_seek ext
       \<lparr>sr_id = ucast nid, sr_byte_offset = byte_offset, sr_start = None, sr_end = None, sr_wait = None,
        sr_if_available = None\<rparr>)) (\<lambda>res.
     rust_return (sk_seq res, sk_block_offset res)))"

definition RemoteHypercore_subscribe :: "ref \<Rightarrow> ('w cl_state, nat) rust" where
  "RemoteHypercore_subscribe q = InnerHypercore_subscribe q"

definition RemoteHypercore_open :: "'w cl_ext \<Rightarrow> ref \<Rightarrow> ('w cl_state, unit) rust" where
  "RemoteHypercore_open ext q =
     rust_bind (read_core q ih_open) (\<lambda>is_open.
     if is_open then rust_return ()
     else
       rust_bind (read_core q (\<lambda>inner.
         \<lparr>or_id = ucast (ih_id inner), or_key = ih_key inner, or_name = ih_name inner, or_weak = None\<rparr>)) (\<lambda>req.
       rust_bind (on_server (rpc_open ext req)) (\<lambda>res.
       write_core q (\<lambda>inner. inner\<lparr>ih_key := Some (os_key res), ih_open := True, ih_length := os_length res,
         ih_byte_length := os_byte_length res, ih_writable := os_writable res\<rparr>))))"

definition RemoteHypercore_on_append :: "'w cl_ext \<Rightarrow> u64 \<Rightarrow> u64 \<Rightarrow> ref \<Rightarrow> ('w cl_state, unit) rust" where
  "RemoteHypercore_on_append ext len byte_len q =
     rust_bind (write_core q (\<lambda>inner. inner\<lparr>ih_length := len, ih_byte_length := byte_len\<rparr>)) (\<lambda>_.
     InnerHypercore_emit ext HypercoreAppend q)"

definition RemoteHypercore_on_download :: "'w cl_ext \<Rightarrow> u64 \<Rightarrow> u64 option \<Rightarrow> ref \<Rightarrow> ('w cl_state, unit) rust" where
  "RemoteHypercore_on_download ext seq byte_len q =
     rust_bind
       (case byte_len of
          Some bl \<Rightarrow> write_core q (\<lambda>inner. inner\<lparr>ih_byte_length := bl\<rparr>)
        | None \<Rightarrow> rust_return ())
       (\<lambda>_.
     rust_bind (read_core q InnerHypercore_len) (\<lambda>len.
     rust_bind
       (if seq \<ge> len then
          rust_bind (rust_lift (u64_add seq 1)) (\<lambda>len. write_core q (\<lambda>inner. inner\<lparr>ih_length := len\<rparr>))
        else rust_return ())
       (\<lambda>_.
     InnerHypercore_emit ext (HypercoreDownload seq) q)))"

subsection \<open>The remote corestore\<close>

definition RemoteCorestore_new :: "'w \<Rightarrow> 'w cl_state" where
  "RemoteCorestore_new w =
     \<lparr>cl_sessions = NamedMap_new, cl_resource_counter = 1, cl_cores = [], cl_channels = 0, cl_events = [], cl_world = w\<rparr>"

text \<open>\<open>let id = self.sessions.insert_with_name(core.clone(), name)\<close>\<close>

definition insert_session :: "ref \<Rightarrow> string \<Rightarrow> ('w cl_state, u64) rust" where
  "insert_session q name = (\<lambda>s. case NamedMap_insert_with_name q name (cl_sessions s) of
     (nid, m) \<Rightarrow> (Inr nid, s\<lparr>cl_sessions := m\<rparr>))"

definition RemoteCorestore_open_by_key :: "'w cl_ext \<Rightarrow> bytes \<Rightarrow> ('w cl_state, ref) rust" where
  "RemoteCorestore_open_by_key ext key =
     (let hkey = hex_encode ext key in
      rust_bind (rust_get (\<lambda>s. NamedMap_get_by_name (cl_sessions s) hkey)) (\<lambda>found.
      case found of
        Some core \<Rightarrow> rust_bind (RemoteHypercore_open ext core) (\<lambda>_. rust_return core)
      | None \<Rightarrow>
          rust_bind (RemoteHypercore_new (Some key) None) (\<lambda>core.
          rust_bind (insert_session core hkey) (\<lambda>nid.
          rust_bind (RemoteHypercore_set_id nid core) (\<lambda>_.
          rust_bind (RemoteHypercore_open ext core) (\<lambda>_.
          rust_return core))))))"

definition RemoteCorestore_open_by_name :: "'w cl_ext \<Rightarrow> string \<Rightarrow> ('w cl_state, ref) rust" where
  "RemoteCorestore_open_by_name ext name =
     rust_bind (rust_get (\<lambda>s. NamedMap_get_by_name (cl_sessions s) name)) (\<lambda>found.
     case found of
       Some core \<Rightarrow> rust_bind (RemoteHypercore_open ext core) (\<lambda>_. rust_return core)
     | None \<Rightarrow>
         rust_bind (RemoteHypercore_new None (Some name)) (\<lambda>core.
         rust_bind (insert_session core name) (\<lambda>nid.
         rust_bind (RemoteHypercore_set_id nid core) (\<lambda>_.
         rust_bind (RemoteHypercore_open ext core) (\<lambda>_.
         rust_bind (read_core core ih_key) (\<lambda>key.
         rust_bind
           (case key of
              Some key \<Rightarrow> rust_modify (\<lambda>s. s\<lparr>cl_sessions := NamedMap_set_name nid (hex_encode ext key) (cl_sessions s)\<rparr>)
            | None \<Rightarrow> rust_return ())
           (\<lambda>_. rust_return core)))))))"

definition RemoteCorestore_on_append :: "'w cl_ext \<Rightarrow> append_event \<Rightarrow> ('w cl_state, unit) rust" where
  "RemoteCorestore_on_append ext req =
     rust_bind (rust_get (\<lambda>s. NamedMap_get (cl_sessions s) (ae_id req))) (\<lambda>found.
     case found of
       Some core \<Rightarrow> RemoteHypercore_on_append ext (ae_length req) (ae_byte_length req) core
     | None \<Rightarrow> rust_return ())"

definition RemoteCorestore_on_download :: "'w cl_ext \<Rightarrow> download_event \<Rightarrow> ('w cl_state, unit) rust" where
  "RemoteCorestore_on_download ext req =
     rust_bind (rust_get (\<lambda>s. NamedMap_get (cl_sessions s) (de_id req))) (\<lambda>found.
     case found of
       Some core \<Rightarrow> RemoteHypercore_on_download ext (de_seq req) (de_byte_length req) core
     | None \<Rightarrow> rust_return ())"

text \<open>The handler of whichever event the server sends.\<close>

definition RemoteCorestore_on_event :: "'w cl_ext \<Rightarrow> client_event \<Rightarrow> ('w cl_state, unit) rust" where
  "RemoteCorestore_on_event ext ev =
     (case ev of OnAppend req \<Rightarrow> RemoteCorestore_on_append ext req
      | OnDownload req \<Rightarrow> RemoteCorestore_on_download ext req)"

end
