(* ===== verification/Remote_Core_Props.thy ===== *)
theory Remote_Core_Props
  imports Remote_Core HS_Interfaces
begin

section \<open>What the client guarantees\<close>

text \<open>
  The invariant of the client (every session id leads to the cell that has this id, and event channels
  are distinct), that all operations and the server's calls keep it, and what the operations return.
\<close>

subsection \<open>Running the operations\<close>

lemma read_core_run: "deref (cl_cores s) q = Some i \<Longrightarrow> read_core q g s = (Inr (g i), s)"
  by (simp add: read_core_def)

lemma write_core_run:
  "deref (cl_cores s) q = Some i \<Longrightarrow> write_core q g s = (Inr (), s\<lparr>cl_cores := (cl_cores s)[q := g i]\<rparr>)"
  by (simp add: write_core_def)

lemma read_core_bind: "deref (cl_cores s) q = Some i \<Longrightarrow> rust_bind (read_core q g) f s = f (g i) s"
  by (simp add: rust_bind_apply read_core_run)

lemma write_core_bind:
  "deref (cl_cores s) q = Some i \<Longrightarrow> rust_bind (write_core q g) f s = f () (s\<lparr>cl_cores := (cl_cores s)[q := g i]\<rparr>)"
  by (simp add: rust_bind_apply write_core_run)

lemma on_serverE:
  assumes "on_server m s = (r, s')"
  obtains w where "m (cl_world s) = (r, w)" "s' = s\<lparr>cl_world := w\<rparr>"
  using assms by (cases "m (cl_world s)") (auto simp: on_server_def)

text \<open>What the invariant looks at, and that most operations leave it alone.\<close>

definition cl_view :: "'w cl_state \<Rightarrow> (string, ref) InnerMap \<times> nat \<times> (nat \<times> hypercore_event) list \<times> (u64 \<times> nat list) list" where
  "cl_view s = (cl_sessions s, cl_channels s, cl_events s, map (\<lambda>i. (ih_id i, ih_listeners i)) (cl_cores s))"

lemma view_read_core [frame_intros]: "preserves v (read_core q g)"
  by (simp add: preserves_def read_core_def split: option.splits)

lemma view_on_server [frame_intros]: "preserves cl_view (on_server m)"
  by (simp add: preserves_def on_server_def cl_view_def split: prod.splits)

lemma view_write_core:
  assumes "\<And>i. ih_id (g i) = ih_id i \<and> ih_listeners (g i) = ih_listeners i"
  shows "preserves cl_view (write_core q g)"
  using assms by (auto simp: preserves_def write_core_def cl_view_def map_update deref_eq_Some
      list_update_same_conv split: option.splits)

lemma view_open [frame_intros]: "preserves cl_view (RemoteHypercore_open ext q)"
  unfolding RemoteHypercore_open_def by (intro frame_intros view_write_core) simp

lemma view_append: "preserves cl_view (RemoteHypercore_append ext blocks q)"
  unfolding RemoteHypercore_append_def by (intro frame_intros view_write_core) simp

lemma view_get: "preserves cl_view (RemoteHypercore_get ext seq q)"
  unfolding RemoteHypercore_get_def by (intro frame_intros) (simp add: cl_view_def)

lemma view_seek: "preserves cl_view (RemoteHypercore_seek ext off q)"
  unfolding RemoteHypercore_seek_def by (intro frame_intros)

subsection \<open>The invariant\<close>

definition sessions_ok :: "'w cl_state \<Rightarrow> bool" where
  "sessions_ok s \<longleftrightarrow>
     NamedMap_client_inv (cl_sessions s) \<and>
     (\<forall>nid q. NamedMap_get (cl_sessions s) nid = Some q \<longrightarrow>
        (\<exists>i. deref (cl_cores s) q = Some i \<and> ih_id i = nid))"

definition channels_ok :: "'w cl_state \<Rightarrow> bool" where
  "channels_ok s \<longleftrightarrow>
     (\<forall>q i. deref (cl_cores s) q = Some i \<longrightarrow> distinct (ih_listeners i) \<and> (\<forall>c \<in> set (ih_listeners i). c < cl_channels s)) \<and>
     (\<forall>p \<in> set (cl_events s). fst p < cl_channels s)"

definition client_inv :: "'w cl_state \<Rightarrow> bool" where
  "client_inv s \<longleftrightarrow> sessions_ok s \<and> channels_ok s"

abbreviation cl_room :: "'w cl_state \<Rightarrow> bool" where
  "cl_room s \<equiv> InnerMap_size (cl_sessions s) < 2 ^ 64 - 1"

lemma cl_view_cell:
  assumes "cl_view s' = cl_view s" and "deref (cl_cores s) q = Some i"
  obtains i' where "deref (cl_cores s') q = Some i'" "ih_id i' = ih_id i" "ih_listeners i' = ih_listeners i"
proof -
  have cells: "map (\<lambda>i. (ih_id i, ih_listeners i)) (cl_cores s') = map (\<lambda>i. (ih_id i, ih_listeners i)) (cl_cores s)"
    using assms(1) by (simp add: cl_view_def)
  then have "length (cl_cores s') = length (cl_cores s)"
    by (rule map_eq_imp_length_eq)
  moreover have "(\<lambda>i. (ih_id i, ih_listeners i)) (cl_cores s' ! q) = (\<lambda>i. (ih_id i, ih_listeners i)) (cl_cores s ! q)"
    using cells assms(2) calculation by (metis (no_types, lifting) deref_eq_Some nth_map)
  ultimately show ?thesis
    using assms(2) that [of "cl_cores s' ! q"] by (auto simp: deref_eq_Some)
qed

lemma client_inv_view:
  assumes view: "cl_view s' = cl_view s" and inv: "client_inv s"
  shows "client_inv s'"
proof -
  have same: "cl_sessions s' = cl_sessions s" "cl_channels s' = cl_channels s" "cl_events s' = cl_events s"
    using view by (simp_all add: cl_view_def)
  have "sessions_ok s'"
    using inv same by (auto simp: client_inv_def sessions_ok_def) (metis cl_view_cell [OF view])
  moreover have "channels_ok s'"
    using inv same unfolding client_inv_def channels_ok_def by (metis cl_view_cell [OF view [symmetric]])
  ultimately show ?thesis by (simp add: client_inv_def)
qed

lemma client_inv_preserves: "preserves cl_view m \<Longrightarrow> client_inv s \<Longrightarrow> m s = (r, s') \<Longrightarrow> client_inv s'"
  by (blast intro: client_inv_view preservesD)

subsection \<open>Events\<close>

abbreviation core_listeners :: "ref \<Rightarrow> 'w cl_state \<Rightarrow> nat list" where
  "core_listeners q s \<equiv> (case deref (cl_cores s) q of None \<Rightarrow> [] | Some i \<Rightarrow> ih_listeners i)"

lemma emit_state:
  "snd (InnerHypercore_emit ext e q s) =
     s\<lparr>cl_events := cl_events s @ map (\<lambda>c. (c, e)) (filter (receiver_alive ext) (core_listeners q s))\<rparr>"
  by (simp add: InnerHypercore_emit_def rust_bind_apply read_core_def rust_modify_apply split: option.splits)

lemma hypercore_emit_run:
  "deref (cl_cores s) q = Some i \<Longrightarrow>
   InnerHypercore_emit ext e q s = (Inr (), s\<lparr>cl_events := cl_events s @ map (\<lambda>c. (c, e)) (filter (receiver_alive ext) (ih_listeners i))\<rparr>)"
  by (simp add: InnerHypercore_emit_def read_core_bind rust_modify_apply)

lemma subscribe_run:
  "deref (cl_cores s) q = Some i \<Longrightarrow>
   InnerHypercore_subscribe q s = (Inr (cl_channels s), s\<lparr>cl_channels := Suc (cl_channels s),
     cl_cores := (cl_cores s)[q := i\<lparr>ih_listeners := ih_listeners i @ [cl_channels s]\<rparr>]\<rparr>)"
  by (simp add: InnerHypercore_subscribe_def rust_bind_apply rust_get_apply rust_modify_apply write_core_run
      rust_return_apply)

lemma subscribe_dangling:
  "deref (cl_cores s) q = None \<Longrightarrow>
   snd (InnerHypercore_subscribe q s) = s\<lparr>cl_channels := Suc (cl_channels s)\<rparr>"
  by (simp add: InnerHypercore_subscribe_def rust_bind_apply rust_get_apply rust_modify_apply write_core_def)

lemma channels_ok_emit: "channels_ok s \<Longrightarrow> channels_ok (snd (InnerHypercore_emit ext e q s))"
  by (cases "deref (cl_cores s) q") (auto simp: emit_state channels_ok_def)

lemma channels_ok_subscribe:
  assumes ok: "channels_ok s"
  shows "channels_ok (snd (InnerHypercore_subscribe q s))"
proof (cases "deref (cl_cores s) q")
  case None
  with ok show ?thesis
    by (simp add: subscribe_dangling channels_ok_def) (meson less_SucI)
next
  case (Some i)
  then have "distinct (ih_listeners i)" "\<forall>c \<in> set (ih_listeners i). c < cl_channels s"
    using ok by (auto simp: channels_ok_def)
  with ok Some show ?thesis
    by (auto simp: subscribe_run [OF Some] channels_ok_def deref_eq_Some less_SucI split: if_splits)
qed

lemma sessions_ok_emit: "sessions_ok s \<Longrightarrow> sessions_ok (snd (InnerHypercore_emit ext e q s))"
  by (simp add: emit_state sessions_ok_def)

lemma sessions_ok_subscribe: "sessions_ok s \<Longrightarrow> sessions_ok (snd (InnerHypercore_subscribe q s))"
proof (cases "deref (cl_cores s) q")
  case None
  then show "sessions_ok s \<Longrightarrow> ?thesis" by (simp add: subscribe_dangling sessions_ok_def)
next
  case (Some i)
  then show "sessions_ok s \<Longrightarrow> ?thesis"
    by (fastforce simp: subscribe_run [OF Some] sessions_ok_def)
qed

text \<open>Each remote hypercore is an event bus.\<close>

interpretation hypercore_bus: event_bus
  "core_listeners q" "cl_events :: 'w cl_state \<Rightarrow> (nat \<times> hypercore_event) list"
  "\<lambda>s. (projr (fst (InnerHypercore_subscribe q s)), snd (InnerHypercore_subscribe q s))"
  "\<lambda>e s. snd (InnerHypercore_emit ext e q s)" "receiver_alive ext"
  "\<lambda>s. channels_ok s \<and> deref (cl_cores s) q \<noteq> None"
  for ext :: "'w cl_ext" and q :: ref
proof (unfold_locales, goal_cases)
  case (1 s)
  then show ?case by (auto simp: channels_ok_def)
next
  case (2 s c s')
  then obtain i where i: "deref (cl_cores s) q = Some i" by auto
  then have "\<forall>c \<in> set (ih_listeners i). c < cl_channels s" using 2(1) by (auto simp: channels_ok_def)
  moreover have "q < length (cl_cores s)" using i by (simp add: deref_eq_Some)
  ultimately show ?case using 2(2) i by (auto simp: subscribe_run [OF i])
next
  case (3 s c s')
  then obtain i where i: "deref (cl_cores s) q = Some i" by auto
  have "received (cl_channels s) (cl_events s) = []"
    using 3(1) by (auto simp: received_def channels_ok_def filter_empty_conv)
  with 3(2) show ?case by (auto simp: subscribe_run [OF i])
next
  case (4 s)
  then obtain i where "deref (cl_cores s) q = Some i" by auto
  with 4 channels_ok_subscribe [of s q] show ?case by (auto simp: subscribe_run deref_eq_Some)
next
  case (5 e s)
  show ?case by (simp add: emit_state)
next
  case (6 s e)
  then have "filter (receiver_alive ext) (core_listeners q s) = core_listeners q s"
    by (intro filter_True) auto
  then show ?case by (simp add: emit_state)
next
  case (7 s e)
  with channels_ok_emit [of s ext e q] show ?case by (simp add: emit_state)
qed

lemma client_inv_emit: "client_inv s \<Longrightarrow> InnerHypercore_emit ext e q s = (r, s') \<Longrightarrow> client_inv s'"
  using channels_ok_emit [of s ext e q] sessions_ok_emit [of s ext e q] by (simp add: client_inv_def)

lemma client_inv_subscribe: "client_inv s \<Longrightarrow> InnerHypercore_subscribe q s = (r, s') \<Longrightarrow> client_inv s'"
  using channels_ok_subscribe [of s q] sessions_ok_subscribe [of s q] by (simp add: client_inv_def)

lemma on_append_inv:
  assumes "client_inv s" and "RemoteHypercore_on_append ext len bl q s = (r, s')"
  shows "client_inv s'"
proof -
  have pre: "preserves cl_view (write_core q (\<lambda>inner. inner\<lparr>ih_length := len, ih_byte_length := bl\<rparr>))"
    by (intro view_write_core) simp
  from assms(2) show ?thesis unfolding RemoteHypercore_on_append_def
    by (cases rule: rust_bindE) (use client_inv_preserves [OF pre assms(1)] client_inv_emit in blast)+
qed

lemma on_download_inv:
  assumes "client_inv s" and "RemoteHypercore_on_download ext seq bl q s = (r, s')"
  shows "client_inv s'"
proof -
  let ?pre = "rust_bind (case bl of Some bl \<Rightarrow> write_core q (\<lambda>inner. inner\<lparr>ih_byte_length := bl\<rparr>) | None \<Rightarrow> rust_return ())
    (\<lambda>_. rust_bind (read_core q InnerHypercore_len) (\<lambda>len.
       if seq \<ge> len then rust_bind (rust_lift (u64_add seq 1)) (\<lambda>len. write_core q (\<lambda>inner. inner\<lparr>ih_length := len\<rparr>))
       else rust_return ()))"
  have pre: "preserves cl_view ?pre"
    by (intro frame_intros view_write_core) simp_all
  have "rust_bind ?pre (\<lambda>_. InnerHypercore_emit ext (HypercoreDownload seq) q) s = (r, s')"
    using assms(2) by (simp add: RemoteHypercore_on_download_def rust_bind_assoc)
  then show ?thesis
    by (cases rule: rust_bindE) (use client_inv_preserves [OF pre assms(1)] client_inv_emit in blast)+
qed

subsection \<open>Opening\<close>

lemma open_open: "deref (cl_cores s) q = Some i \<Longrightarrow> ih_open i \<Longrightarrow> RemoteHypercore_open ext q s = (Inr (), s)"
  by (simp add: RemoteHypercore_open_def read_core_bind rust_return_apply)

text \<open>The request a handle sends to open its feed, and the cell after the answer.\<close>

definition open_req :: "inner_hypercore \<Rightarrow> open_request" where
  "open_req i = \<lparr>or_id = ucast (ih_id i), or_key = ih_key i, or_name = ih_name i, or_weak = None\<rparr>"

definition opened_cell :: "open_response \<Rightarrow> inner_hypercore \<Rightarrow> inner_hypercore" where
  "opened_cell res i = i\<lparr>ih_key := Some (os_key res), ih_open := True, ih_length := os_length res,
     ih_byte_length := os_byte_length res, ih_writable := os_writable res\<rparr>"

lemma opened_cell_simps [simp]:
  "ih_key (opened_cell res i) = Some (os_key res)" "ih_open (opened_cell res i)" "ih_id (opened_cell res i) = ih_id i"
  "ih_name (opened_cell res i) = ih_name i" "ih_listeners (opened_cell res i) = ih_listeners i"
  "ih_length (opened_cell res i) = os_length res" "ih_byte_length (opened_cell res i) = os_byte_length res"
  "ih_writable (opened_cell res i) = os_writable res"
  by (simp_all add: opened_cell_def)

lemma open_closed:
  "deref (cl_cores s) q = Some i \<Longrightarrow> \<not> ih_open i \<Longrightarrow>
   RemoteHypercore_open ext q s = (case rpc_open ext (open_req i) (cl_world s) of
     (Inl e, w) \<Rightarrow> (Inl e, s\<lparr>cl_world := w\<rparr>)
   | (Inr res, w) \<Rightarrow> (Inr (), s\<lparr>cl_world := w, cl_cores := (cl_cores s)[q := opened_cell res i]\<rparr>))"
  by (cases "rpc_open ext (open_req i) (cl_world s)"; cases "fst (rpc_open ext (open_req i) (cl_world s))")
    (auto simp: RemoteHypercore_open_def rust_bind_apply read_core_run on_server_def write_core_run
      open_req_def opened_cell_def)

lemma open_returns:
  assumes cell: "deref (cl_cores s) q = Some i" and run: "RemoteHypercore_open ext q s = (Inr (), s')"
  obtains i' where "deref (cl_cores s') q = Some i'" "ih_open i'" "ih_id i' = ih_id i" "cl_sessions s' = cl_sessions s"
    "\<not> ih_open i \<Longrightarrow> \<exists>res. rpc_open ext (open_req i) (cl_world s) = (Inr res, cl_world s') \<and> i' = opened_cell res i"
proof (cases "ih_open i")
  case True
  with cell run that [of i] show ?thesis by (auto simp: open_open)
next
  case False
  with run obtain res w where "rpc_open ext (open_req i) (cl_world s) = (Inr res, w)"
      "s' = s\<lparr>cl_world := w, cl_cores := (cl_cores s)[q := opened_cell res i]\<rparr>"
    by (auto simp: open_closed [OF cell] split: prod.splits sum.splits)
  with cell that [of "opened_cell res i"] show ?thesis by (auto simp: deref_eq_Some)
qed

text \<open>The state in which a new session has its id and asks the server to open it.\<close>

definition with_session :: "bytes option \<Rightarrow> string option \<Rightarrow> string \<Rightarrow> 'w cl_state \<Rightarrow> 'w cl_state" where
  "with_session key name label s =
     (case NamedMap_insert_with_name (length (cl_cores s)) label (cl_sessions s) of (nid, m) \<Rightarrow>
        s\<lparr>cl_cores := cl_cores s @ [InnerHypercore_default\<lparr>ih_key := key, ih_name := name, ih_id := nid\<rparr>],
          cl_sessions := m\<rparr>)"

lemma with_session_run:
  "rust_bind (RemoteHypercore_new key name) (\<lambda>core. rust_bind (insert_session core label) (\<lambda>nid.
     rust_bind (RemoteHypercore_set_id nid core) (\<lambda>_. g core nid))) s
   = g (length (cl_cores s)) (fst (NamedMap_insert_with_name (length (cl_cores s)) label (cl_sessions s)))
       (with_session key name label s)"
proof -
  obtain nid m where m: "NamedMap_insert_with_name (length (cl_cores s)) label (cl_sessions s) = (nid, m)" by fastforce
  let ?s = "s\<lparr>cl_cores := cl_cores s @ [InnerHypercore_default\<lparr>ih_key := key, ih_name := name\<rparr>], cl_sessions := m\<rparr>"
  have "write_core (length (cl_cores s)) (\<lambda>inner. inner\<lparr>ih_id := nid\<rparr>) ?s = (Inr (), with_session key name label s)"
    by (simp add: write_core_def with_session_def m)
  with m show ?thesis
    by (simp add: RemoteHypercore_new_def rust_bind_apply rust_get_apply rust_modify_apply rust_return_apply
        insert_session_def RemoteHypercore_set_id_def)
qed

lemma with_session_inv:
  assumes inv: "client_inv s" and room: "cl_room s"
    and m: "NamedMap_insert_with_name (length (cl_cores s)) label (cl_sessions s) = (nid, m)"
    and t: "t = with_session key name label s"
  shows "client_inv t"
    and "deref (cl_cores t) (length (cl_cores s)) =
      Some (InnerHypercore_default\<lparr>ih_key := key, ih_name := name, ih_id := nid\<rparr>)"
    and "NamedMap_get (cl_sessions t) nid = Some (length (cl_cores s))"
    and "NamedMap_get_by_name (cl_sessions t) n =
      (if n = label then Some (length (cl_cores s)) else NamedMap_get_by_name (cl_sessions s) n)"
proof -
  have ci: "NamedMap_client_inv (cl_sessions s)" using inv by (simp add: client_inv_def sessions_ok_def)
  then have ii: "InnerMap_inv (cl_sessions s)" by (simp add: NamedMap_client_inv_def)
  have m': "InnerMap_insert_with_name (length (cl_cores s)) label (cl_sessions s) = (nid, m)"
    using m by (simp add: NamedMap_insert_with_name_def)
  note lookup = InnerMap_insert_with_name_lookup [OF ii room m']
  have t': "t = s\<lparr>cl_cores := cl_cores s @ [InnerHypercore_default\<lparr>ih_key := key, ih_name := name, ih_id := nid\<rparr>],
      cl_sessions := m\<rparr>"
    by (simp add: t with_session_def m)
  have "NamedMap_step (cl_sessions s) m" using room m by (rule NamedMap_step.new_session)
  then have "NamedMap_client_inv m" using ci by (rule NamedMap_step_inv [rotated])
  moreover have "\<exists>i. deref (cl_cores t) q = Some i \<and> ih_id i = j" if j: "NamedMap_get m j = Some q" for j q
  proof (cases "j = nid")
    case True
    with j lookup(2) [of j] show ?thesis by (simp add: t')
  next
    case False
    with j lookup(2) [of j] inv obtain i where "deref (cl_cores s) q = Some i" "ih_id i = j"
      by (auto simp: client_inv_def sessions_ok_def)
    then show ?thesis by (auto simp: t' deref_eq_Some nth_append)
  qed
  ultimately have "sessions_ok t" by (simp add: t' sessions_ok_def)
  moreover have "channels_ok t"
    using inv by (auto simp: t' client_inv_def channels_ok_def deref_eq_Some nth_append less_Suc_eq
        InnerHypercore_default_def)
  ultimately show "client_inv t" by (simp add: client_inv_def)
  show "NamedMap_get (cl_sessions t) nid = Some (length (cl_cores s))"
    and "NamedMap_get_by_name (cl_sessions t) n =
      (if n = label then Some (length (cl_cores s)) else NamedMap_get_by_name (cl_sessions s) n)"
    and "deref (cl_cores t) (length (cl_cores s)) =
      Some (InnerHypercore_default\<lparr>ih_key := key, ih_name := name, ih_id := nid\<rparr>)"
    using lookup(2,3) by (simp_all add: t')
qed

lemma open_by_key_found:
  "NamedMap_get_by_name (cl_sessions s) (hex_encode ext k) = Some q \<Longrightarrow>
   RemoteCorestore_open_by_key ext k s = rust_bind (RemoteHypercore_open ext q) (\<lambda>_. rust_return q) s"
  by (simp add: RemoteCorestore_open_by_key_def Let_def rust_get_bind_apply)

lemma open_by_key_new:
  "NamedMap_get_by_name (cl_sessions s) (hex_encode ext k) = None \<Longrightarrow>
   RemoteCorestore_open_by_key ext k s =
     rust_bind (RemoteHypercore_open ext (length (cl_cores s))) (\<lambda>_. rust_return (length (cl_cores s)))
       (with_session (Some k) None (hex_encode ext k) s)"
  by (simp add: RemoteCorestore_open_by_key_def Let_def rust_get_bind_apply
      with_session_run [where g = "\<lambda>core nid. rust_bind (RemoteHypercore_open ext core) (\<lambda>_. rust_return core)"])

lemma open_by_name_found:
  "NamedMap_get_by_name (cl_sessions s) n = Some q \<Longrightarrow>
   RemoteCorestore_open_by_name ext n s = rust_bind (RemoteHypercore_open ext q) (\<lambda>_. rust_return q) s"
  by (simp add: RemoteCorestore_open_by_name_def rust_get_bind_apply)

lemma open_by_name_new:
  assumes "NamedMap_get_by_name (cl_sessions s) n = None"
    and "NamedMap_insert_with_name (length (cl_cores s)) n (cl_sessions s) = (nid, m)"
  shows "RemoteCorestore_open_by_name ext n s =
     rust_bind (RemoteHypercore_open ext (length (cl_cores s))) (\<lambda>_.
     rust_bind (read_core (length (cl_cores s)) ih_key) (\<lambda>key.
     rust_bind (case key of Some key \<Rightarrow> rust_modify (\<lambda>s. s\<lparr>cl_sessions := NamedMap_set_name nid (hex_encode ext key) (cl_sessions s)\<rparr>)
         | None \<Rightarrow> rust_return ())
       (\<lambda>_. rust_return (length (cl_cores s)))))
       (with_session None (Some n) n s)"
  using assms(1)
  by (simp add: RemoteCorestore_open_by_name_def rust_get_bind_apply
      with_session_run [where g = "\<lambda>core nid. rust_bind (RemoteHypercore_open ext core) (\<lambda>_.
         rust_bind (read_core core ih_key) (\<lambda>key.
         rust_bind
           (case key of
              Some key \<Rightarrow> rust_modify (\<lambda>s. s\<lparr>cl_sessions := NamedMap_set_name nid (hex_encode ext key) (cl_sessions s)\<rparr>)
            | None \<Rightarrow> rust_return ())
           (\<lambda>_. rust_return core)))"] assms(2) cong: option.case_cong)

lemma session_cell:
  assumes "client_inv s" and "NamedMap_get_by_name (cl_sessions s) n = Some q"
  obtains i where "deref (cl_cores s) q = Some i" "NamedMap_get (cl_sessions s) (ih_id i) = Some q"
proof -
  obtain nid where "NamedMap_get (cl_sessions s) nid = Some q"
    using assms(2) by (auto simp: NamedMap_get_by_name_def NamedMap_get_def split: option.splits)
  with assms(1) that show ?thesis
    by (auto simp: client_inv_def sessions_ok_def)
qed

text \<open>Another name for a session keeps the invariant and every session's id.\<close>

lemma set_name_inv:
  assumes inv: "client_inv s" and nid: "NamedMap_get (cl_sessions s) nid = Some q"
    and t: "t = s\<lparr>cl_sessions := NamedMap_set_name nid n (cl_sessions s)\<rparr>"
  shows "client_inv t" and "NamedMap_get (cl_sessions t) = NamedMap_get (cl_sessions s)"
    and "NamedMap_get_by_name (cl_sessions t) n' = (if n' = n then Some q else NamedMap_get_by_name (cl_sessions s) n')"
proof -
  have ci: "NamedMap_client_inv (cl_sessions s)" using inv by (simp add: client_inv_def sessions_ok_def)
  have "NamedMap_step (cl_sessions s) (NamedMap_set_name nid n (cl_sessions s))"
    using nid by (intro NamedMap_step.new_alias) simp
  then have "NamedMap_client_inv (NamedMap_set_name nid n (cl_sessions s))" using ci by (rule NamedMap_step_inv [rotated])
  moreover show get: "NamedMap_get (cl_sessions t) = NamedMap_get (cl_sessions s)"
    by (simp add: t fun_eq_iff NamedMap_get_def NamedMap_set_name_def)
  ultimately show "client_inv t"
    using inv by (simp add: t client_inv_def sessions_ok_def channels_ok_def)
  show "NamedMap_get_by_name (cl_sessions t) n' = (if n' = n then Some q else NamedMap_get_by_name (cl_sessions s) n')"
    using nid by (simp add: t NamedMap_get_by_name_def NamedMap_set_name_def NamedMap_get_def split: option.splits)
qed

lemma open_return_cases:
  assumes "rust_bind (RemoteHypercore_open ext q) (\<lambda>_. rust_return q) s = (r, s')"
  obtains (failed) e where "RemoteHypercore_open ext q s = (Inl e, s')" "r = Inl e"
    | (opened) "RemoteHypercore_open ext q s = (Inr (), s')" "r = Inr q"
  using assms by (cases rule: rust_bindE) (auto simp: rust_return_apply)

text \<open>The state a successful \<open>open_by_key\<close> or \<open>open_by_name\<close> leaves.\<close>

definition session_open :: "string \<Rightarrow> ref \<Rightarrow> 'w cl_state \<Rightarrow> bool" where
  "session_open label q s \<longleftrightarrow>
     NamedMap_get_by_name (cl_sessions s) label = Some q \<and>
     (\<exists>i. deref (cl_cores s) q = Some i \<and> ih_open i \<and> NamedMap_get (cl_sessions s) (ih_id i) = Some q)"

lemma open_session:
  assumes inv: "client_inv s" and cell: "deref (cl_cores s) q = Some i"
    and nid: "NamedMap_get (cl_sessions s) (ih_id i) = Some q" and label: "NamedMap_get_by_name (cl_sessions s) label = Some q"
    and run: "RemoteHypercore_open ext q s = (r, s')"
  shows "client_inv s'" and "r = Inr () \<Longrightarrow> session_open label q s'" and "cl_sessions s' = cl_sessions s"
proof -
  have view: "cl_view s' = cl_view s" using view_open run by (rule preservesD)
  then show "client_inv s'" and same: "cl_sessions s' = cl_sessions s"
    using inv client_inv_view by (blast, simp add: cl_view_def)
  assume "r = Inr ()"
  with run have "RemoteHypercore_open ext q s = (Inr (), s')" by simp
  with cell obtain i' where "deref (cl_cores s') q = Some i'" "ih_open i'" "ih_id i' = ih_id i"
    by (rule open_returns)
  with same nid label show "session_open label q s'"
    by (auto simp: session_open_def)
qed

lemma open_by_key_result:
  assumes inv: "client_inv s" and room: "cl_room s" and run: "RemoteCorestore_open_by_key ext k s = (r, s')"
  shows "client_inv s' \<and> (\<forall>q. r = Inr q \<longrightarrow> session_open (hex_encode ext k) q s')"
proof (cases "NamedMap_get_by_name (cl_sessions s) (hex_encode ext k)")
  case (Some q)
  obtain i where i: "deref (cl_cores s) q = Some i" "NamedMap_get (cl_sessions s) (ih_id i) = Some q"
    using inv Some by (rule session_cell)
  have "rust_bind (RemoteHypercore_open ext q) (\<lambda>_. rust_return q) s = (r, s')"
    using run by (simp add: open_by_key_found [OF Some])
  then show ?thesis
    by (cases rule: open_return_cases) (simp_all add: open_session [OF inv i Some])
next
  case None
  obtain nid m where m: "NamedMap_insert_with_name (length (cl_cores s)) (hex_encode ext k) (cl_sessions s) = (nid, m)"
    by fastforce
  note new = with_session_inv [OF inv room m refl, where key = "Some k" and name = None]
  have "NamedMap_get (cl_sessions (with_session (Some k) None (hex_encode ext k) s))
      (ih_id (InnerHypercore_default\<lparr>ih_key := Some k, ih_name := None, ih_id := nid\<rparr>)) = Some (length (cl_cores s))"
    using new(3) by simp
  note new_open = open_session [OF new(1,2) this, of "hex_encode ext k", unfolded new(4), simplified]
  have "rust_bind (RemoteHypercore_open ext (length (cl_cores s))) (\<lambda>_. rust_return (length (cl_cores s)))
      (with_session (Some k) None (hex_encode ext k) s) = (r, s')"
    using run by (simp add: open_by_key_new [OF None])
  then show ?thesis
    by (cases rule: open_return_cases) (use new_open in blast)+
qed

lemma open_by_name_result:
  assumes inv: "client_inv s" and room: "cl_room s" and run: "RemoteCorestore_open_by_name ext n s = (r, s')"
  shows "client_inv s' \<and> (\<forall>q. r = Inr q \<longrightarrow> session_open n q s' \<and>
    (NamedMap_get_by_name (cl_sessions s) n = None \<longrightarrow>
      (\<exists>i key. deref (cl_cores s') q = Some i \<and> ih_key i = Some key \<and> session_open (hex_encode ext key) q s')))"
proof (cases "NamedMap_get_by_name (cl_sessions s) n")
  case (Some q)
  obtain i where i: "deref (cl_cores s) q = Some i" "NamedMap_get (cl_sessions s) (ih_id i) = Some q"
    using inv Some by (rule session_cell)
  have "rust_bind (RemoteHypercore_open ext q) (\<lambda>_. rust_return q) s = (r, s')"
    using run by (simp add: open_by_name_found [OF Some])
  then show ?thesis
    by (cases rule: open_return_cases) (simp_all add: open_session [OF inv i Some] Some)
next
  case None
  let ?q = "length (cl_cores s)" and ?t = "with_session None (Some n) n s"
  obtain nid m where m: "NamedMap_insert_with_name ?q n (cl_sessions s) = (nid, m)" by fastforce
  note new = with_session_inv [OF inv room m refl, where key = None and name = "Some n"]
  obtain r1 u where u: "RemoteHypercore_open ext ?q ?t = (r1, u)" by fastforce
  note opened = open_session [OF new(1,2) _ _ u, of n]
  show ?thesis
  proof (cases r1)
    case (Inl e)
    then have "r = Inl e" "s' = u"
      using run u by (simp_all add: open_by_name_new [OF None m] rust_bind_apply)
    with opened(1) new(3,4) show ?thesis by (simp add: InnerHypercore_default_def)
  next
    case (Inr x)
    have closed: "\<not> ih_open (InnerHypercore_default\<lparr>ih_key := None, ih_name := Some n, ih_id := nid\<rparr>)"
      by (simp add: InnerHypercore_default_def)
    from u Inr have u': "RemoteHypercore_open ext ?q ?t = (Inr (), u)" by simp
    obtain i where i1: "deref (cl_cores u) ?q = Some i" "ih_open i" "ih_id i = nid" "cl_sessions u = cl_sessions ?t"
        "\<exists>res. i = opened_cell res (InnerHypercore_default\<lparr>ih_key := None, ih_name := Some n, ih_id := nid\<rparr>)"
      using new(2) u' by (rule open_returns) (use closed in auto)
    from i1(5) obtain res where "i = opened_cell res (InnerHypercore_default\<lparr>ih_key := None, ih_name := Some n, ih_id := nid\<rparr>)" ..
    then have "ih_key i = Some (os_key res)" by simp
    note i = i1(1-3) this i1(4)
    let ?s = "u\<lparr>cl_sessions := NamedMap_set_name nid (hex_encode ext (os_key res)) (cl_sessions u)\<rparr>"
    have s': "r = Inr ?q" "s' = ?s"
      using run u Inr i(4) by (simp_all add: open_by_name_new [OF None m] rust_bind_apply read_core_run [OF i(1)]
          rust_modify_apply rust_return_apply)
    have "client_inv u" "NamedMap_get (cl_sessions u) nid = Some ?q" "NamedMap_get_by_name (cl_sessions u) n = Some ?q"
      using opened(1) new(3,4) i(5) by (simp_all add: InnerHypercore_default_def)
    note renamed = set_name_inv [OF this(1,2), of ?s "hex_encode ext (os_key res)", simplified]
    show ?thesis
      using s' i renamed \<open>NamedMap_get_by_name (cl_sessions u) n = Some ?q\<close> \<open>NamedMap_get (cl_sessions u) nid = Some ?q\<close>
      by (auto simp: session_open_def)
  qed
qed

text \<open>A server that answers makes a first opening succeed, with a new cell.\<close>

lemma open_answered:
  assumes "deref (cl_cores s) q = Some i" and "\<not> ih_open i" and "rpc_open ext (open_req i) (cl_world s) = (Inr res, w)"
  shows "RemoteHypercore_open ext q s = (Inr (), s\<lparr>cl_world := w, cl_cores := (cl_cores s)[q := opened_cell res i]\<rparr>)"
  using assms by (simp add: open_closed)

lemma open_by_key_succeeds:
  assumes inv: "client_inv s" and room: "cl_room s" and new: "NamedMap_get_by_name (cl_sessions s) (hex_encode ext k) = None"
    and answers: "\<And>req w. \<exists>res w'. rpc_open ext req w = (Inr res, w')"
  shows "\<exists>s'. RemoteCorestore_open_by_key ext k s = (Inr (length (cl_cores s)), s')"
proof -
  obtain nid m where m: "NamedMap_insert_with_name (length (cl_cores s)) (hex_encode ext k) (cl_sessions s) = (nid, m)"
    by fastforce
  let ?i = "InnerHypercore_default\<lparr>ih_key := Some k, ih_name := None, ih_id := nid\<rparr>"
  let ?t = "with_session (Some k) None (hex_encode ext k) s"
  obtain res w where res: "rpc_open ext (open_req ?i) (cl_world ?t) = (Inr res, w)"
    using answers by blast
  have "\<not> ih_open ?i" by (simp add: InnerHypercore_default_def)
  note opened = open_answered [OF with_session_inv(2) [OF inv room m refl] this res]
  show ?thesis
    by (simp add: open_by_key_new [OF new] rust_bind_apply opened rust_return_apply)
qed

lemma open_by_name_succeeds:
  assumes inv: "client_inv s" and room: "cl_room s" and new: "NamedMap_get_by_name (cl_sessions s) n = None"
    and answers: "\<And>req w. \<exists>res w'. rpc_open ext req w = (Inr res, w')"
  shows "\<exists>s'. RemoteCorestore_open_by_name ext n s = (Inr (length (cl_cores s)), s')"
proof -
  obtain nid m where m: "NamedMap_insert_with_name (length (cl_cores s)) n (cl_sessions s) = (nid, m)"
    by fastforce
  let ?i = "InnerHypercore_default\<lparr>ih_key := None, ih_name := Some n, ih_id := nid\<rparr>"
  let ?t = "with_session None (Some n) n s"
  obtain res w where res: "rpc_open ext (open_req ?i) (cl_world ?t) = (Inr res, w)"
    using answers by blast
  have closed: "\<not> ih_open ?i" by (simp add: InnerHypercore_default_def)
  have cell: "deref (cl_cores ?t) (length (cl_cores s)) = Some ?i"
    by (rule with_session_inv(2) [OF inv room m refl])
  let ?u = "?t\<lparr>cl_world := w, cl_cores := (cl_cores ?t)[length (cl_cores s) := opened_cell res ?i]\<rparr>"
  have cell': "deref (cl_cores ?u) (length (cl_cores s)) = Some (opened_cell res ?i)"
    using cell by (simp add: deref_eq_Some)
  show ?thesis
    by (simp add: open_by_name_new [OF new m] rust_bind_apply open_answered [OF cell closed res]
        read_core_run [OF cell'] rust_modify_apply rust_return_apply)
qed

subsection \<open>All the steps of a client\<close>

text \<open>
  The calls of the application and of the server.  Each takes the locks it needs for its own reads and
  writes; calls interleave in any order.
\<close>

inductive client_step :: "'w cl_ext \<Rightarrow> 'w cl_state \<Rightarrow> 'w cl_state \<Rightarrow> bool" for ext where
  open_key: "cl_room s \<Longrightarrow> RemoteCorestore_open_by_key ext k s = (r, s') \<Longrightarrow> client_step ext s s'"
| open_name: "cl_room s \<Longrightarrow> RemoteCorestore_open_by_name ext n s = (r, s') \<Longrightarrow> client_step ext s s'"
| append: "RemoteHypercore_append ext bs q s = (u, s') \<Longrightarrow> client_step ext s s'"
| get: "RemoteHypercore_get ext seq q s = (b, s') \<Longrightarrow> client_step ext s s'"
| seek: "RemoteHypercore_seek ext off q s = (p, s') \<Longrightarrow> client_step ext s s'"
| subscribe: "RemoteHypercore_subscribe q s = (c, s') \<Longrightarrow> client_step ext s s'"
| server_event: "RemoteCorestore_on_event ext ev s = (u, s') \<Longrightarrow> client_step ext s s'"

lemma on_event_inv:
  assumes "client_inv s" and "RemoteCorestore_on_event ext ev s = (u, s')"
  shows "client_inv s'"
proof (cases ev)
  case (OnAppend e)
  with assms show ?thesis
    by (cases "NamedMap_get (cl_sessions s) (ae_id e)")
      (auto simp: RemoteCorestore_on_event_def RemoteCorestore_on_append_def rust_get_bind_apply rust_return_apply
        intro: on_append_inv)
next
  case (OnDownload e)
  with assms show ?thesis
    by (cases "NamedMap_get (cl_sessions s) (de_id e)")
      (auto simp: RemoteCorestore_on_event_def RemoteCorestore_on_download_def rust_get_bind_apply rust_return_apply
        intro: on_download_inv)
qed

lemma client_inv_new: "client_inv (RemoteCorestore_new w)"
proof -
  have "NamedMap_client_inv (NamedMap_new :: (string, ref) InnerMap)"
    by (rule named_map.inv_init) simp
  moreover have "NamedMap_get (NamedMap_new :: (string, ref) InnerMap) nid = None" for nid
    by (simp add: NamedMap_get_def NamedMap_new_def InnerMap_new_def)
  ultimately show ?thesis
    by (simp add: RemoteCorestore_new_def client_inv_def sessions_ok_def channels_ok_def deref_def)
qed

interpretation client: transition_system
  "\<lambda>s :: 'w cl_state. \<exists>w. s = RemoteCorestore_new w" "client_step ext" client_inv for ext :: "'w cl_ext"
proof (unfold_locales, goal_cases)
  case (1 s)
  then show ?case by (auto simp: client_inv_new)
next
  case (2 s t)
  from 2(2) show ?case
  proof cases
    case open_key
    with 2(1) show ?thesis by (blast dest: open_by_key_result)
  next
    case open_name
    with 2(1) show ?thesis by (blast dest: open_by_name_result)
  next
    case append
    with 2(1) show ?thesis by (blast intro: client_inv_preserves view_append)
  next
    case get
    with 2(1) show ?thesis by (blast intro: client_inv_preserves view_get)
  next
    case seek
    with 2(1) show ?thesis by (blast intro: client_inv_preserves view_seek)
  next
    case subscribe
    with 2(1) show ?thesis unfolding RemoteHypercore_subscribe_def by (blast intro: client_inv_subscribe)
  next
    case server_event
    with 2(1) show ?thesis by (blast intro: on_event_inv)
  qed
qed

end
