(* ===== verification/Client_Theorems.thy ===== *)
theory Client_Theorems
  imports Remote_Core_Props
begin

section \<open>Properties of the client\<close>

text \<open>
  A feed is opened once per name or key and handles are shared, the cells follow the server's events,
  listeners see every event, and session ids stay unambiguous when they are cut to 32 bits.
\<close>

subsection \<open>A server to talk to\<close>

text \<open>A server with a single log, which answers every request; ids are ignored.\<close>

definition sample_rpc :: "bytes list cl_ext" where
  "sample_rpc =
     \<lparr>rpc_open = (\<lambda>req w. (Inr \<lparr>os_key = (case or_key req of Some k \<Rightarrow> k | None \<Rightarrow> [0]), os_length = of_nat (length w),
        os_byte_length = of_nat (length (concat w)), os_writable = True, os_peers = [], os_discovery_key = None\<rparr>, w)),
      rpc_append = (\<lambda>req w. (Inr \<lparr>as_length = of_nat (length w + length (ar_blocks req)),
        as_byte_length = of_nat (length (concat w) + length (concat (ar_blocks req))),
        as_seq = of_nat (length w + length (ar_blocks req))\<rparr>, w @ ar_blocks req)),
      rpc_get = (\<lambda>req w. (Inr \<lparr>gs_block = (if unat (gr_seq req) < length w then Some (w ! unat (gr_seq req)) else None)\<rparr>, w)),
      rpc_seek = (\<lambda>req w. (Inl (IoError ''not implemented''), w)),
      hex_encode = map (\<lambda>b. char_of (unat b)),
      receiver_alive = (\<lambda>_. True)\<rparr>"

abbreviation sample_client :: "bytes list cl_state" where
  "sample_client \<equiv> RemoteCorestore_new [[1, 2]]"

lemma sample_client_room: "cl_room sample_client"
  by (simp add: RemoteCorestore_new_def NamedMap_new_def InnerMap_new_def)

lemma sample_rpc_answers: "\<exists>res w'. rpc_open sample_rpc req w = (Inr res, w')"
  by (simp add: sample_rpc_def)

lemma sample_client_empty: "NamedMap_get_by_name (cl_sessions sample_client) n = None" "cl_cores sample_client = []"
  by (simp_all add: RemoteCorestore_new_def NamedMap_get_by_name_def NamedMap_new_def InnerMap_new_def)

lemma sample_open_by_key: "\<exists>s. RemoteCorestore_open_by_key sample_rpc k sample_client = (Inr 0, s)"
  using open_by_key_succeeds [OF client_inv_new sample_client_room sample_client_empty(1) sample_rpc_answers, of k]
  by (simp add: sample_client_empty(2))

lemma sample_open_by_name: "\<exists>s. RemoteCorestore_open_by_name sample_rpc n sample_client = (Inr 0, s)"
  using open_by_name_succeeds [OF client_inv_new sample_client_room sample_client_empty(1) sample_rpc_answers, of n]
  by (simp add: sample_client_empty(2))

subsection \<open>One session per feed\<close>

lemma session_open_again:
  assumes "session_open label q s"
  shows "hex_encode ext k = label \<Longrightarrow> RemoteCorestore_open_by_key ext k s = (Inr q, s)"
    and "RemoteCorestore_open_by_name ext label s = (Inr q, s)"
  using assms
  by (auto simp: session_open_def open_by_key_found open_by_name_found rust_bind_apply open_open rust_return_apply)



text \<open>
  C30. A successful \<open>open_by_name\<close> returns an open handle and gives it again for the same name without a
  request; when the name was new, the feed's key as the server reported it leads to the same handle too.
\<close>

theorem open_by_name_once:
  assumes "client_inv s" and "cl_room s" and "RemoteCorestore_open_by_name ext n s = (Inr q, s')"
  shows "client_inv s' \<and> RemoteCorestore_open_by_name ext n s' = (Inr q, s') \<and>
    (\<exists>i. deref (cl_cores s') q = Some i \<and> ih_open i \<and> NamedMap_get (cl_sessions s') (ih_id i) = Some q) \<and>
    (NamedMap_get_by_name (cl_sessions s) n = None \<longrightarrow>
      (\<exists>i key. deref (cl_cores s') q = Some i \<and> ih_key i = Some key \<and> RemoteCorestore_open_by_key ext key s' = (Inr q, s')))"
  using open_by_name_result [OF assms] session_open_again by (fastforce simp: session_open_def)

theorem open_by_name_once_witness:
  "\<exists>s. RemoteCorestore_open_by_name sample_rpc ''a'' sample_client = (Inr 0, s) \<and>
     RemoteCorestore_open_by_name sample_rpc ''a'' s = (Inr 0, s)"
proof -
  obtain s where s: "RemoteCorestore_open_by_name sample_rpc ''a'' sample_client = (Inr 0, s)"
    using sample_open_by_name by blast
  from open_by_name_once [OF client_inv_new sample_client_room s] s show ?thesis by blast
qed

text \<open>
  Names and keys share one table: once a key is open, opening the name that happens to be the key's
  hexadecimal form returns the feed with that key, and no request for the name reaches the server.
\<close>

theorem key_shadows_name:
  assumes "client_inv s" and "cl_room s" and "RemoteCorestore_open_by_key ext k s = (Inr q, s')"
  shows "RemoteCorestore_open_by_name ext (hex_encode ext k) s' = (Inr q, s')"
  using open_by_key_result [OF assms] session_open_again(2) by blast

theorem key_shadows_name_witness:
  "\<exists>s. RemoteCorestore_open_by_key sample_rpc [65] sample_client = (Inr 0, s) \<and>
     RemoteCorestore_open_by_name sample_rpc ''A'' s = (Inr 0, s)"
proof -
  obtain s where s: "RemoteCorestore_open_by_key sample_rpc [65] sample_client = (Inr 0, s)"
    using sample_open_by_key by blast
  have hex: "hex_encode sample_rpc [65] = ''A''"
    by (simp add: sample_rpc_def) code_simp
  from key_shadows_name [OF client_inv_new sample_client_room s] s show ?thesis
    by (auto simp: hex)
qed

subsection \<open>Following the server\<close>

lemma on_append_run:
  assumes "deref (cl_cores s) q = Some i"
  shows "RemoteHypercore_on_append ext len bl q s = (Inr (), s\<lparr>
    cl_cores := (cl_cores s)[q := i\<lparr>ih_length := len, ih_byte_length := bl\<rparr>],
    cl_events := cl_events s @ map (\<lambda>c. (c, HypercoreAppend)) (filter (receiver_alive ext) (ih_listeners i))\<rparr>)"
proof -
  let ?s = "s\<lparr>cl_cores := (cl_cores s)[q := i\<lparr>ih_length := len, ih_byte_length := bl\<rparr>]\<rparr>"
  have "deref (cl_cores ?s) q = Some (i\<lparr>ih_length := len, ih_byte_length := bl\<rparr>)"
    using assms by (simp add: deref_eq_Some)
  then show ?thesis
    by (simp add: RemoteHypercore_on_append_def write_core_bind [OF assms] hypercore_emit_run)
qed

text \<open>
  C32. When the server reports an append, the cell of the session with that id takes over the reported
  length and byte length and every live listener of that feed receives one \<open>Append\<close> event; no other feed
  changes.  A report for an unknown id changes nothing.
\<close>

theorem on_append_follows:
  assumes "client_inv s"
  shows "case NamedMap_get (cl_sessions s) (ae_id e) of
      None \<Rightarrow> RemoteCorestore_on_append ext e s = (Inr (), s)
    | Some q \<Rightarrow> \<exists>i s'. deref (cl_cores s) q = Some i \<and> ih_id i = ae_id e \<and>
        RemoteCorestore_on_append ext e s = (Inr (), s') \<and>
        deref (cl_cores s') q = Some (i\<lparr>ih_length := ae_length e, ih_byte_length := ae_byte_length e\<rparr>) \<and>
        (\<forall>p. p \<noteq> q \<longrightarrow> deref (cl_cores s') p = deref (cl_cores s) p) \<and>
        cl_events s' = cl_events s @ map (\<lambda>c. (c, HypercoreAppend)) (filter (receiver_alive ext) (ih_listeners i))"
proof (cases "NamedMap_get (cl_sessions s) (ae_id e)")
  case None
  then show ?thesis by (simp add: RemoteCorestore_on_append_def rust_get_bind_apply rust_return_apply)
next
  case (Some q)
  with assms obtain i where i: "deref (cl_cores s) q = Some i" "ih_id i = ae_id e"
    by (auto simp: client_inv_def sessions_ok_def)
  with Some show ?thesis
    by (auto simp: RemoteCorestore_on_append_def rust_get_bind_apply on_append_run deref_eq_Some)
qed

definition sample_opened_client :: "bytes list cl_state" where
  "sample_opened_client = snd (RemoteCorestore_open_by_key sample_rpc [5] sample_client)"

lemma sample_opened_client_inv: "client_inv sample_opened_client"
  using open_by_key_result [OF client_inv_new sample_client_room, of sample_rpc "[5]"]
  by (metis prod.collapse sample_opened_client_def)

lemma sample_opened_session: "\<exists>nid. NamedMap_get (cl_sessions sample_opened_client) nid = Some 0"
proof -
  obtain s where s: "RemoteCorestore_open_by_key sample_rpc [5] sample_client = (Inr 0, s)"
    using sample_open_by_key by blast
  from open_by_key_result [OF client_inv_new sample_client_room s] s show ?thesis
    by (auto simp: session_open_def sample_opened_client_def)
qed

theorem on_append_follows_witness:
  "\<exists>nid i s'. RemoteCorestore_on_append sample_rpc \<lparr>ae_id = nid, ae_length = 7, ae_byte_length = 70\<rparr> sample_opened_client
     = (Inr (), s') \<and> deref (cl_cores s') 0 = Some i \<and> ih_length i = 7 \<and> ih_byte_length i = 70"
proof -
  obtain nid where nid: "NamedMap_get (cl_sessions sample_opened_client) nid = Some 0"
    using sample_opened_session by blast
  from on_append_follows [OF sample_opened_client_inv,
      where e = "\<lparr>ae_id = nid, ae_length = 7, ae_byte_length = 70\<rparr>" and ext = sample_rpc]
  obtain i s' where "RemoteCorestore_on_append sample_rpc \<lparr>ae_id = nid, ae_length = 7, ae_byte_length = 70\<rparr>
      sample_opened_client = (Inr (), s')" "deref (cl_cores s') 0 = Some (i\<lparr>ih_length := 7, ih_byte_length := 70\<rparr>)"
    by (auto simp: nid)
  then show ?thesis
    by (intro exI [of _ nid] exI [of _ "i\<lparr>ih_length := 7, ih_byte_length := 70\<rparr>"] exI [of _ s']) simp
qed

definition with_byte_length :: "u64 option \<Rightarrow> inner_hypercore \<Rightarrow> inner_hypercore" where
  "with_byte_length bl i = i\<lparr>ih_byte_length := (case bl of None \<Rightarrow> ih_byte_length i | Some b \<Rightarrow> b)\<rparr>"

lemma on_download_start:
  assumes cell: "deref (cl_cores s) q = Some i"
  shows "(case bl of Some bl \<Rightarrow> write_core q (\<lambda>inner. inner\<lparr>ih_byte_length := bl\<rparr>) | None \<Rightarrow> rust_return ()) s
      = (Inr (), s\<lparr>cl_cores := (cl_cores s)[q := with_byte_length bl i]\<rparr>)"
    and "deref (cl_cores (s\<lparr>cl_cores := (cl_cores s)[q := with_byte_length bl i]\<rparr>)) q = Some (with_byte_length bl i)"
    and "ih_length (with_byte_length bl i) = ih_length i"
proof -
  have q: "q < length (cl_cores s)" "cl_cores s ! q = i" using cell by (simp_all add: deref_eq_Some)
  then show "(case bl of Some bl \<Rightarrow> write_core q (\<lambda>inner. inner\<lparr>ih_byte_length := bl\<rparr>) | None \<Rightarrow> rust_return ()) s
      = (Inr (), s\<lparr>cl_cores := (cl_cores s)[q := with_byte_length bl i]\<rparr>)"
    by (cases bl) (auto simp: write_core_run [OF cell] rust_return_apply with_byte_length_def)
qed (use assms in \<open>simp_all add: deref_eq_Some with_byte_length_def\<close>)

lemma on_download_overflow:
  assumes cell: "deref (cl_cores s) q = Some i" and "ih_length i \<le> - 1"
  shows "RemoteHypercore_on_download ext (- 1) bl q s = (Inl (Panic ''attempt to add with overflow''),
    s\<lparr>cl_cores := (cl_cores s)[q := with_byte_length bl i]\<rparr>)"
  unfolding RemoteHypercore_on_download_def
  by (simp add: rust_bind_apply on_download_start(1) [OF cell] read_core_run [OF on_download_start(2) [OF cell]]
      rust_lift_apply u64_add_max)

lemma on_download_run:
  assumes cell: "deref (cl_cores s) q = Some i" and small: "seq \<noteq> - 1 \<or> seq < ih_length i"
  shows "RemoteHypercore_on_download ext seq bl q s = (Inr (), s\<lparr>
    cl_cores := (cl_cores s)[q := i\<lparr>ih_byte_length := (case bl of None \<Rightarrow> ih_byte_length i | Some b \<Rightarrow> b),
      ih_length := (if ih_length i \<le> seq then seq + 1 else ih_length i)\<rparr>],
    cl_events := cl_events s @ map (\<lambda>c. (c, HypercoreDownload seq)) (filter (receiver_alive ext) (ih_listeners i))\<rparr>)"
proof -
  let ?i = "with_byte_length bl i"
  let ?s = "s\<lparr>cl_cores := (cl_cores s)[q := ?i]\<rparr>"
  have q: "q < length (cl_cores s)" "cl_cores s ! q = i" using cell by (simp_all add: deref_eq_Some)
  note first = on_download_start(1) [OF cell] and cell1 = on_download_start(2) [OF cell]
  have add: "ih_length i \<le> seq \<Longrightarrow> u64_add seq 1 = Inr (seq + 1)"
  proof -
    assume "ih_length i \<le> seq"
    with small have "seq \<noteq> - 1" by auto
    then have "unat (seq + 1) = Suc (unat seq)" by (rule unat_u64_Suc)
    then show ?thesis by (simp add: u64_add_eq_Inr)
  qed
  let ?j = "?i\<lparr>ih_length := (if ih_length i \<le> seq then seq + 1 else ih_length i)\<rparr>"
  let ?t = "s\<lparr>cl_cores := (cl_cores s)[q := ?j]\<rparr>"
  have second: "(if seq \<ge> ih_length i then rust_bind (rust_lift (u64_add seq 1)) (\<lambda>len. write_core q (\<lambda>inner. inner\<lparr>ih_length := len\<rparr>))
      else rust_return ()) ?s = (Inr (), ?t)"
    using add by (auto simp: rust_bind_apply rust_lift_apply write_core_run [OF cell1] rust_return_apply)
      (simp add: with_byte_length_def)
  have cell2: "deref (cl_cores ?t) q = Some ?j" using q by (simp add: deref_eq_Some)
  show ?thesis
    unfolding RemoteHypercore_on_download_def
    by (simp add: rust_bind_apply first read_core_run [OF cell1] InnerHypercore_len_def on_download_start(3) [OF cell] second hypercore_emit_run [OF cell2]
        del: if_split) (simp add: with_byte_length_def)
qed

text \<open>
  C36. When the server reports a downloaded block, the cell of the session with that id takes over the
  reported byte length, its length becomes at least one more than the block's index and never shrinks,
  and every live listener of that feed receives one \<open>Download\<close> event.  An index of \<open>2 ^ 64 - 1\<close> beyond
  the known length panics instead of wrapping around.
\<close>

theorem on_download_follows:
  assumes "client_inv s" and "NamedMap_get (cl_sessions s) (de_id e) = Some q"
  shows "\<exists>i s'. deref (cl_cores s) q = Some i \<and>
    (if de_seq e = - 1 \<and> ih_length i \<le> de_seq e
     then RemoteCorestore_on_download ext e s = (Inl (Panic ''attempt to add with overflow''), s')
     else RemoteCorestore_on_download ext e s = (Inr (), s') \<and>
       cl_events s' = cl_events s @ map (\<lambda>c. (c, HypercoreDownload (de_seq e))) (filter (receiver_alive ext) (ih_listeners i)) \<and>
       (\<exists>i'. deref (cl_cores s') q = Some i' \<and> unat (ih_length i') = max (unat (ih_length i)) (Suc (unat (de_seq e))) \<and>
          (\<forall>b. de_byte_length e = Some b \<longrightarrow> ih_byte_length i' = b)))"
proof -
  from assms obtain i where i: "deref (cl_cores s) q = Some i"
    by (auto simp: client_inv_def sessions_ok_def)
  have start: "RemoteCorestore_on_download ext e s = RemoteHypercore_on_download ext (de_seq e) (de_byte_length e) q s"
    using assms(2) by (simp add: RemoteCorestore_on_download_def rust_get_bind_apply)
  show ?thesis
  proof (cases "de_seq e = - 1 \<and> ih_length i \<le> de_seq e")
    case True
    then have "\<exists>s'. RemoteHypercore_on_download ext (de_seq e) (de_byte_length e) q s
        = (Inl (Panic ''attempt to add with overflow''), s')"
      using on_download_overflow [OF i] by auto
    with i True start show ?thesis by auto
  next
    case False
    then have "de_seq e \<noteq> - 1 \<or> de_seq e < ih_length i" by (auto simp: not_le)
    note run = on_download_run [OF i this, of ext "de_byte_length e"]
    have "unat (if ih_length i \<le> de_seq e then de_seq e + 1 else ih_length i) = max (unat (ih_length i)) (Suc (unat (de_seq e)))"
    proof (cases "ih_length i \<le> de_seq e")
      case True
      with False have "unat (de_seq e + 1) = Suc (unat (de_seq e))" by (simp add: unat_u64_Suc)
      with True show ?thesis by (simp add: word_le_nat_alt)
    qed (auto simp: word_le_nat_alt not_le max_def)
    with i False start run show ?thesis by (auto simp: deref_eq_Some)
  qed
qed

theorem on_download_follows_witness:
  "\<exists>nid i s'. RemoteCorestore_on_download sample_rpc \<lparr>de_id = nid, de_seq = 9, de_byte_length = Some 4\<rparr> sample_opened_client
     = (Inr (), s') \<and> deref (cl_cores s') 0 = Some i \<and> 10 \<le> unat (ih_length i) \<and> ih_byte_length i = 4"
proof -
  obtain nid where nid: "NamedMap_get (cl_sessions sample_opened_client) nid = Some 0"
    using sample_opened_session by blast
  let ?e = "\<lparr>de_id = nid, de_seq = 9, de_byte_length = Some 4\<rparr> :: download_event"
  have "NamedMap_get (cl_sessions sample_opened_client) (de_id ?e) = Some 0" using nid by simp
  from on_download_follows [OF sample_opened_client_inv this, of sample_rpc] show ?thesis
    by auto (metis max.cobounded2)
qed

subsection \<open>Every listener, every session\<close>

text \<open>
  A listener that subscribes to a remote hypercore receives exactly the events emitted after it
  subscribed, each once and in order, as long as the receivers of that hypercore's listeners are there.
\<close>

theorem listener_sees_later_events:
  assumes "channels_ok s" and "deref (cl_cores s) q \<noteq> None"
    and "RemoteHypercore_subscribe q s = (Inr c, s')" and "\<And>d. receiver_alive ext d"
  shows "received c (cl_events (fold (\<lambda>e s. snd (InnerHypercore_emit ext e q s)) es s')) = es"
  using hypercore_bus.subscriber_sees_later_events [of s q c s' ext es] assms
  by (simp add: RemoteHypercore_subscribe_def hypercore_bus.emit_all_def)

theorem listener_sees_later_events_witness:
  "\<exists>c s. RemoteHypercore_subscribe 0 sample_opened_client = (Inr c, s) \<and>
     received c (cl_events (fold (\<lambda>e s. snd (InnerHypercore_emit sample_rpc e 0 s)) [HypercoreAppend, HypercoreDownload 3] s))
       = [HypercoreAppend, HypercoreDownload 3]"
proof -
  have cell: "deref (cl_cores sample_opened_client) 0 \<noteq> None"
    using sample_opened_session sample_opened_client_inv by (auto simp: client_inv_def sessions_ok_def)
  then obtain c s where sub: "RemoteHypercore_subscribe 0 sample_opened_client = (Inr c, s)"
    by (auto simp: RemoteHypercore_subscribe_def subscribe_run)
  have "channels_ok sample_opened_client"
    using sample_opened_client_inv by (simp add: client_inv_def)
  moreover have "receiver_alive sample_rpc d" for d by (simp add: sample_rpc_def)
  ultimately show ?thesis
    using listener_sees_later_events [OF _ cell sub] sub by blast
qed

text \<open>
  C35. In every state a client can reach, by any interleaving of its own calls and the server's, each
  session id leads to the cell that carries this id; and as long as there are fewer than \<open>2 ^ 32\<close>
  sessions, the 32-bit id sent to the server identifies the session and comes back unchanged.
\<close>

theorem client_ids_unambiguous:
  assumes "(client_step ext)\<^sup>*\<^sup>* (RemoteCorestore_new w) s"
  shows "(\<forall>nid q. NamedMap_get (cl_sessions s) nid = Some q \<longrightarrow> (\<exists>i. deref (cl_cores s) q = Some i \<and> ih_id i = nid)) \<and>
    (InnerMap_size (cl_sessions s) < 2 ^ 32 \<longrightarrow>
      (\<forall>nid. NamedMap_get (cl_sessions s) nid \<noteq> None \<longrightarrow> ucast (ucast nid :: u32) = nid))"
proof -
  have inv: "client_inv s"
    using client.inv_reachable [OF _ assms] by blast
  have "ucast (ucast nid :: u32) = nid"
    if small: "InnerMap_size (cl_sessions s) < 2 ^ 32" and used: "NamedMap_get (cl_sessions s) nid \<noteq> None" for nid
  proof -
    have "unat nid \<le> InnerMap_size (cl_sessions s)"
      using inv used by (auto simp: client_inv_def sessions_ok_def NamedMap_client_inv_def InnerMap_inv_def InnerMap_ids_ok_def
          NamedMap_get_def)
    with small have "unat nid < 2 ^ 32" by simp
    then show ?thesis by (rule u32_round_trip)
  qed
  with inv show ?thesis
    by (auto simp: client_inv_def sessions_ok_def)
qed

theorem client_ids_unambiguous_witness:
  "\<exists>s nid i. (client_step sample_rpc)\<^sup>*\<^sup>* sample_client s \<and> NamedMap_get (cl_sessions s) nid = Some 0 \<and>
     deref (cl_cores s) 0 = Some i \<and> ih_id i = nid"
proof -
  have step: "(client_step sample_rpc)\<^sup>*\<^sup>* sample_client sample_opened_client"
    using client_step.open_key [OF sample_client_room] by (metis prod.collapse r_into_rtranclp sample_opened_client_def)
  from client_ids_unambiguous [OF step] step sample_opened_session show ?thesis by blast
qed

end
