(* ===== verification/Streams.thy ===== *)
theory Streams
  imports Remote_Core
begin

section \<open>Reading a remote hypercore as a stream (\<open>client/src/stream.rs\<close>)\<close>

text \<open>
  \<open>ReadStream\<close> yields the blocks of a feed one by one, \<open>ByteStream\<close> their bytes.  Both are state machines
  driven by polling.  A future is the point its code has reached: \<open>GetAt\<close> a request for a block, \<open>OnAppend\<close>
  an \<open>onappend_get\<close> that has not run yet, \<open>Waiting\<close> one that waits for the next event of its channel and
  has taken the first \<open>n\<close> of them.  Each poll has an argument \<open>arrived\<close>: whether the answer of the server
  that the future waits for is there; a request takes effect on the server at the poll in which its answer
  arrives.
\<close>

datatype 'a poll = Pending | Ready 'a

text \<open>A fallible call whose \<open>Err\<close> becomes a value; a panic stays a fault.\<close>

definition rust_result :: "('s, 'a) rust \<Rightarrow> ('s, string + 'a) rust" where
  "rust_result m = (\<lambda>s. case m s of (r, s') \<Rightarrow>
     (case r of Inl (IoError e) \<Rightarrow> (Inr (Inl e), s') | Inl (Panic e) \<Rightarrow> (Inl (Panic e), s') | Inr a \<Rightarrow> (Inr (Inr a), s')))"

type_synonym get_output = "string + bytes option"

datatype get_future = GetAt ref u64 | OnAppend ref u64 | Waiting ref u64 nat nat

text \<open>
  The loop over the events in \<open>onappend_get\<close>: it stops at the first append, or at the download of the
  block it waits for.
\<close>

fun awaited :: "u64 \<Rightarrow> hypercore_event list \<Rightarrow> bool" where
  "awaited seq [] = False"
| "awaited seq (HypercoreAppend # evs) = True"
| "awaited seq (HypercoreDownload d # evs) = (if d = seq then True else awaited seq evs)"

definition channel_events :: "nat \<Rightarrow> 'w cl_state \<Rightarrow> hypercore_event list" where
  "channel_events c s = map snd (filter (\<lambda>p. fst p = c) (cl_events s))"

definition poll_get ::
  "'w cl_ext \<Rightarrow> bool \<Rightarrow> ref \<Rightarrow> u64 \<Rightarrow> ('w cl_state, (ref \<times> get_output) poll \<times> get_future) rust" where
  "poll_get ext arrived core seq =
     (if arrived then
        rust_bind (rust_result (RemoteHypercore_get ext seq core)) (\<lambda>block.
        rust_return (Ready (core, block), GetAt core seq))
      else rust_return (Pending, GetAt core seq))"

definition poll_events ::
  "'w cl_ext \<Rightarrow> bool \<Rightarrow> ref \<Rightarrow> u64 \<Rightarrow> nat \<Rightarrow> nat \<Rightarrow> ('w cl_state, (ref \<times> get_output) poll \<times> get_future) rust" where
  "poll_events ext arrived core seq c n =
     rust_bind (rust_get (channel_events c)) (\<lambda>evs.
     if awaited seq (drop n evs) then poll_get ext arrived core seq
     else rust_return (Pending, Waiting core seq c (length evs)))"

definition poll_future ::
  "'w cl_ext \<Rightarrow> bool \<Rightarrow> get_future \<Rightarrow> ('w cl_state, (ref \<times> get_output) poll \<times> get_future) rust" where
  "poll_future ext arrived fut =
     (case fut of
        GetAt core seq \<Rightarrow> poll_get ext arrived core seq
      | OnAppend core seq \<Rightarrow>
          rust_bind (RemoteHypercore_subscribe core) (\<lambda>c. poll_events ext arrived core seq c 0)
      | Waiting core seq c n \<Rightarrow> poll_events ext arrived core seq c n)"

subsection \<open>Blocks\<close>

record read_stream =
  rs_future :: get_future
  rs_index :: u64
  rs_end :: "u64 option"
  rs_live :: bool
  rs_finished :: bool

definition ReadStream_new :: "ref \<Rightarrow> u64 \<Rightarrow> u64 option \<Rightarrow> bool \<Rightarrow> read_stream" where
  "ReadStream_new core start until live =
     \<lparr>rs_future = GetAt core start, rs_index = start, rs_end = until, rs_live = live, rs_finished = False\<rparr>"

text \<open>\<open>RemoteHypercore::to_stream\<close>\<close>

definition RemoteHypercore_to_stream :: "ref \<Rightarrow> u64 \<Rightarrow> u64 option \<Rightarrow> bool \<Rightarrow> read_stream" where
  "RemoteHypercore_to_stream core start until live = ReadStream_new core start until live"

text \<open>\<open>Result<Option<T>>::transpose\<close>\<close>

fun transpose :: "string + 'a option \<Rightarrow> (string + 'a) option" where
  "transpose (Inl e) = Some (Inl e)"
| "transpose (Inr None) = None"
| "transpose (Inr (Some a)) = Some (Inr a)"

definition ReadStream_poll_next ::
  "'w cl_ext \<Rightarrow> bool \<Rightarrow> read_stream \<Rightarrow> ('w cl_state, (string + bytes) option poll \<times> read_stream) rust" where
  "ReadStream_poll_next ext arrived rs =
     (if rs_finished rs then rust_return (Ready None, rs)
      else
        rust_bind (poll_future ext arrived (rs_future rs)) (\<lambda>(poll_result, fut).
        case poll_result of
          Pending \<Rightarrow> rust_return (Pending, rs\<lparr>rs_future := fut\<rparr>)
        | Ready (core, result) \<Rightarrow>
            let result = transpose result in
            rust_bind (case rs_end rs of Some e \<Rightarrow> rust_return e | None \<Rightarrow> RemoteHypercore_len core) (\<lambda>len.
            rust_bind (rust_lift (u64_add (rs_index rs) 1)) (\<lambda>index.
            let rs = rs\<lparr>rs_index := index\<rparr> in
            rust_return (Ready result,
              if len = index \<and> \<not> rs_live rs then rs\<lparr>rs_finished := True\<rparr>
              else if len = index then rs\<lparr>rs_future := OnAppend core index\<rparr>
              else rs\<lparr>rs_future := GetAt core index\<rparr>)))))"

subsection \<open>Bytes\<close>

datatype bs_state =
    Idle
  | Seeking u64
  | Reading get_future
  | BlockReady bytes
  | Finished

text \<open>\<open>impl Display for State\<close>, as the log lines print it.\<close>

fun State_fmt :: "bs_state \<Rightarrow> string" where
  "State_fmt Idle = ''Idle''"
| "State_fmt (Seeking _) = ''Seeking''"
| "State_fmt (Reading _) = ''Reading''"
| "State_fmt (BlockReady block) = ''Ready '' @ decimal (length block)"
| "State_fmt Finished = ''Finished''"

record byte_stream =
  bs_core :: ref
  bs_seq :: u64
  bs_block_offset :: u64
  bs_byte_offset :: u64
  bs_state :: bs_state

definition ByteStream_new :: "ref \<Rightarrow> byte_stream" where
  "ByteStream_new core = \<lparr>bs_core = core, bs_seq = 0, bs_block_offset = 0, bs_byte_offset = 0, bs_state = Idle\<rparr>"

definition RemoteHypercore_to_reader :: "ref \<Rightarrow> byte_stream" where
  "RemoteHypercore_to_reader core = ByteStream_new core"

text \<open>
  One round of the loop in \<open>poll_read\<close>, for a buffer of \<open>n\<close> bytes: it goes on, or it returns with the
  bytes it has copied to the front of the buffer.  Copying ends the loop, so \<open>pos\<close> is 0 when it starts.
\<close>

datatype 'a round = Again | Return "'a poll"

definition ByteStream_copy :: "nat \<Rightarrow> bytes \<Rightarrow> byte_stream \<Rightarrow> (bytes round \<times> byte_stream) result" where
  "ByteStream_copy n block bs =
     (if length block < unat (bs_block_offset bs) then Inl (Panic ''range start index out of range'')
      else
        let block_slice = drop (unat (bs_block_offset bs)) block;
            len = min n (length block_slice);
            block_offset = unat (bs_block_offset bs) + len
        in
        if block_offset = length block then
          case u64_add (bs_seq bs) 1 of
            Inl e \<Rightarrow> Inl e
          | Inr seq \<Rightarrow> Inr (Return (Ready (take len block_slice)), bs\<lparr>bs_seq := seq, bs_block_offset := 0, bs_state := Idle\<rparr>)
        else Inr (Return (Ready (take len block_slice)), bs\<lparr>bs_block_offset := of_nat block_offset, bs_state := BlockReady block\<rparr>))"

definition ByteStream_read_round ::
  "'w cl_ext \<Rightarrow> bool \<Rightarrow> nat \<Rightarrow> byte_stream \<Rightarrow> ('w cl_state, bytes round \<times> byte_stream) rust" where
  "ByteStream_read_round ext arrived n bs =
     (case bs_state bs of
        Seeking _ \<Rightarrow> rust_fail (Panic ''internal error: entered unreachable code'')
      | Finished \<Rightarrow> rust_return (Return (Ready []), bs)
      | Idle \<Rightarrow> rust_return (Again, bs\<lparr>bs_state := Reading (GetAt (bs_core bs) (bs_seq bs))\<rparr>)
      | Reading fut \<Rightarrow>
          rust_bind (poll_future ext arrived fut) (\<lambda>(poll_result, fut).
          case poll_result of
            Pending \<Rightarrow> rust_return (Return Pending, bs\<lparr>bs_state := Reading fut\<rparr>)
          | Ready (_, block) \<Rightarrow>
              (case block of
                 Inl _ \<Rightarrow> rust_return (Again, bs\<lparr>bs_state := Finished\<rparr>)
               | Inr None \<Rightarrow> rust_fail (Panic ''called Option::unwrap() on a None value'')
               | Inr (Some block) \<Rightarrow> rust_return (Again, bs\<lparr>bs_state := BlockReady block\<rparr>)))
      | BlockReady block \<Rightarrow> rust_lift (ByteStream_copy n block bs))"

fun bs_rank :: "bs_state \<Rightarrow> nat" where
  "bs_rank Idle = 2"
| "bs_rank (Reading _) = 1"
| "bs_rank _ = 0"

lemma read_round_again:
  "ByteStream_read_round ext arrived n bs s = (Inr (Again, bs'), s') \<Longrightarrow> bs_rank (bs_state bs') < bs_rank (bs_state bs)"
  by (auto simp: ByteStream_read_round_def ByteStream_copy_def rust_simps Let_def
      split: bs_state.splits prod.splits sum.splits poll.splits option.splits if_splits)

function ByteStream_poll_read ::
  "'w cl_ext \<Rightarrow> bool \<Rightarrow> nat \<Rightarrow> byte_stream \<Rightarrow> ('w cl_state, bytes poll \<times> byte_stream) rust" where
  "ByteStream_poll_read ext arrived n bs s =
     (case ByteStream_read_round ext arrived n bs s of
        (Inl e, s') \<Rightarrow> (Inl e, s')
      | (Inr (Return p, bs'), s') \<Rightarrow> (Inr (p, bs'), s')
      | (Inr (Again, bs'), s') \<Rightarrow> ByteStream_poll_read ext arrived n bs' s')"
  by pat_completeness auto
termination
  by (relation "measure (\<lambda>(ext, arrived, n, bs, s). bs_rank (bs_state bs))") (auto dest: read_round_again [OF sym])

declare ByteStream_poll_read.simps [simp del]

subsection \<open>Seeking\<close>

datatype seek_from = SeekStart u64 | SeekEnd u64 | SeekCurrent u64

text \<open>\<open>a as i64 + b\<close> with overflow checks, as \<open>u64\<close>.\<close>

definition i64_add :: "u64 \<Rightarrow> u64 \<Rightarrow> u64 result" where
  "i64_add a b =
     (if - (2 ^ 63) \<le> sint a + sint b \<and> sint a + sint b < 2 ^ 63 then Inr (a + b)
      else Inl (Panic ''attempt to add with overflow''))"

definition ByteStream_seek_target :: "seek_from \<Rightarrow> byte_stream \<Rightarrow> u64 result" where
  "ByteStream_seek_target pos bs =
     (case pos of
        SeekStart start \<Rightarrow> Inr start
      | SeekEnd _ \<Rightarrow> Inl (Panic ''not implemented'')
      | SeekCurrent pos \<Rightarrow> i64_add (bs_byte_offset bs) pos)"

definition ByteStream_seek_round ::
  "'w cl_ext \<Rightarrow> bool \<Rightarrow> seek_from \<Rightarrow> byte_stream \<Rightarrow> ('w cl_state, u64 round \<times> byte_stream) rust" where
  "ByteStream_seek_round ext arrived pos bs =
     (case bs_state bs of
        Seeking byte_offset \<Rightarrow>
          if arrived then
            rust_bind (rust_unwrap (RemoteHypercore_seek ext byte_offset (bs_core bs))) (\<lambda>(seq, block_offset).
            rust_return (Return (Ready (bs_byte_offset bs)),
              bs\<lparr>bs_seq := seq, bs_block_offset := block_offset, bs_state := Idle\<rparr>))
          else rust_return (Return Pending, bs)
      | _ \<Rightarrow>
          rust_bind (rust_lift (ByteStream_seek_target pos bs)) (\<lambda>next_byte_offset.
          rust_return (Again, bs\<lparr>bs_byte_offset := next_byte_offset, bs_state := Seeking next_byte_offset\<rparr>)))"

fun seek_rank :: "bs_state \<Rightarrow> nat" where
  "seek_rank (Seeking _) = 0"
| "seek_rank _ = 1"

lemma seek_round_again:
  "ByteStream_seek_round ext arrived pos bs s = (Inr (Again, bs'), s') \<Longrightarrow> seek_rank (bs_state bs') < seek_rank (bs_state bs)"
  by (auto simp: ByteStream_seek_round_def rust_simps split: bs_state.splits prod.splits sum.splits if_splits)

function ByteStream_poll_seek ::
  "'w cl_ext \<Rightarrow> bool \<Rightarrow> seek_from \<Rightarrow> byte_stream \<Rightarrow> ('w cl_state, u64 poll \<times> byte_stream) rust" where
  "ByteStream_poll_seek ext arrived pos bs s =
     (case ByteStream_seek_round ext arrived pos bs s of
        (Inl e, s') \<Rightarrow> (Inl e, s')
      | (Inr (Return p, bs'), s') \<Rightarrow> (Inr (p, bs'), s')
      | (Inr (Again, bs'), s') \<Rightarrow> ByteStream_poll_seek ext arrived pos bs' s')"
  by pat_completeness auto
termination
  by (relation "measure (\<lambda>(ext, arrived, pos, bs, s). seek_rank (bs_state bs))") (auto dest: seek_round_again [OF sym])

declare ByteStream_poll_seek.simps [simp del]

end
