(* ===== verification/Stream_Props.thy ===== *)
theory Stream_Props
  imports Streams Remote_Core_Props
begin

section \<open>What the streams yield\<close>

text \<open>
  The streams rely on the remote hypercore they read from: \<open>remote_log\<close> states what they need of it, that
  \<open>get\<close> answers with the blocks of a log and that the mirrored length is the log's length.  The lemmas
  inside the locale say what polling a stream yields then, whatever the timing of the answers.
\<close>

subsection \<open>Driving a stream\<close>

text \<open>Polling again and again; \<open>arrived\<close> says for each poll whether an answer was there.\<close>

fun drive_stream ::
  "'w cl_ext \<Rightarrow> bool list \<Rightarrow> read_stream \<Rightarrow> ('w cl_state, (string + bytes) option list \<times> read_stream) rust" where
  "drive_stream ext [] rs = rust_return ([], rs)"
| "drive_stream ext (a # as) rs =
     rust_bind (ReadStream_poll_next ext a rs) (\<lambda>(p, rs).
     rust_bind (drive_stream ext as rs) (\<lambda>(items, rs).
     rust_return (case p of Pending \<Rightarrow> items | Ready x \<Rightarrow> x # items, rs)))"

fun drive_reader ::
  "'w cl_ext \<Rightarrow> (bool \<times> nat) list \<Rightarrow> byte_stream \<Rightarrow> ('w cl_state, bytes list \<times> byte_stream) rust" where
  "drive_reader ext [] bs = rust_return ([], bs)"
| "drive_reader ext ((a, n) # ps) bs =
     rust_bind (ByteStream_poll_read ext a n bs) (\<lambda>(p, bs).
     rust_bind (drive_reader ext ps bs) (\<lambda>(outs, bs).
     rust_return (case p of Pending \<Rightarrow> outs | Ready out \<Rightarrow> out # outs, bs)))"

locale remote_log =
  fixes ext :: "'w cl_ext" and core :: ref and blocks :: "bytes list" and inv :: "'w cl_state \<Rightarrow> bool"
  assumes get_block: "inv s \<Longrightarrow> unat i < length blocks \<Longrightarrow>
      \<exists>s'. RemoteHypercore_get ext i core s = (Inr (Some (blocks ! unat i)), s') \<and> inv s'"
    and mirrored: "inv s \<Longrightarrow> RemoteHypercore_len core s = (Inr (of_nat (length blocks)), s)"
    and small: "inv s \<Longrightarrow> length blocks < 2 ^ 64 \<and> (\<forall>b \<in> set blocks. length b < 2 ^ 64)"
begin

lemma poll_get_block:
  assumes "inv s" and "unat i < length blocks"
  shows "\<exists>s'. poll_get ext True core i s = (Inr (Ready (core, Inr (Some (blocks ! unat i))), GetAt core i), s') \<and> inv s'"
  using get_block [OF assms] by (auto simp: poll_get_def rust_bind_apply rust_result_def rust_return_apply)

lemma poll_get_pending: "poll_get ext False core i s = (Inr (Pending, GetAt core i), s)"
  by (simp add: poll_get_def rust_return_apply)

subsubsection \<open>Blocks\<close>

text \<open>The stream stands at block \<open>i\<close> and ends before block \<open>e\<close>.\<close>

definition reading_at :: "nat \<Rightarrow> nat \<Rightarrow> read_stream \<Rightarrow> bool" where
  "reading_at i e rs \<longleftrightarrow>
     i < e \<and> e \<le> length blocks \<and> rs_future rs = GetAt core (of_nat i) \<and> rs_index rs = of_nat i \<and>
     (case rs_end rs of Some u \<Rightarrow> u = of_nat e | None \<Rightarrow> e = length blocks) \<and> \<not> rs_live rs \<and> \<not> rs_finished rs"

lemma poll_next_block:
  assumes inv: "inv s" and at: "reading_at i e rs"
  shows "\<exists>rs' s'. ReadStream_poll_next ext True rs s = (Inr (Ready (Some (Inr (blocks ! i))), rs'), s') \<and> inv s' \<and>
    (if Suc i = e then rs_finished rs' else reading_at (Suc i) e rs')"
proof -
  have i: "unat (of_nat i :: u64) = i" "unat (of_nat (Suc i) :: u64) = Suc i" "unat (of_nat e :: u64) = e"
    using at small [OF inv] unat_of_nat_u64 [of i] unat_of_nat_u64 [of "Suc i"] unat_of_nat_u64 [of e] by (simp_all add: reading_at_def)
  obtain s1 where s1: "poll_get ext True core (of_nat i) s
      = (Inr (Ready (core, Inr (Some (blocks ! i))), GetAt core (of_nat i)), s1)" "inv s1"
    using poll_get_block [OF inv, of "of_nat i"] at i by (auto simp: reading_at_def)
  have len: "(case rs_end rs of Some e \<Rightarrow> rust_return e | None \<Rightarrow> RemoteHypercore_len core) s1 = (Inr (of_nat e), s1)"
    using at mirrored [OF s1(2)] by (auto simp: reading_at_def rust_return_apply split: option.splits)
  have next_index: "u64_add (of_nat i) 1 = Inr (of_nat (Suc i))"
    using i by (simp only: u64_add_eq_Inr) simp
  have "of_nat e = (of_nat (Suc i) :: u64) \<longleftrightarrow> e = Suc i"
    using i by (metis (no_types))
  then show ?thesis
    using at s1 len next_index
    by (auto simp: ReadStream_poll_next_def poll_future_def reading_at_def rust_bind_apply rust_return_apply rust_lift_apply
        Let_def)
qed

lemma poll_next_pending:
  assumes "reading_at i e rs"
  shows "ReadStream_poll_next ext False rs s = (Inr (Pending, rs), s)"
  using assms by (simp add: ReadStream_poll_next_def poll_future_def poll_get_pending reading_at_def rust_bind_apply
      rust_return_apply)

lemma drive_finished:
  "rs_finished rs \<Longrightarrow> drive_stream ext as rs s = (Inr (replicate (length as) None, rs), s)"
  by (induction as) (simp_all add: ReadStream_poll_next_def rust_bind_apply rust_return_apply)

text \<open>
  With \<open>k\<close> answers so far the stream has yielded the first \<open>k\<close> blocks of its range, and only then does it
  report its end.
\<close>

lemma drive_stream_blocks:
  assumes "inv s" and "reading_at i e rs"
  shows "\<exists>m rs' s'. drive_stream ext as rs s =
      (Inr (map (\<lambda>b. Some (Inr b)) (take (count_list as True) (drop i (take e blocks))) @ replicate m None, rs'), s')
    \<and> inv s' \<and> (rs_finished rs' \<longleftrightarrow> e - i \<le> count_list as True) \<and> (m \<noteq> 0 \<longrightarrow> rs_finished rs')"
  using assms
proof (induction as arbitrary: s i rs)
  case Nil
  then show ?case by (auto simp: rust_return_apply reading_at_def)
next
  case (Cons a as)
  show ?case
  proof (cases a)
    case False
    obtain m rs' s' where "drive_stream ext as rs s =
        (Inr (map (\<lambda>b. Some (Inr b)) (take (count_list as True) (drop i (take e blocks))) @ replicate m None, rs'), s')"
        "inv s'" "rs_finished rs' \<longleftrightarrow> e - i \<le> count_list as True" "m \<noteq> 0 \<longrightarrow> rs_finished rs'"
      using Cons.IH [OF Cons.prems] by blast
    with False poll_next_pending [OF Cons.prems(2)] show ?thesis
      by (auto simp: rust_bind_apply rust_return_apply)
  next
    case True
    obtain rs1 s1 where s1: "ReadStream_poll_next ext True rs s = (Inr (Ready (Some (Inr (blocks ! i))), rs1), s1)" "inv s1"
        "if Suc i = e then rs_finished rs1 else reading_at (Suc i) e rs1"
      using poll_next_block [OF Cons.prems] by blast
    have i: "i < e" "e \<le> length blocks" using Cons.prems(2) by (simp_all add: reading_at_def)
    then have seg: "drop i (take e blocks) = blocks ! i # drop (Suc i) (take e blocks)"
      by (metis Cons_nth_drop_Suc length_take min.absorb2 nth_take)
    show ?thesis
    proof (cases "Suc i = e")
      case True
      with s1 seg i \<open>a\<close> drive_finished [of rs1 as s1] show ?thesis
        by (intro exI [of _ "length as"]) (auto simp: rust_bind_apply rust_return_apply)
    next
      case False
      have at1: "reading_at (Suc i) e rs1" using s1(3) False by simp
      obtain m rs' s' where "drive_stream ext as rs1 s1 = (Inr (map (\<lambda>b. Some (Inr b))
          (take (count_list as True) (drop (Suc i) (take e blocks))) @ replicate m None, rs'), s')"
          "inv s'" "rs_finished rs' \<longleftrightarrow> e - Suc i \<le> count_list as True" "m \<noteq> 0 \<longrightarrow> rs_finished rs'"
        using Cons.IH [OF s1(2) at1] by blast
      with s1 seg i \<open>a\<close> show ?thesis
        by (intro exI [of _ m]) (auto simp: rust_bind_apply rust_return_apply)
    qed
  qed
qed

subsubsection \<open>Bytes\<close>

text \<open>
  The reader stands \<open>off\<close> bytes into block \<open>seq\<close>, in one of its states: nothing requested, the block
  requested, or the block at hand.
\<close>

definition reader_at :: "byte_stream \<Rightarrow> bool" where
  "reader_at bs \<longleftrightarrow>
     bs_core bs = core \<and> unat (bs_seq bs) < length blocks \<and>
     unat (bs_block_offset bs) < length (blocks ! unat (bs_seq bs)) \<and>
     bs_state bs \<in> {Idle, Reading (GetAt core (bs_seq bs)), BlockReady (blocks ! unat (bs_seq bs))}"

definition reader_after :: "byte_stream \<Rightarrow> bool" where
  "reader_after bs \<longleftrightarrow> bs_core bs = core \<and> (reader_at bs \<or> bs_state bs = Idle \<and> bs_block_offset bs = 0)"

definition unread :: "byte_stream \<Rightarrow> bytes" where
  "unread bs = drop (unat (bs_block_offset bs)) (concat (drop (unat (bs_seq bs)) blocks))"

lemma unread_block:
  assumes "reader_at bs"
  shows "unread bs = drop (unat (bs_block_offset bs)) (blocks ! unat (bs_seq bs)) @ concat (drop (Suc (unat (bs_seq bs))) blocks)"
proof -
  have "drop (unat (bs_seq bs)) blocks = blocks ! unat (bs_seq bs) # drop (Suc (unat (bs_seq bs))) blocks"
    using assms by (metis Cons_nth_drop_Suc reader_at_def)
  with assms show ?thesis by (simp add: unread_def reader_at_def)
qed

lemma copy_block:
  assumes inv: "inv s" and at: "reader_at bs" and st: "bs_state bs = BlockReady (blocks ! unat (bs_seq bs))" and n: "0 < n"
  shows "\<exists>out bs'. ByteStream_copy n (blocks ! unat (bs_seq bs)) bs = Inr (Return (Ready out), bs') \<and>
    out \<noteq> [] \<and> length out \<le> n \<and> unread bs = out @ unread bs' \<and> reader_after bs'"
proof -
  let ?b = "blocks ! unat (bs_seq bs)" and ?o = "unat (bs_block_offset bs)"
  let ?len = "min n (length ?b - ?o)"
  have o: "?o < length ?b" and seq: "unat (bs_seq bs) < length blocks" and core: "bs_core bs = core"
    using at by (simp_all add: reader_at_def)
  have "bs_seq bs \<noteq> - 1"
  proof
    assume "bs_seq bs = - 1"
    then have "unat (bs_seq bs) = 2 ^ 64 - 1" by (simp add: unsigned_minus_1_eq_mask mask_eq_exp_minus_1)
    with seq small [OF inv] show False by simp
  qed
  then have "unat (bs_seq bs + 1) = Suc (unat (bs_seq bs))" by (rule unat_u64_Suc)
  then have add: "u64_add (bs_seq bs) 1 = Inr (bs_seq bs + 1)" "unat (bs_seq bs + 1) = Suc (unat (bs_seq bs))"
    by (simp_all add: u64_add_eq_Inr)
  show ?thesis
  proof (cases "length ?b - ?o \<le> n")
    case True
    then have "ByteStream_copy n ?b bs =
        Inr (Return (Ready (drop ?o ?b)), bs\<lparr>bs_seq := bs_seq bs + 1, bs_block_offset := 0, bs_state := Idle\<rparr>)"
      using o add by (simp add: ByteStream_copy_def Let_def)
    with o True core add unread_block [OF at] show ?thesis
      by (auto simp: unread_def reader_after_def)
  next
    case False
    have "length ?b < 2 ^ 64" using small [OF inv] seq by simp
    with False have o': "unat (of_nat (?o + n) :: u64) = ?o + n" by (intro unat_of_nat_u64) simp
    have copy: "ByteStream_copy n ?b bs = Inr (Return (Ready (take n (drop ?o ?b))),
        bs\<lparr>bs_block_offset := of_nat (?o + n), bs_state := BlockReady ?b\<rparr>)" (is "_ = Inr (_, ?bs)")
    proof -
      have "min n (length ?b - ?o) = n" "?o + n \<noteq> length ?b" using False by simp_all
      with o show ?thesis by (simp add: ByteStream_copy_def Let_def)
    qed
    have at': "reader_at ?bs"
      using at False o' by (simp add: reader_at_def)
    have "unread bs = take n (drop ?o ?b) @ unread ?bs"
      using unread_block [OF at] unread_block [OF at'] o' by (simp add: add.commute) (metis append_take_drop_id drop_drop append.assoc)
    with copy at' n False core show ?thesis by (auto simp: reader_after_def)
  qed
qed

lemma poll_read_ready:
  assumes "inv s" and "reader_at bs" and "bs_state bs = BlockReady (blocks ! unat (bs_seq bs))" and "0 < n"
  shows "\<exists>out bs'. ByteStream_poll_read ext arrived n bs s = (Inr (Ready out, bs'), s) \<and>
    out \<noteq> [] \<and> length out \<le> n \<and> unread bs = out @ unread bs' \<and> reader_after bs'"
  using copy_block [OF assms]
  by (auto simp: ByteStream_poll_read.simps [of ext arrived n bs s] ByteStream_read_round_def assms(3) rust_lift_apply)

text \<open>A poll with an answer returns the next bytes; a poll without one leaves the reader where it is.\<close>

lemma poll_read_chunk:
  assumes inv: "inv s" and at: "reader_at bs" and n: "0 < n"
  shows "\<exists>out bs' s'. ByteStream_poll_read ext True n bs s = (Inr (Ready out, bs'), s') \<and> inv s' \<and>
    out \<noteq> [] \<and> length out \<le> n \<and> unread bs = out @ unread bs' \<and> reader_after bs'"
proof -
  let ?b = "blocks ! unat (bs_seq bs)" and ?fut = "GetAt core (bs_seq bs)"
  have seq: "unat (bs_seq bs) < length blocks" using at by (simp add: reader_at_def)
  obtain s1 where s1: "poll_get ext True core (bs_seq bs) s = (Inr (Ready (core, Inr (Some ?b)), ?fut), s1)" "inv s1"
    using poll_get_block [OF inv seq] by blast
  let ?bs = "bs\<lparr>bs_state := BlockReady ?b\<rparr>"
  have at': "reader_at ?bs" and same: "unread ?bs = unread bs"
    using at by (simp_all add: reader_at_def unread_def)
  have from_block: "ByteStream_poll_read ext True n (bs\<lparr>bs_state := Reading ?fut\<rparr>) s = ByteStream_poll_read ext True n ?bs s1"
    by (simp add: ByteStream_poll_read.simps [of ext True n "bs\<lparr>bs_state := Reading ?fut\<rparr>" s] ByteStream_read_round_def
        poll_future_def rust_bind_apply s1 rust_return_apply)
  from at consider "bs_state bs = Idle" | "bs_state bs = Reading ?fut" | "bs_state bs = BlockReady ?b"
    by (auto simp: reader_at_def)
  then show ?thesis
  proof cases
    case 1
    then have "ByteStream_poll_read ext True n bs s = ByteStream_poll_read ext True n (bs\<lparr>bs_state := Reading ?fut\<rparr>) s"
      using at by (simp add: ByteStream_poll_read.simps [of ext True n bs s] ByteStream_read_round_def rust_return_apply reader_at_def)
    with from_block poll_read_ready [OF s1(2) at' _ n, of True] s1(2) same show ?thesis by auto
  next
    case 2
    then have "bs\<lparr>bs_state := Reading ?fut\<rparr> = bs" by simp
    with from_block poll_read_ready [OF s1(2) at' _ n, of True] s1(2) same show ?thesis by auto
  next
    case 3
    with poll_read_ready [OF inv at 3 n, of True] inv show ?thesis by blast
  qed
qed

text \<open>Without an answer the reader waits, or hands out more of the block it has.\<close>

definition reader_ok :: "byte_stream \<Rightarrow> bool" where
  "reader_ok bs \<longleftrightarrow> reader_at bs \<or>
     unread bs = [] \<and> bs_core bs = core \<and> bs_state bs \<in> {Idle, Reading (GetAt core (bs_seq bs))}"

lemma reader_after_ok:
  assumes "[] \<notin> set blocks" and "reader_after bs"
  shows "reader_ok bs"
proof (cases "unat (bs_seq bs) < length blocks")
  case True
  with assms(1) have "blocks ! unat (bs_seq bs) \<noteq> []" by (metis nth_mem)
  with True assms(2) show ?thesis by (auto simp: reader_ok_def reader_after_def reader_at_def)
next
  case False
  then have "unread bs = []" by (simp add: unread_def)
  with False assms(2) show ?thesis by (auto simp: reader_ok_def reader_after_def reader_at_def)
qed

lemma poll_read_pending:
  assumes "bs_core bs = core" and "bs_state bs \<in> {Idle, Reading (GetAt core (bs_seq bs))}"
  shows "ByteStream_poll_read ext False n bs s = (Inr (Pending, bs\<lparr>bs_state := Reading (GetAt core (bs_seq bs))\<rparr>), s)"
proof -
  have wait: "ByteStream_poll_read ext False n (bs\<lparr>bs_state := Reading (GetAt core (bs_seq bs))\<rparr>) s
      = (Inr (Pending, bs\<lparr>bs_state := Reading (GetAt core (bs_seq bs))\<rparr>), s)"
    by (simp add: ByteStream_poll_read.simps ByteStream_read_round_def poll_future_def poll_get_pending rust_bind_apply
        rust_return_apply)
  show ?thesis
  proof (cases "bs_state bs = Idle")
    case True
    with assms(1) wait show ?thesis
      by (simp add: ByteStream_poll_read.simps [of ext False n bs s] ByteStream_read_round_def rust_return_apply)
  next
    case False
    with assms(2) have "bs\<lparr>bs_state := Reading (GetAt core (bs_seq bs))\<rparr> = bs" by simp
    with wait show ?thesis by simp
  qed
qed

lemma poll_read_step:
  assumes full: "[] \<notin> set blocks" and inv: "inv s" and ok: "reader_ok bs" and n: "0 < n" "n \<le> length (unread bs)"
  shows "\<exists>p bs' s'. ByteStream_poll_read ext a n bs s = (Inr (p, bs'), s') \<and> inv s' \<and> reader_ok bs' \<and>
    (case p of Pending \<Rightarrow> \<not> a \<and> unread bs' = unread bs
     | Ready out \<Rightarrow> out \<noteq> [] \<and> length out \<le> n \<and> unread bs = out @ unread bs')"
proof -
  have at: "reader_at bs" using ok n by (auto simp: reader_ok_def)
  show ?thesis
  proof (cases "a \<or> bs_state bs = BlockReady (blocks ! unat (bs_seq bs))")
    case True
    then obtain out bs' s' where out: "ByteStream_poll_read ext a n bs s = (Inr (Ready out, bs'), s')" "inv s'"
        "out \<noteq> []" "length out \<le> n" "unread bs = out @ unread bs'" "reader_after bs'"
      using poll_read_chunk [OF inv at n(1)] poll_read_ready [OF inv at _ n(1), of a] inv by (cases a) auto
    with reader_after_ok [OF full out(6)] show ?thesis
      by (intro exI [of _ "Ready out"] exI [of _ bs'] exI [of _ s']) simp
  next
    case False
    with at have "ByteStream_poll_read ext a n bs s = (Inr (Pending, bs\<lparr>bs_state := Reading (GetAt core (bs_seq bs))\<rparr>), s)"
      using poll_read_pending [of bs n s] by (auto simp: reader_at_def)
    moreover have "reader_ok (bs\<lparr>bs_state := Reading (GetAt core (bs_seq bs))\<rparr>)"
        "unread (bs\<lparr>bs_state := Reading (GetAt core (bs_seq bs))\<rparr>) = unread bs"
      using at by (auto simp: reader_ok_def reader_at_def unread_def)
    ultimately show ?thesis using inv False by auto
  qed
qed

lemma drive_reader_bytes:
  assumes full: "[] \<notin> set blocks"
    and "inv s" and "reader_ok bs" and "\<forall>p \<in> set ps. 0 < snd p" and "sum_list (map snd ps) \<le> length (unread bs)"
  shows "\<exists>outs bs' s'. drive_reader ext ps bs s = (Inr (outs, bs'), s') \<and> inv s' \<and>
    unread bs = concat outs @ unread bs' \<and> [] \<notin> set outs \<and> length (filter fst ps) \<le> length outs"
  using assms(2-5)
proof (induction ps arbitrary: s bs)
  case Nil
  then show ?case by (simp add: rust_return_apply)
next
  case (Cons q ps)
  obtain a n where q: "q = (a, n)" by (cases q)
  have n: "0 < n" "n \<le> length (unread bs)" using Cons.prems(3,4) q by simp_all
  obtain p bs1 s1 where s1: "ByteStream_poll_read ext a n bs s = (Inr (p, bs1), s1)" "inv s1" "reader_ok bs1"
      and p: "case p of Pending \<Rightarrow> \<not> a \<and> unread bs1 = unread bs
        | Ready out \<Rightarrow> out \<noteq> [] \<and> length out \<le> n \<and> unread bs = out @ unread bs1"
    using poll_read_step [OF full Cons.prems(1,2) n, of a] by blast
  have "sum_list (map snd ps) \<le> length (unread bs1)"
    using p Cons.prems(4) q by (cases p) auto
  with Cons.IH [OF s1(2,3)] Cons.prems(3) obtain outs bs' s' where
    "drive_reader ext ps bs1 s1 = (Inr (outs, bs'), s')" "inv s'" "unread bs1 = concat outs @ unread bs'"
    "[] \<notin> set outs" "length (filter fst ps) \<le> length outs" by auto
  with s1 p q show ?case
    by (cases p) (auto simp: rust_bind_apply rust_return_apply)
qed

end

end
