(* ===== verification/Stream_Theorems.thy ===== *)
theory Stream_Theorems
  imports Stream_Props Client_Theorems
begin

section \<open>Seeking, and the limits of the streams\<close>

text \<open>
  What a seek does, and the inputs for which a stream does not do what its user expects: ranges that are
  empty, empty blocks, blocks that are not there, and relative seeks after reading.
\<close>

lemma poll_read_idle:
  assumes "bs_state bs = Idle" and "RemoteHypercore_get ext (bs_seq bs) (bs_core bs) s = (r, s')" and "\<forall>e. r \<noteq> Inl (Panic e)"
  shows "ByteStream_poll_read ext True n bs s = (case r of
      Inl e \<Rightarrow> (Inr (Ready [], bs\<lparr>bs_state := Finished\<rparr>), s')
    | Inr None \<Rightarrow> (Inl (Panic ''called Option::unwrap() on a None value''), s')
    | Inr (Some b) \<Rightarrow> ByteStream_poll_read ext True n (bs\<lparr>bs_state := BlockReady b\<rparr>) s')"
proof -
  let ?fut = "GetAt (bs_core bs) (bs_seq bs)"
  have first: "ByteStream_poll_read ext True n bs s = ByteStream_poll_read ext True n (bs\<lparr>bs_state := Reading ?fut\<rparr>) s"
    using assms(1) by (simp add: ByteStream_poll_read.simps [of ext True n bs s] ByteStream_read_round_def rust_return_apply)
  have finished: "ByteStream_poll_read ext True n (bs\<lparr>bs_state := Finished\<rparr>) t = (Inr (Ready [], bs\<lparr>bs_state := Finished\<rparr>), t)" for t
    by (simp add: ByteStream_poll_read.simps ByteStream_read_round_def rust_return_apply)
  show ?thesis
    using assms(2,3) finished
    by (auto simp: first ByteStream_poll_read.simps [of ext True n "bs\<lparr>bs_state := Reading ?fut\<rparr>" s] ByteStream_read_round_def
        poll_future_def poll_get_def rust_bind_apply rust_result_def rust_return_apply rust_fail_apply
        split: sum.splits option.splits fault.splits)
qed

lemma poll_read_idle_cases:
  assumes "bs_state bs = Idle"
  shows "RemoteHypercore_get ext (bs_seq bs) (bs_core bs) s = (Inr (Some b), s') \<Longrightarrow>
      ByteStream_poll_read ext True n bs s = ByteStream_poll_read ext True n (bs\<lparr>bs_state := BlockReady b\<rparr>) s'"
    and "RemoteHypercore_get ext (bs_seq bs) (bs_core bs) s = (Inr None, s') \<Longrightarrow>
      ByteStream_poll_read ext True n bs s = (Inl (Panic ''called Option::unwrap() on a None value''), s')"
    and "RemoteHypercore_get ext (bs_seq bs) (bs_core bs) s = (Inl (IoError e), s') \<Longrightarrow>
      ByteStream_poll_read ext True n bs s = (Inr (Ready [], bs\<lparr>bs_state := Finished\<rparr>), s')"
  using poll_read_idle [OF assms, of ext s "Inr (Some b)" s' n] poll_read_idle [OF assms, of ext s "Inr None" s' n]
    poll_read_idle [OF assms, of ext s "Inl (IoError e)" s' n] by simp_all

subsection \<open>Seeking\<close>

text \<open>
  When the server answers, a seek to an absolute offset leaves the reader idle at the block and the
  offset in it that the server reported, and returns the requested offset; whatever block it had is
  dropped.  When the server answers with an error, the seek panics.
\<close>

theorem poll_seek_lands:
  assumes "\<forall>o'. bs_state bs \<noteq> Seeking o'"
  shows "(\<forall>seq off s'. RemoteHypercore_seek ext pos (bs_core bs) s = (Inr (seq, off), s') \<longrightarrow>
      ByteStream_poll_seek ext True (SeekStart pos) bs s =
        (Inr (Ready pos, bs\<lparr>bs_seq := seq, bs_block_offset := off, bs_byte_offset := pos, bs_state := Idle\<rparr>), s'))
    \<and> (\<forall>e s'. RemoteHypercore_seek ext pos (bs_core bs) s = (Inl (IoError e), s') \<longrightarrow>
      ByteStream_poll_seek ext True (SeekStart pos) bs s = (Inl (Panic e), s'))"
proof -
  let ?bs = "bs\<lparr>bs_byte_offset := pos, bs_state := Seeking pos\<rparr>"
  have "ByteStream_seek_round ext True (SeekStart pos) bs s = (Inr (Again, ?bs), s)"
    using assms by (simp add: ByteStream_seek_round_def ByteStream_seek_target_def rust_bind_apply rust_lift_apply
        rust_return_apply split: bs_state.splits)
  then have "ByteStream_poll_seek ext True (SeekStart pos) bs s = ByteStream_poll_seek ext True (SeekStart pos) ?bs s"
    by (simp add: ByteStream_poll_seek.simps [of ext True _ bs s])
  then show ?thesis
    by (simp add: ByteStream_poll_seek.simps [of ext True _ ?bs s] ByteStream_seek_round_def rust_bind_apply
        rust_unwrap_apply rust_return_apply)
qed

definition seeking_rpc :: "bytes list cl_ext" where
  "seeking_rpc = sample_rpc\<lparr>rpc_seek := (\<lambda>req w. (Inr \<lparr>sk_seq = 1, sk_block_offset = 2\<rparr>, w))\<rparr>"

theorem poll_seek_lands_witness:
  "\<exists>s' r. ByteStream_poll_seek seeking_rpc True (SeekStart 4) (ByteStream_new 0) sample_opened_client = (Inr (Ready 4, r), s') \<and>
     bs_seq r = 1 \<and> bs_block_offset r = 2"
proof -
  obtain i where "deref (cl_cores sample_opened_client) 0 = Some i"
    using sample_opened_session sample_opened_client_inv by (auto simp: client_inv_def sessions_ok_def)
  then have "\<exists>s'. RemoteHypercore_seek seeking_rpc 4 0 sample_opened_client = (Inr (1, 2), s')"
    by (simp add: RemoteHypercore_seek_def read_core_bind rust_bind_apply read_core_run on_server_def seeking_rpc_def rust_return_apply)
  then obtain s' where "RemoteHypercore_seek seeking_rpc 4 (bs_core (ByteStream_new 0)) sample_opened_client = (Inr (1, 2), s')"
    by (auto simp: ByteStream_new_def)
  with poll_seek_lands [of "ByteStream_new 0" seeking_rpc 4 sample_opened_client] show ?thesis
    by (auto simp: ByteStream_new_def)
qed

text \<open>
  C28. Reading does not move the offset that relative seeks start from: after any successful \<open>poll_read\<close>,
  \<open>SeekFrom::Current(d)\<close> still aims at \<open>d\<close> bytes after the last seek, not after the bytes read.
\<close>

theorem relative_seek_ignores_reads:
  assumes "ByteStream_poll_read ext a n r s = (Inr (p, r'), s')"
  shows "ByteStream_seek_target (SeekCurrent d) r' = i64_add (bs_byte_offset r) d"
proof -
  have "bs_byte_offset r' = bs_byte_offset r"
    using assms
  proof (induction ext a n r s rule: ByteStream_poll_read.induct)
    case (1 ext a n r s)
    show ?case
    proof (cases "ByteStream_read_round ext a n r s")
      case (Pair res t)
      have keep: "bs_byte_offset r1 = bs_byte_offset r" if "res = Inr (x, r1)" for x r1
        using Pair that by (auto simp: ByteStream_read_round_def ByteStream_copy_def rust_simps Let_def
            split: bs_state.splits prod.splits sum.splits poll.splits option.splits if_splits)
      show ?thesis
        using 1 Pair keep
        by (auto simp: ByteStream_poll_read.simps [of ext a n r s] split: sum.splits prod.splits round.splits)
    qed
  qed
  then show ?thesis by (simp add: ByteStream_seek_target_def)
qed

lemma sample_cell: "\<exists>i. deref (cl_cores sample_opened_client) 0 = Some i"
  using sample_opened_session sample_opened_client_inv by (auto simp: client_inv_def sessions_ok_def)

text \<open>A client whose server answers \<open>get\<close> with \<open>blocks\<close>.\<close>

definition serving :: "(u64 \<Rightarrow> bytes option) \<Rightarrow> bytes list cl_ext" where
  "serving blocks = sample_rpc\<lparr>rpc_get := (\<lambda>req w. (Inr \<lparr>gs_block = blocks (gr_seq req)\<rparr>, w))\<rparr>"

lemma serving_get: "\<exists>s'. RemoteHypercore_get (serving blocks) i 0 sample_opened_client = (Inr (blocks i), s')"
proof -
  obtain c where "deref (cl_cores sample_opened_client) 0 = Some c" using sample_cell by blast
  then show ?thesis
    by (simp add: RemoteHypercore_get_def rust_bind_apply read_core_run rust_get_apply rust_modify_apply on_server_def
        serving_def rust_return_apply)
qed

theorem relative_seek_ignores_reads_witness:
  "\<exists>r' s'. ByteStream_poll_read (serving (\<lambda>_. Some [1, 2])) True 2 (ByteStream_new 0) sample_opened_client
      = (Inr (Ready [1, 2], r'), s') \<and> ByteStream_seek_target (SeekCurrent 5) r' = i64_add 0 5"
proof -
  let ?r = "ByteStream_new 0"
  obtain s1 where "RemoteHypercore_get (serving (\<lambda>_. Some [1, 2])) (bs_seq ?r) (bs_core ?r) sample_opened_client
      = (Inr (Some [1, 2]), s1)"
    using serving_get [of "\<lambda>_. Some [1, 2]"] by (auto simp: ByteStream_new_def)
  then have "\<exists>r'. ByteStream_poll_read (serving (\<lambda>_. Some [1, 2])) True 2 ?r sample_opened_client = (Inr (Ready [1, 2], r'), s1)"
    by (subst poll_read_idle_cases(1), simp_all add: ByteStream_new_def)
      (simp add: ByteStream_poll_read.simps ByteStream_read_round_def ByteStream_copy_def rust_lift_apply u64_add_def)
  then obtain r' where run: "ByteStream_poll_read (serving (\<lambda>_. Some [1, 2])) True 2 ?r sample_opened_client
      = (Inr (Ready [1, 2], r'), s1)" by blast
  from relative_seek_ignores_reads [OF run, of 5] run show ?thesis
    by (auto simp: ByteStream_new_def)
qed

subsection \<open>Limits\<close>

text \<open>
  C29. A stream whose end is not after its start does not stop: its first item is the block at \<open>start\<close>,
  which is outside the requested range, and it goes on with the block after it.
\<close>

theorem read_stream_overruns:
  assumes "e \<le> start" and "start \<noteq> - 1" and "RemoteHypercore_get ext start q s = (Inr (Some b), s')"
  shows "\<exists>rs. ReadStream_poll_next ext True (RemoteHypercore_to_stream q start (Some e) live) s = (Inr (Ready (Some (Inr b)), rs), s') \<and>
    \<not> rs_finished rs \<and> rs_future rs = GetAt q (start + 1)"
proof -
  have Suc: "unat (start + 1) = Suc (unat start)" using assms(2) by (rule unat_u64_Suc)
  then have "u64_add start 1 = Inr (start + 1)" by (simp add: u64_add_eq_Inr)
  moreover have "e \<noteq> start + 1" using assms(1) Suc by (auto simp: word_le_nat_alt)
  ultimately show ?thesis
    using assms(3) by (simp add: RemoteHypercore_to_stream_def ReadStream_new_def ReadStream_poll_next_def poll_future_def
        poll_get_def rust_bind_apply rust_result_def rust_return_apply rust_lift_apply)
qed

theorem read_stream_overruns_witness:
  "\<exists>rs s'. ReadStream_poll_next (serving (\<lambda>_. Some [7])) True (RemoteHypercore_to_stream 0 2 (Some 2) False) sample_opened_client
      = (Inr (Ready (Some (Inr [7])), rs), s') \<and> \<not> rs_finished rs"
proof -
  obtain s' where get: "RemoteHypercore_get (serving (\<lambda>_. Some [7])) 2 0 sample_opened_client = (Inr (Some [7]), s')"
    using serving_get [of "\<lambda>_. Some [7]"] by blast
  have "(2 :: u64) \<noteq> - 1" by simp
  from read_stream_overruns [OF order_refl this get, of False] show ?thesis by blast
qed

text \<open>
  An empty block looks like the end of the feed: reading from a fresh reader whose first block is empty
  returns 0 bytes, although the reader has only moved to the next block and further reads return its
  bytes.
\<close>

theorem empty_block_reads_as_end:
  assumes "RemoteHypercore_get ext 0 q s = (Inr (Some []), s')"
  shows "ByteStream_poll_read ext True n (RemoteHypercore_to_reader q) s =
    (Inr (Ready [], (RemoteHypercore_to_reader q)\<lparr>bs_seq := 1\<rparr>), s')"
proof -
  let ?r = "RemoteHypercore_to_reader q"
  have "ByteStream_poll_read ext True n ?r s = ByteStream_poll_read ext True n (?r\<lparr>bs_state := BlockReady []\<rparr>) s'"
    using assms by (intro poll_read_idle_cases(1)) (simp_all add: RemoteHypercore_to_reader_def ByteStream_new_def)
  moreover have "ByteStream_poll_read ext True n (?r\<lparr>bs_state := BlockReady []\<rparr>) s' = (Inr (Ready [], ?r\<lparr>bs_seq := 1\<rparr>), s')"
    by (subst ByteStream_poll_read.simps) (simp add: ByteStream_read_round_def ByteStream_copy_def rust_lift_apply u64_add_def
        RemoteHypercore_to_reader_def ByteStream_new_def)
  ultimately show ?thesis by simp
qed

theorem empty_block_reads_as_end_witness:
  "\<exists>r s'. ByteStream_poll_read (serving (\<lambda>i. Some (if i = 0 then [] else [7]))) True 4 (RemoteHypercore_to_reader 0) sample_opened_client
      = (Inr (Ready [], r), s') \<and> bs_state r = Idle \<and> bs_seq r = 1"
proof -
  obtain s' where get: "RemoteHypercore_get (serving (\<lambda>i. Some (if i = 0 then [] else [7]))) 0 0 sample_opened_client = (Inr (Some []), s')"
    using serving_get [of "\<lambda>i. Some (if i = 0 then [] else [7])" 0] by auto
  from empty_block_reads_as_end [OF get, of 4] show ?thesis
    by (simp add: RemoteHypercore_to_reader_def ByteStream_new_def)
qed

text \<open>
  When the server has no block at the reader's position, as at the end of a feed, it answers without a
  block and the read panics; it reports the end only when the server answers with an error.
\<close>

theorem missing_block_panics:
  assumes "bs_state r = Idle"
  shows "(\<forall>s'. RemoteHypercore_get ext (bs_seq r) (bs_core r) s = (Inr None, s') \<longrightarrow>
      ByteStream_poll_read ext True n r s = (Inl (Panic ''called Option::unwrap() on a None value''), s'))
    \<and> (\<forall>e s'. RemoteHypercore_get ext (bs_seq r) (bs_core r) s = (Inl (IoError e), s') \<longrightarrow>
      ByteStream_poll_read ext True n r s = (Inr (Ready [], r\<lparr>bs_state := Finished\<rparr>), s'))"
  using poll_read_idle_cases(2,3) [OF assms] by blast

theorem missing_block_panics_witness:
  "\<exists>s'. ByteStream_poll_read (serving (\<lambda>_. None)) True 4 (RemoteHypercore_to_reader 0) sample_opened_client
      = (Inl (Panic ''called Option::unwrap() on a None value''), s')"
proof -
  have idle: "bs_state (RemoteHypercore_to_reader 0) = Idle"
    by (simp add: RemoteHypercore_to_reader_def ByteStream_new_def)
  obtain s' where "RemoteHypercore_get (serving (\<lambda>_. None)) (bs_seq (RemoteHypercore_to_reader 0))
      (bs_core (RemoteHypercore_to_reader 0)) sample_opened_client = (Inr None, s')"
    using serving_get [of "\<lambda>_. None" 0] by (auto simp: RemoteHypercore_to_reader_def ByteStream_new_def)
  with missing_block_panics [OF idle, of "serving (\<lambda>_. None)" sample_opened_client 4] show ?thesis by blast
qed

subsection \<open>Live streams\<close>

text \<open>
  A live stream that starts at the end of a feed does not wait for the first block to be appended: its
  first request is answered without a block and the poll reports the end of the stream, although the
  stream is not finished.
\<close>

theorem live_stream_ends_at_head:
  assumes "RemoteHypercore_get ext start q s = (Inr None, s')" and "RemoteHypercore_len q s' = (Inr len, s')"
    and "unat start + 1 < 2 ^ 64"
  shows "\<exists>rs'. ReadStream_poll_next ext True (RemoteHypercore_to_stream q start None True) s = (Inr (Ready None, rs'), s') \<and>
    \<not> rs_finished rs'"
proof -
  have "u64_add start 1 = Inr (start + 1)" using assms(3) by (simp add: u64_add_def)
  then show ?thesis
    using assms(1,2) by (simp add: ReadStream_poll_next_def RemoteHypercore_to_stream_def ReadStream_new_def poll_future_def poll_get_def
        rust_result_def rust_simps Let_def)
qed

theorem live_stream_ends_at_head_witness:
  "\<exists>rs' s'. ReadStream_poll_next (serving (\<lambda>_. None)) True (RemoteHypercore_to_stream 0 0 None True) sample_opened_client
     = (Inr (Ready None, rs'), s') \<and> \<not> rs_finished rs'"
proof -
  have "\<exists>s' len. RemoteHypercore_get (serving (\<lambda>_. None)) 0 0 sample_opened_client = (Inr None, s') \<and>
      RemoteHypercore_len 0 s' = (Inr len, s')"
    using sample_cell by (auto simp: RemoteHypercore_get_def RemoteHypercore_len_def read_core_def serving_def on_server_def rust_simps)
  then obtain s' len where "RemoteHypercore_get (serving (\<lambda>_. None)) 0 0 sample_opened_client = (Inr None, s')"
      "RemoteHypercore_len 0 s' = (Inr len, s')" by blast
  from live_stream_ends_at_head [OF this] show ?thesis by auto
qed

subsection \<open>The loops of a poll end\<close>

text \<open>The loop of \<open>poll_read\<close> cut off after \<open>k\<close> rounds, and the loop of \<open>poll_seek\<close>.\<close>

fun read_rounds :: "nat \<Rightarrow> 'w cl_ext \<Rightarrow> bool \<Rightarrow> nat \<Rightarrow> byte_stream \<Rightarrow> 'w cl_state \<Rightarrow> ((bytes poll \<times> byte_stream) result \<times> 'w cl_state) option" where
  "read_rounds 0 ext arrived n bs s = None"
| "read_rounds (Suc k) ext arrived n bs s =
     (case ByteStream_read_round ext arrived n bs s of
        (Inl e, s') \<Rightarrow> Some (Inl e, s')
      | (Inr (Return p, bs'), s') \<Rightarrow> Some (Inr (p, bs'), s')
      | (Inr (Again, bs'), s') \<Rightarrow> read_rounds k ext arrived n bs' s')"

fun seek_rounds :: "nat \<Rightarrow> 'w cl_ext \<Rightarrow> bool \<Rightarrow> seek_from \<Rightarrow> byte_stream \<Rightarrow> 'w cl_state \<Rightarrow> ((u64 poll \<times> byte_stream) result \<times> 'w cl_state) option" where
  "seek_rounds 0 ext arrived pos bs s = None"
| "seek_rounds (Suc k) ext arrived pos bs s =
     (case ByteStream_seek_round ext arrived pos bs s of
        (Inl e, s') \<Rightarrow> Some (Inl e, s')
      | (Inr (Return p, bs'), s') \<Rightarrow> Some (Inr (p, bs'), s')
      | (Inr (Again, bs'), s') \<Rightarrow> seek_rounds k ext arrived pos bs' s')"

lemma read_rounds_enough:
  "bs_rank (bs_state bs) < k \<Longrightarrow> read_rounds k ext arrived n bs s = Some (ByteStream_poll_read ext arrived n bs s)"
proof (induction k arbitrary: bs s)
  case (Suc k)
  have "bs_rank (bs_state bs') < k" if "ByteStream_read_round ext arrived n bs s = (Inr (Again, bs'), s')" for bs' s'
    using read_round_again [OF that] Suc.prems by simp
  then show ?case
    by (subst ByteStream_poll_read.simps) (auto simp: Suc.IH split: prod.split sum.split round.split)
qed simp

lemma seek_rounds_enough:
  "seek_rank (bs_state bs) < k \<Longrightarrow> seek_rounds k ext arrived pos bs s = Some (ByteStream_poll_seek ext arrived pos bs s)"
proof (induction k arbitrary: bs s)
  case (Suc k)
  have "seek_rank (bs_state bs') < k" if "ByteStream_seek_round ext arrived pos bs s = (Inr (Again, bs'), s')" for bs' s'
    using seek_round_again [OF that] Suc.prems by simp
  then show ?case
    by (subst ByteStream_poll_seek.simps) (auto simp: Suc.IH split: prod.split sum.split round.split)
qed simp

text \<open>
  C33. The loops in \<open>poll_read\<close> and \<open>poll_seek\<close> never spin: whatever the state of the reader, the buffer and the
  server's answer, \<open>poll_read\<close> returns in its third round at the latest and \<open>poll_seek\<close> in its second.
\<close>

theorem polls_return:
  "read_rounds 3 ext arrived n bs s = Some (ByteStream_poll_read ext arrived n bs s) \<and>
   seek_rounds 2 ext arrived pos bs s = Some (ByteStream_poll_seek ext arrived pos bs s)"
proof
  have "bs_rank (bs_state bs) < 3" by (cases "bs_state bs") simp_all
  then show "read_rounds 3 ext arrived n bs s = Some (ByteStream_poll_read ext arrived n bs s)" by (rule read_rounds_enough)
  have "seek_rank (bs_state bs) < 2" by (cases "bs_state bs") simp_all
  then show "seek_rounds 2 ext arrived pos bs s = Some (ByteStream_poll_seek ext arrived pos bs s)" by (rule seek_rounds_enough)
qed

end
