(* ===== verification/End_To_End.thy ===== *)
theory End_To_End
  imports Server_Theorems Client_Theorems Stream_Props
begin

section \<open>Client and server together\<close>

text \<open>
  The client's RPC calls are answered by a session of the server: \<open>session_rpc\<close> instantiates the client's
  parameters with the session's handlers, so the world the client acts on is the server's state.  Then
  the client's \<open>append\<close> and \<open>get\<close> act on the server's feed, its mirrored length is the feed's length, and a
  remote hypercore is a \<open>remote_log\<close> for the streams.
\<close>

definition session_rpc ::
  "('w, 'f, 'st, 'h) cs_ext \<Rightarrow> ('w, 'f, 'nd, 'sig) feed_api \<Rightarrow> (seek_request \<Rightarrow> (('w, 'f) sv_state, seek_response) rust) \<Rightarrow>
   (bytes \<Rightarrow> string) \<Rightarrow> (nat \<Rightarrow> bool) \<Rightarrow> ('w, 'f) sv_state cl_ext" where
  "session_rpc ext fa seek hex alive =
     \<lparr>rpc_open = Session_open ext fa, rpc_append = Session_append fa, rpc_get = Session_get fa, rpc_seek = seek,
      hex_encode = hex, receiver_alive = alive\<rparr>"

text \<open>The feed holds exactly the blocks \<open>bs\<close>.\<close>

definition holds_log ::
  "('w, 'f, 'nd, 'sig) feed_api \<Rightarrow> ('f \<Rightarrow> u64 \<Rightarrow> bytes option) \<Rightarrow> bytes list \<Rightarrow> 'f \<Rightarrow> bool" where
  "holds_log fa block bs f \<longleftrightarrow>
     unat (f_len fa f) = length bs \<and> unat (f_byte_len fa f) = length (concat bs) \<and>
     (\<forall>i. block f i = (if unat i < length bs then Some (bs ! unat i) else None))"

text \<open>
  The handle \<open>q\<close> of the client is connected: its id is open on the server, the feed there holds \<open>bs\<close>, and
  the cell mirrors the feed's lengths.
\<close>

definition connected ::
  "('w, 'f, 'nd, 'sig) feed_api \<Rightarrow> ('f \<Rightarrow> u64 \<Rightarrow> bytes option) \<Rightarrow> ref \<Rightarrow> bytes list \<Rightarrow> ('w, 'f) sv_state cl_state \<Rightarrow> bool" where
  "connected fa block q bs s \<longleftrightarrow>
     (\<exists>i st f. deref (cl_cores s) q = Some i \<and> fmlookup (sv_cores (cl_world s)) (ucast (ih_id i)) = Some st \<and>
        deref (sv_heap (cl_world s)) (fs_feed st) = Some f \<and> holds_log fa block bs f \<and>
        ih_length i = f_len fa f \<and> ih_byte_length i = f_byte_len fa f)"

text \<open>
  The handle is attached to a feed that holds \<open>bs\<close>, whatever its cell mirrors; it is connected when the
  cell has the feed's lengths.
\<close>

definition attached ::
  "('w, 'f, 'nd, 'sig) feed_api \<Rightarrow> ('f \<Rightarrow> u64 \<Rightarrow> bytes option) \<Rightarrow> ref \<Rightarrow> bytes list \<Rightarrow> ('w, 'f) sv_state cl_state \<Rightarrow> bool" where
  "attached fa block q bs s \<longleftrightarrow>
     (\<exists>i st f. deref (cl_cores s) q = Some i \<and> fmlookup (sv_cores (cl_world s)) (ucast (ih_id i)) = Some st \<and>
        deref (sv_heap (cl_world s)) (fs_feed st) = Some f \<and> holds_log fa block bs f)"

definition mirrors :: "ref \<Rightarrow> nat \<Rightarrow> nat \<Rightarrow> 'w cl_state \<Rightarrow> bool" where
  "mirrors q len bl s \<longleftrightarrow> (\<exists>i. deref (cl_cores s) q = Some i \<and> unat (ih_length i) = len \<and> unat (ih_byte_length i) = bl)"

lemma connectedD:
  assumes "connected fa block q bs s"
  shows "attached fa block q bs s" and "mirrors q (length bs) (length (concat bs)) s"
  using assms by (auto simp: connected_def attached_def mirrors_def holds_log_def)

lemma connectedI:
  assumes "attached fa block q bs s" and "mirrors q (length bs) (length (concat bs)) t" and "cl_cores s = cl_cores t"
  shows "connected fa block q bs s"
proof -
  obtain i st f where c: "deref (cl_cores s) q = Some i" "fmlookup (sv_cores (cl_world s)) (ucast (ih_id i)) = Some st"
      "deref (sv_heap (cl_world s)) (fs_feed st) = Some f" "holds_log fa block bs f"
    using assms(1) by (auto simp: attached_def)
  moreover have "ih_length i = f_len fa f" "ih_byte_length i = f_byte_len fa f"
    using assms(2,3) c(1,4) by (auto simp: mirrors_def holds_log_def intro: word_unat_eq_iff [THEN iffD2])
  ultimately show ?thesis by (auto simp: connected_def)
qed

lemma holds_log_extended:
  assumes "holds_log fa block bs f" and "log_extended fa block bs' f f'"
  shows "holds_log fa block (bs @ bs') f'"
  using assms by (auto simp: holds_log_def log_extended_def nth_append)

lemma holds_log_same: "holds_log fa block bs f \<Longrightarrow> same_log fa block f f' \<Longrightarrow> holds_log fa block bs f'"
  by (simp add: holds_log_def same_log_def)

lemma holds_log_small: "holds_log fa block bs f \<Longrightarrow> length bs < 2 ^ 64 \<and> (\<forall>b \<in> set bs. length b < 2 ^ 64)"
proof (intro conjI ballI)
  assume log: "holds_log fa block bs f"
  show "length bs < 2 ^ 64" using log unat_u64_less [of "f_len fa f"] by (simp add: holds_log_def)
  fix b
  assume "b \<in> set bs"
  then have "length b \<le> length (concat bs)" by (induction bs) auto
  with log unat_u64_less [of "f_byte_len fa f"] show "length b < 2 ^ 64" by (simp add: holds_log_def)
qed

subsection \<open>Reading\<close>

lemma Session_get_block:
  assumes reads: "feed_reads fa block" and blocks: "feed_blocks fa block"
    and core: "fmlookup (sv_cores w) (gr_id req) = Some st" and f: "deref (sv_heap w) (fs_feed st) = Some f"
    and held: "block f (gr_seq req) = Some b"
  obtains f' w' where "Session_get fa req w = (Inr \<lparr>gs_block = Some b\<rparr>, w')" "sv_session w' = sv_session w"
    "deref (sv_heap w') (fs_feed st) = Some f'" "same_log fa block f f'"
proof -
  obtain f' v where run: "f_get fa (gr_seq req) (f, cs_world (sv_store w)) = (Inr (Some b), f', v)"
    using reads held unfolding feed_reads_def by (metis option.distinct(1))
  then have "same_log fa block f f'" using feed_get_same [OF blocks] by blast
  with run f that [of _ f'] show ?thesis
    by (simp add: Session_get_run [OF core] with_feed_run [OF f] deref_eq_Some)
qed

lemma attached_get:
  assumes laws: "feed_blocks fa block" "feed_reads fa block" and att: "attached fa block q bs s"
    and i: "unat i < length bs"
  shows "\<exists>s'. RemoteHypercore_get (session_rpc ext fa seek hex alive) i q s = (Inr (Some (bs ! unat i)), s') \<and>
    attached fa block q bs s' \<and> cl_cores s' = cl_cores s"
proof -
  obtain c st f where c: "deref (cl_cores s) q = Some c" "fmlookup (sv_cores (cl_world s)) (ucast (ih_id c)) = Some st"
      "deref (sv_heap (cl_world s)) (fs_feed st) = Some f" "holds_log fa block bs f"
    using att by (auto simp: attached_def)
  let ?req = "\<lparr>gr_id = ucast (ih_id c), gr_seq = i, gr_resource_id = cl_resource_counter s, gr_wait = None,
    gr_if_available = None, gr_on_wait_id = None\<rparr> :: get_request"
  have "fmlookup (sv_cores (cl_world s)) (gr_id ?req) = Some st" "block f (gr_seq ?req) = Some (bs ! unat i)"
    using c i by (simp_all add: holds_log_def)
  then obtain f' w where w: "Session_get fa ?req (cl_world s) = (Inr \<lparr>gs_block = Some (bs ! unat i)\<rparr>, w)"
      "sv_session w = sv_session (cl_world s)" "deref (sv_heap w) (fs_feed st) = Some f'" "same_log fa block f f'"
    using Session_get_block [OF laws(2,1) _ c(3)] by metis
  let ?s = "s\<lparr>cl_resource_counter := cl_resource_counter s + 1, cl_world := w\<rparr>"
  have "RemoteHypercore_get (session_rpc ext fa seek hex alive) i q s = (Inr (Some (bs ! unat i)), ?s)"
    using c(1) w(1) by (simp add: RemoteHypercore_get_def read_core_run rust_bind_apply rust_get_apply rust_modify_apply
        on_server_def session_rpc_def rust_return_apply)
  moreover have "attached fa block q bs ?s"
    unfolding attached_def
    using c w holds_log_same [OF c(4) w(4)] by (intro exI [of _ c] exI [of _ st] exI [of _ f']) simp
  ultimately show ?thesis by auto
qed

lemma connected_get:
  assumes laws: "feed_blocks fa block" "feed_reads fa block" and conn: "connected fa block q bs s"
    and i: "unat i < length bs"
  shows "\<exists>s'. RemoteHypercore_get (session_rpc ext fa seek hex alive) i q s = (Inr (Some (bs ! unat i)), s') \<and>
    connected fa block q bs s'"
  using attached_get [OF laws connectedD(1) [OF conn] i, of ext seek hex alive] connectedD(2) [OF conn]
  by (metis connectedI)

interpretation session_log: remote_log "session_rpc ext fa seek hex alive" q bs
  "\<lambda>s. feed_blocks fa block \<and> feed_reads fa block \<and> connected fa block q bs s"
  for ext fa seek hex alive q bs block
proof (unfold_locales, goal_cases)
  case (1 s i)
  then show ?case using connected_get [of fa block q bs s i ext seek hex alive] by auto
next
  case (2 s)
  then obtain c f where "deref (cl_cores s) q = Some c" "holds_log fa block bs f" "ih_length c = f_len fa f"
    by (auto simp: connected_def)
  moreover have "of_nat (unat (f_len fa f)) = f_len fa f" by simp
  moreover from calculation have "f_len fa f = of_nat (length bs)"
    by (simp add: holds_log_def)
  ultimately show ?case by (simp add: RemoteHypercore_len_def read_core_run)
next
  case (3 s)
  then obtain f where "holds_log fa block bs f" by (auto simp: connected_def)
  then show ?case by (rule holds_log_small)
qed

subsection \<open>Appending\<close>

lemma connected_append:
  assumes laws: "feed_blocks fa block" and conn: "connected fa block q bs s"
    and run: "RemoteHypercore_append (session_rpc ext fa seek hex alive) new q s = (Inr (), s')"
  shows "connected fa block q (bs @ new) s'"
proof -
  obtain c st f where c: "deref (cl_cores s) q = Some c" "fmlookup (sv_cores (cl_world s)) (ucast (ih_id c)) = Some st"
      "deref (sv_heap (cl_world s)) (fs_feed st) = Some f" "holds_log fa block bs f"
    using conn by (auto simp: connected_def)
  let ?req = "\<lparr>ar_id = ucast (ih_id c), ar_blocks = new\<rparr> :: append_request"
  obtain resp w where w: "Session_append fa ?req (cl_world s) = (Inr resp, w)"
    and s': "s' = s\<lparr>cl_world := w, cl_cores := (cl_cores s)[q := c\<lparr>ih_length := as_length resp, ih_byte_length := as_byte_length resp\<rparr>]\<rparr>"
    using run c(1) by (cases "Session_append fa ?req (cl_world s)"; cases "fst (Session_append fa ?req (cl_world s))")
      (auto simp: RemoteHypercore_append_def rust_bind_apply read_core_run on_server_def session_rpc_def write_core_run)
  have core: "fmlookup (sv_cores (cl_world s)) (ar_id ?req) = Some st" using c(2) by simp
  obtain k f' where k: "deref (sv_heap w) (fs_feed st) = Some f'" "log_extended fa block new f f'"
      "sv_session w = sv_session (cl_world s)" "as_length resp = f_len fa f'" "as_byte_length resp = f_byte_len fa f'"
    using laws core c(3) w by (rule Session_append_log) auto
  show ?thesis
    unfolding connected_def
    using c s' k holds_log_extended [OF c(4) k(2)]
    by (intro exI [of _ "c\<lparr>ih_length := as_length resp, ih_byte_length := as_byte_length resp\<rparr>"] exI [of _ st] exI [of _ f'])
      (simp add: deref_eq_Some)
qed

text \<open>
  C28. Through the client, the server and the feed: after a successful remote \<open>append\<close> the client knows the
  feed's new length, and a remote \<open>get\<close> of any position below it returns the block at that position of
  the old log followed by the appended blocks.
\<close>

theorem remote_append_then_get:
  assumes "feed_blocks fa block" and "feed_reads fa block" and "connected fa block q bs s"
    and "RemoteHypercore_append (session_rpc ext fa seek hex alive) new q s = (Inr (), s')"
  shows "RemoteHypercore_len q s' = (Inr (of_nat (length (bs @ new))), s') \<and>
    (\<forall>i. unat i < length (bs @ new) \<longrightarrow>
      (\<exists>t. RemoteHypercore_get (session_rpc ext fa seek hex alive) i q s' = (Inr (Some ((bs @ new) ! unat i)), t)))"
proof -
  have conn: "connected fa block q (bs @ new) s'"
    using assms(1,3,4) by (rule connected_append)
  then have "RemoteHypercore_len q s' = (Inr (of_nat (length (bs @ new))), s')"
    using session_log.mirrored [of fa block q "bs @ new" s'] assms(1,2) by simp
  with connected_get [OF assms(1,2) conn] show ?thesis by blast
qed

definition sample_pair :: "(sample_files, sample_feed) sv_state cl_state" where
  "sample_pair = \<lparr>cl_sessions = NamedMap_new, cl_resource_counter = 1,
     cl_cores = [InnerHypercore_default\<lparr>ih_id := 3, ih_key := Some [9], ih_open := True, ih_length := 1, ih_byte_length := 2\<rparr>],
     cl_channels = 0, cl_events = [], cl_world = sample_sv\<rparr>"

abbreviation sample_session_rpc :: "(sample_files, sample_feed) sv_state cl_ext" where
  "sample_session_rpc \<equiv> session_rpc sample_ext sample_api (\<lambda>req w. (Inl (IoError ''not implemented''), w))
     (map (\<lambda>b. char_of (unat b))) (\<lambda>_. True)"

lemma sample_connected: "connected sample_api sample_block 0 [[1, 2]] sample_pair"
proof -
  let ?f = "\<lparr>sf_key = [9], sf_secret = Some [8], sf_blocks = [Some [1, 2]]\<rparr>"
  have "holds_log sample_api sample_block [[1, 2]] ?f"
    by (simp add: holds_log_def sample_api_def sample_bytes_def sample_block_def)
  moreover have "f_len sample_api ?f = 1" "f_byte_len sample_api ?f = 2"
    by (simp_all add: sample_api_def sample_bytes_def)
  ultimately show ?thesis
    by (simp add: connected_def sample_pair_def deref_def sample_sv_core)
qed

lemma sample_remote_append:
  "\<exists>s'. RemoteHypercore_append sample_session_rpc [[4], [5, 6]] 0 sample_pair = (Inr (), s')"
proof -
  obtain resp w where w: "Session_append sample_api \<lparr>ar_id = 3, ar_blocks = [[4], [5, 6]]\<rparr> sample_sv = (Inr resp, w)"
    using sample_append by blast
  then show ?thesis
    by (simp add: RemoteHypercore_append_def rust_bind_apply read_core_def write_core_def on_server_def session_rpc_def
        sample_pair_def deref_def)
qed

theorem remote_append_then_get_witness:
  "\<exists>s' t. RemoteHypercore_append sample_session_rpc [[4], [5, 6]] 0 sample_pair = (Inr (), s') \<and>
     RemoteHypercore_len 0 s' = (Inr 3, s') \<and> RemoteHypercore_get sample_session_rpc 2 0 s' = (Inr (Some [5, 6]), t)"
proof -
  obtain s' where s': "RemoteHypercore_append sample_session_rpc [[4], [5, 6]] 0 sample_pair = (Inr (), s')"
    using sample_remote_append by blast
  note result = remote_append_then_get [OF sample_feed_blocks sample_feed_reads sample_connected s']
  have "\<exists>t. RemoteHypercore_get sample_session_rpc 2 0 s' = (Inr (Some ([[1, 2], [4], [5, 6]] ! unat (2 :: u64))), t)"
    using conjunct2 [OF result, THEN spec, of 2] by simp
  with s' result show ?thesis by simp
qed

subsection \<open>Streams\<close>

text \<open>
  C30. A stream over the blocks \<open>start .. e - 1\<close> of a feed (up to the feed's end when no end is given), polled
  any number of times with the server's answers arriving at any time, yields exactly the first \<open>k\<close> of
  these blocks in order when \<open>k\<close> answers have arrived, and it reports its end only after the last one.
\<close>

theorem read_stream_yields:
  assumes "feed_blocks fa block" and "feed_reads fa block" and "connected fa block q bs s"
    and "unat start < e" and "e \<le> length bs" and "until = Some (of_nat e) \<or> until = None \<and> e = length bs"
  shows "\<exists>m rs' s'. drive_stream (session_rpc ext fa seek hex alive) as (RemoteHypercore_to_stream q start until False) s =
      (Inr (map (\<lambda>b. Some (Inr b)) (take (count_list as True) (drop (unat start) (take e bs))) @ replicate m None, rs'), s')
    \<and> (rs_finished rs' \<longleftrightarrow> e - unat start \<le> count_list as True) \<and> (m \<noteq> 0 \<longrightarrow> rs_finished rs')"
proof -
  have "session_log.reading_at q bs (unat start) e (RemoteHypercore_to_stream q start until False)"
    using assms(4-6) by (auto simp: session_log.reading_at_def RemoteHypercore_to_stream_def ReadStream_new_def)
  from session_log.drive_stream_blocks [OF _ this, of fa block s ext seek hex alive "as"] assms(1-3) show ?thesis
    by blast
qed

theorem read_stream_yields_witness:
  "\<exists>m rs' s'. drive_stream sample_session_rpc [False, True, True] (RemoteHypercore_to_stream 0 0 None False) sample_pair =
     (Inr (Some (Inr [1, 2]) # replicate m None, rs'), s') \<and> rs_finished rs'"
  using read_stream_yields [OF sample_feed_blocks sample_feed_reads sample_connected, of 0 1 None sample_ext
      "\<lambda>req w. (Inl (IoError ''not implemented''), w)" "map (\<lambda>b. char_of (unat b))" "\<lambda>_. True" "[False, True, True]"]
  by auto

text \<open>
  C31. Polled any number of times with non-empty buffers that ask for no more bytes than the feed has, a
  reader over a feed of non-empty blocks returns consecutive pieces of the feed's bytes from the start:
  nothing is lost, repeated or reordered, no poll panics, and every poll for which an answer arrives
  returns at least one byte.
\<close>

theorem byte_stream_reads:
  assumes "feed_blocks fa block" and "feed_reads fa block" and "connected fa block q bs s"
    and "bs \<noteq> []" and "[] \<notin> set bs" and "\<forall>p \<in> set ps. 0 < snd p" and "sum_list (map snd ps) \<le> length (concat bs)"
  shows "\<exists>outs r s'. drive_reader (session_rpc ext fa seek hex alive) ps (RemoteHypercore_to_reader q) s = (Inr (outs, r), s') \<and>
    concat outs = take (length (concat outs)) (concat bs) \<and> [] \<notin> set outs \<and> length (filter fst ps) \<le> length outs"
proof -
  let ?r = "RemoteHypercore_to_reader q"
  have "bs ! 0 \<noteq> []" using assms(4,5) by (metis length_greater_0_conv nth_mem)
  then have ok: "session_log.reader_ok q bs ?r" and all: "session_log.unread bs ?r = concat bs"
    using assms(4) by (auto simp: session_log.reader_ok_def session_log.reader_at_def session_log.unread_def
        RemoteHypercore_to_reader_def ByteStream_new_def)
  from session_log.drive_reader_bytes [OF assms(5) _ ok assms(6), of fa block s ext seek hex alive] assms(1-3,7) all
  obtain outs r s' where "drive_reader (session_rpc ext fa seek hex alive) ps ?r s = (Inr (outs, r), s')"
      "concat bs = concat outs @ session_log.unread bs r" "[] \<notin> set outs" "length (filter fst ps) \<le> length outs"
    by auto
  then show ?thesis by auto
qed

theorem byte_stream_reads_witness:
  "\<exists>outs r s'. drive_reader sample_session_rpc [(False, 1), (True, 1)] (RemoteHypercore_to_reader 0) sample_pair
      = (Inr (outs, r), s') \<and> concat outs = take (length (concat outs)) [1, 2] \<and> 1 \<le> length outs"
proof -
  have "\<forall>p \<in> set [(False, 1 :: nat), (True, 1)]. 0 < snd p" by simp
  from byte_stream_reads [OF sample_feed_blocks sample_feed_reads sample_connected _ _ this, of sample_ext
      "\<lambda>req w. (Inl (IoError ''not implemented''), w)" "map (\<lambda>b. char_of (unat b))" "\<lambda>_. True"]
  show ?thesis by auto
qed

end
