(* ===== verification/Log_Refinement.thy ===== *)
theory Log_Refinement
  imports End_To_End
begin

section \<open>A remote hypercore is an append-only log\<close>

text \<open>
  The abstract specification is a list of blocks with three operations.  A handle of the client that is
  connected to a session of the server implements it: \<open>connected\<close> is the simulation relation.
\<close>

datatype log_op = OpAppend "bytes list" | OpGet u64 | OpLen | OpByteLength

datatype log_answer = Done | Block "bytes option" | Number nat

subsection \<open>Specification\<close>

fun log_step :: "log_op \<Rightarrow> bytes list \<Rightarrow> log_answer \<times> bytes list" where
  "log_step (OpAppend new) bs = (Done, bs @ new)"
| "log_step (OpGet i) bs = (Block (if unat i < length bs then Some (bs ! unat i) else None), bs)"
| "log_step OpLen bs = (Number (length bs), bs)"
| "log_step OpByteLength bs = (Number (length (concat bs)), bs)"

fun log_run :: "log_op list \<Rightarrow> bytes list \<Rightarrow> log_answer list \<times> bytes list" where
  "log_run [] bs = ([], bs)"
| "log_run (op # ops) bs =
     (let (a, bs') = log_step op bs; (as, bs'') = log_run ops bs' in (a # as, bs''))"

subsection \<open>Implementation\<close>

fun remote_step :: "'w cl_ext \<Rightarrow> ref \<Rightarrow> log_op \<Rightarrow> ('w cl_state, log_answer) rust" where
  "remote_step ext q (OpAppend new) = rust_bind (RemoteHypercore_append ext new q) (\<lambda>_. rust_return Done)"
| "remote_step ext q (OpGet i) = rust_bind (RemoteHypercore_get ext i q) (\<lambda>b. rust_return (Block b))"
| "remote_step ext q OpLen = rust_bind (RemoteHypercore_len q) (\<lambda>n. rust_return (Number (unat n)))"
| "remote_step ext q OpByteLength = rust_bind (RemoteHypercore_byte_length q) (\<lambda>n. rust_return (Number (unat n)))"

fun remote_run :: "'w cl_ext \<Rightarrow> ref \<Rightarrow> log_op list \<Rightarrow> ('w cl_state, log_answer list) rust" where
  "remote_run ext q [] = rust_return []"
| "remote_run ext q (op # ops) =
     rust_bind (remote_step ext q op) (\<lambda>a. rust_bind (remote_run ext q ops) (\<lambda>as. rust_return (a # as)))"

subsection \<open>Simulation\<close>

lemma Session_get_answer:
  assumes blocks: "feed_blocks fa block" and core: "fmlookup (sv_cores w) (gr_id req) = Some st"
    and f: "deref (sv_heap w) (fs_feed st) = Some f" and run: "Session_get fa req w = (Inr resp, w')"
  obtains f' where "gs_block resp = block f (gr_seq req)" "sv_session w' = sv_session w"
    "deref (sv_heap w') (fs_feed st) = Some f'" "same_log fa block f f'"
proof -
  obtain r f' v where get: "f_get fa (gr_seq req) (f, cs_world (sv_store w)) = (r, f', v)" by (metis prod.collapse)
  have law: "same_log fa block f f'" "\<forall>b. r = Inr b \<longrightarrow> b = block f (gr_seq req)"
    using feed_get_same [OF blocks get] feed_get_answer [OF blocks get] by blast+
  from run get f obtain b where "r = Inr b" "resp = \<lparr>gs_block = b\<rparr>" "sv_session w' = sv_session w" "deref (sv_heap w') (fs_feed st) = Some f'"
    by (cases r) (auto simp: Session_get_run [OF core] with_feed_run [OF f] deref_eq_Some)
  with law show ?thesis by (intro that [of f']) simp_all
qed

lemma attached_get_any:
  assumes laws: "feed_blocks fa block" and att: "attached fa block q bs s"
    and run: "RemoteHypercore_get (session_rpc ext fa seek hex alive) i q s = (Inr b, s')"
  shows "b = (if unat i < length bs then Some (bs ! unat i) else None)" and "attached fa block q bs s'" and "cl_cores s' = cl_cores s"
proof -
  obtain c st f where c: "deref (cl_cores s) q = Some c" "fmlookup (sv_cores (cl_world s)) (ucast (ih_id c)) = Some st"
      "deref (sv_heap (cl_world s)) (fs_feed st) = Some f" "holds_log fa block bs f"
    using att by (auto simp: attached_def)
  let ?req = "\<lparr>gr_id = ucast (ih_id c), gr_seq = i, gr_resource_id = cl_resource_counter s, gr_wait = None,
    gr_if_available = None, gr_on_wait_id = None\<rparr> :: get_request"
  obtain resp w where w: "Session_get fa ?req (cl_world s) = (Inr resp, w)" and b: "b = gs_block resp"
    and s': "s' = s\<lparr>cl_resource_counter := cl_resource_counter s + 1, cl_world := w\<rparr>"
    using run c(1) by (cases "Session_get fa ?req (cl_world s)"; cases "fst (Session_get fa ?req (cl_world s))")
      (auto simp: RemoteHypercore_get_def read_core_run rust_bind_apply rust_get_apply rust_modify_apply on_server_def session_rpc_def
        rust_return_apply)
  have core: "fmlookup (sv_cores (cl_world s)) (gr_id ?req) = Some st" using c(2) by simp
  obtain f' where f': "gs_block resp = block f (gr_seq ?req)" "sv_session w = sv_session (cl_world s)"
      "deref (sv_heap w) (fs_feed st) = Some f'" "same_log fa block f f'"
    using laws core c(3) w by (rule Session_get_answer)
  show "b = (if unat i < length bs then Some (bs ! unat i) else None)"
    using c(4) by (simp add: b f'(1) holds_log_def)
  show "attached fa block q bs s'"
    unfolding attached_def s'
    using c f' holds_log_same [OF c(4) f'(4)] by (intro exI [of _ c] exI [of _ st] exI [of _ f']) simp
  show "cl_cores s' = cl_cores s" by (simp add: s')
qed

lemma connected_get_any:
  assumes "feed_blocks fa block" and "connected fa block q bs s"
    and "RemoteHypercore_get (session_rpc ext fa seek hex alive) i q s = (Inr b, s')"
  shows "b = (if unat i < length bs then Some (bs ! unat i) else None)" and "connected fa block q bs s'"
  using attached_get_any [OF assms(1) connectedD(1) [OF assms(2)] assms(3)] connectedI [OF _ connectedD(2) [OF assms(2)]] by simp_all

lemma connected_lengths:
  assumes "connected fa block q bs s" and "RemoteHypercore_len q s = (r, s') \<or> RemoteHypercore_byte_length q s = (r', s')"
  shows "s' = s" and "RemoteHypercore_len q s = (r, s') \<Longrightarrow> \<exists>n. r = Inr n \<and> unat n = length bs"
    and "RemoteHypercore_byte_length q s = (r', s') \<Longrightarrow> \<exists>n. r' = Inr n \<and> unat n = length (concat bs)"
  using assms by (auto simp: connected_def holds_log_def RemoteHypercore_len_def RemoteHypercore_byte_length_def read_core_run)

lemma remote_step_simulates:
  assumes laws: "feed_blocks fa block" and conn: "connected fa block q bs s"
    and run: "remote_step (session_rpc ext fa seek hex alive) q op s = (Inr a, s')"
  shows "a = fst (log_step op bs) \<and> connected fa block q (snd (log_step op bs)) s'"
proof (cases op)
  case (OpAppend new)
  with run obtain "RemoteHypercore_append (session_rpc ext fa seek hex alive) new q s = (Inr (), s')" "a = Done"
    by (auto simp: rust_return_apply elim!: rust_bind_InrE)
  with connected_append [OF laws conn] show ?thesis by (simp add: OpAppend)
next
  case (OpGet i)
  with run obtain b where "RemoteHypercore_get (session_rpc ext fa seek hex alive) i q s = (Inr b, s')" "a = Block b"
    by (auto simp: rust_return_apply elim!: rust_bind_InrE)
  with connected_get_any [OF laws conn this(1)] show ?thesis by (simp add: OpGet)
next
  case OpLen
  with run obtain n where "RemoteHypercore_len q s = (Inr n, s')" "a = Number (unat n)"
    by (auto simp: rust_return_apply elim!: rust_bind_InrE)
  with connected_lengths [OF conn] conn show ?thesis by (auto simp: OpLen)
next
  case OpByteLength
  with run obtain n where "RemoteHypercore_byte_length q s = (Inr n, s')" "a = Number (unat n)"
    by (auto simp: rust_return_apply elim!: rust_bind_InrE)
  with connected_lengths [OF conn] conn show ?thesis by (auto simp: OpByteLength)
qed

text \<open>
  C2. Through the client, the server's session and the feed, a remote hypercore refines an append-only list
  of blocks: any sequence of \<open>append\<close>, \<open>get\<close>, \<open>len\<close> and \<open>byte_length\<close> that meets no error returns exactly the
  answers of the list, with no block for a \<open>get\<close> past the end, and leaves a feed that holds exactly the
  resulting list.
\<close>

theorem remote_refines_log:
  assumes "feed_blocks fa block" and "connected fa block q bs s"
    and "remote_run (session_rpc ext fa seek hex alive) q ops s = (Inr as, s')"
  shows "as = fst (log_run ops bs) \<and> connected fa block q (snd (log_run ops bs)) s'"
  using assms(2,3)
proof (induction ops arbitrary: bs s "as")
  case Nil
  then show ?case by (simp add: rust_return_apply)
next
  case (Cons op ops)
  from Cons.prems(2) obtain a s1 as' where s1: "remote_step (session_rpc ext fa seek hex alive) q op s = (Inr a, s1)"
      "remote_run (session_rpc ext fa seek hex alive) q ops s1 = (Inr as', s')" "as = a # as'"
    by (auto simp: rust_return_apply elim!: rust_bind_InrE)
  from remote_step_simulates [OF assms(1) Cons.prems(1) s1(1)] have "a = fst (log_step op bs)"
      "connected fa block q (snd (log_step op bs)) s1" by simp_all
  with Cons.IH [OF _ s1(2)] s1(3) show ?case by (simp add: split_beta Let_def)
qed

lemma sample_get:
  assumes "attached sample_api sample_block q bs s"
  shows "\<exists>b s'. RemoteHypercore_get sample_session_rpc i q s = (Inr b, s')"
proof -
  obtain c st f where c: "deref (cl_cores s) q = Some c" "fmlookup (sv_cores (cl_world s)) (ucast (ih_id c)) = Some st"
      "deref (sv_heap (cl_world s)) (fs_feed st) = Some f"
    using assms by (auto simp: attached_def)
  let ?req = "\<lparr>gr_id = ucast (ih_id c), gr_seq = i, gr_resource_id = cl_resource_counter s, gr_wait = None,
    gr_if_available = None, gr_on_wait_id = None\<rparr> :: get_request"
  have core: "fmlookup (sv_cores (cl_world s)) (gr_id ?req) = Some st" using c(2) by simp
  have "\<exists>resp w. Session_get sample_api ?req (cl_world s) = (Inr resp, w)"
    by (simp add: Session_get_run [OF core] with_feed_run [OF c(3)]) (simp add: sample_api_def)
  then show ?thesis
    using c(1) by (auto simp: RemoteHypercore_get_def read_core_run rust_bind_apply rust_get_apply rust_modify_apply on_server_def
        session_rpc_def rust_return_apply)
qed

lemma sample_read_step:
  assumes "connected sample_api sample_block q bs s" and "\<And>new. op \<noteq> OpAppend new"
  shows "\<exists>a s'. remote_step sample_session_rpc q op s = (Inr a, s')"
proof -
  obtain c where c: "deref (cl_cores s) q = Some c" using assms(1) by (auto simp: connected_def)
  show ?thesis
  proof (cases op)
    case (OpGet i)
    then show ?thesis using sample_get [OF connectedD(1) [OF assms(1)], of i] by (auto simp: rust_simps)
  qed (use assms(2) c in \<open>simp_all add: RemoteHypercore_len_def RemoteHypercore_byte_length_def read_core_run rust_simps\<close>)
qed

lemma sample_reads_run:
  assumes "\<forall>op \<in> set ops. \<forall>new. op \<noteq> OpAppend new" and "connected sample_api sample_block q bs s"
  shows "\<exists>as s'. remote_run sample_session_rpc q ops s = (Inr as, s')"
  using assms
proof (induction ops arbitrary: bs s)
  case Nil
  then show ?case by (simp add: rust_return_apply)
next
  case (Cons op ops)
  obtain a s1 where s1: "remote_step sample_session_rpc q op s = (Inr a, s1)"
    using sample_read_step [OF Cons.prems(2)] Cons.prems(1) by (metis list.set_intros(1))
  with remote_step_simulates [OF sample_feed_blocks Cons.prems(2) s1] Cons.IH [of _ s1] Cons.prems(1) show ?case
    by (fastforce simp: rust_bind_apply rust_return_apply)
qed

theorem remote_refines_log_witness:
  "\<exists>s'. remote_run sample_session_rpc 0 [OpAppend [[4], [5, 6]], OpLen, OpGet 2, OpGet 9, OpByteLength] sample_pair =
     (Inr [Done, Number 3, Block (Some [5, 6]), Block None, Number 5], s') \<and> connected sample_api sample_block 0 [[1, 2], [4], [5, 6]] s'"
proof -
  let ?ops = "[OpAppend [[4], [5, 6]], OpLen, OpGet 2, OpGet 9, OpByteLength]"
  obtain s1 where s1: "RemoteHypercore_append sample_session_rpc [[4], [5, 6]] 0 sample_pair = (Inr (), s1)"
    using sample_remote_append by blast
  let ?reads = "[OpLen, OpGet 2, OpGet 9, OpByteLength]"
  have "\<forall>op \<in> set ?reads. \<forall>new. op \<noteq> OpAppend new" by simp
  then obtain as1 s2 where s2: "remote_run sample_session_rpc 0 ?reads s1 = (Inr as1, s2)"
    using sample_reads_run connected_append [OF sample_feed_blocks sample_connected s1] by blast
  have "remote_run sample_session_rpc 0 (OpAppend [[4], [5, 6]] # ops) sample_pair = (Inr (Done # as1), s2)"
    if "remote_run sample_session_rpc 0 ops s1 = (Inr as1, s2)" for ops
    using s1 that by (simp add: rust_bind_apply rust_return_apply)
  from this [OF s2] have "\<exists>as s'. remote_run sample_session_rpc 0 ?ops sample_pair = (Inr as, s')" by blast
  then obtain "as" s' where run: "remote_run sample_session_rpc 0 ?ops sample_pair = (Inr as, s')" by blast
  from remote_refines_log [OF sample_feed_blocks sample_connected run] run show ?thesis by simp
qed

subsection \<open>Opening\<close>

text \<open>The handle \<open>q\<close> of the client is backed by the feed \<open>f\<close> of the server and mirrors its lengths.\<close>

definition backed_by :: "('w, 'f, 'nd, 'sig) feed_api \<Rightarrow> ref \<Rightarrow> 'f \<Rightarrow> ('w, 'f) sv_state cl_state \<Rightarrow> bool" where
  "backed_by fa q f s \<longleftrightarrow>
     (\<exists>i st. deref (cl_cores s) q = Some i \<and> fmlookup (sv_cores (cl_world s)) (ucast (ih_id i)) = Some st \<and>
        deref (sv_heap (cl_world s)) (fs_feed st) = Some f \<and> ih_length i = f_len fa f \<and> ih_byte_length i = f_byte_len fa f)"

lemma backed_by_connected: "backed_by fa q f s \<Longrightarrow> holds_log fa block bs f \<Longrightarrow> connected fa block q bs s"
  by (auto simp: backed_by_def connected_def)

lemma backed_by_frame: "backed_by fa q f s \<Longrightarrow> cl_cores s' = cl_cores s \<Longrightarrow> cl_world s' = cl_world s \<Longrightarrow> backed_by fa q f s'"
  by (simp add: backed_by_def)

text \<open>What the theorems about opening need of both sides.\<close>

definition ready_to_open ::
  "('w, 'f, 'st, 'h) cs_ext \<Rightarrow> ('w \<Rightarrow> path \<Rightarrow> bytes) \<Rightarrow> ('w, 'f) sv_state cl_state \<Rightarrow> bool" where
  "ready_to_open ext content s \<longleftrightarrow>
     client_inv s \<and> cl_room s \<and> session_inv ext (cl_world s) \<and> cs_room (sv_store (cl_world s)) \<and>
     disk_ok ext content (cs_inner (sv_store (cl_world s))) (cs_world (sv_store (cl_world s)))"

lemma open_backed:
  assumes laws: "feed_build_law ext" "key_laws ext" "naming_laws ext" "disk_laws ext content dir"
    and ready: "ready_to_open ext content s" and cell: "deref (cl_cores t) q = Some i" "\<not> ih_open i" and t: "cl_world t = cl_world s"
    and run: "RemoteHypercore_open (session_rpc ext fa seek hex alive) q t = (Inr (), s')"
  shows "\<exists>f. backed_by fa q f s' \<and>
    (case ih_name i of
       Some n \<Rightarrow> \<exists>sk. name_key_pair ext (cs_inner (sv_store (cl_world s))) (as_bytes n) = Inr (x_feed_public_key ext f, sk)
     | None \<Rightarrow> ih_key i = Some (x_feed_public_key ext f))"
proof -
  let ?rpc = "session_rpc ext fa seek hex alive"
  obtain i' res where i': "deref (cl_cores s') q = Some i'" "i' = opened_cell res i"
    and res: "Session_open ext fa (open_req i) (cl_world s) = (Inr res, cl_world s')"
    by (rule open_returns [OF cell(1) run]) (use that cell(2) t in \<open>auto simp: session_rpc_def\<close>)
  have server: "session_inv ext (cl_world s)" "cs_room (sv_store (cl_world s))"
      "disk_ok ext content (cs_inner (sv_store (cl_world s))) (cs_world (sv_store (cl_world s)))"
    using ready by (simp_all add: ready_to_open_def)
  obtain st f where f: "fmlookup (sv_cores (cl_world s')) (or_id (open_req i)) = Some st" "deref (sv_heap (cl_world s')) (fs_feed st) = Some f"
      "os_key res = x_feed_public_key ext f" "os_length res = f_len fa f" "os_byte_length res = f_byte_len fa f"
    and key: "case or_name (open_req i) of
         Some n \<Rightarrow> \<exists>sk. name_key_pair ext (cs_inner (sv_store (cl_world s))) (as_bytes n) = Inr (os_key res, sk)
       | None \<Rightarrow> or_key (open_req i) = Some (os_key res)"
    using session_open_feed [OF laws server(1,3,2) res] by blast
  have "backed_by fa q f s'"
    unfolding backed_by_def using i' f by (intro exI [of _ i'] exI [of _ st]) (simp add: open_req_def)
  then show ?thesis using key by (intro exI [of _ f]) (simp add: open_req_def f(3) split: option.splits)
qed

text \<open>
  C5. Opening a feed that is not open yet, through the client, the session and the corestore: the handle is
  backed by a feed of the server with the requested public key, or with the public key derived from the
  requested name, and it is connected to whatever log this feed holds.
\<close>

theorem remote_open_connects:
  fixes ext :: "('w, 'f, 'st, 'h) cs_ext" and block :: "'f \<Rightarrow> u64 \<Rightarrow> bytes option"
  assumes "feed_build_law ext" and "key_laws ext" and "naming_laws ext" and "disk_laws ext content dir"
    and "ready_to_open ext content s"
  shows "(NamedMap_get_by_name (cl_sessions s) (hex k) = None \<longrightarrow>
      RemoteCorestore_open_by_key (session_rpc ext fa seek hex alive) k s = (Inr q, s') \<longrightarrow>
        (\<exists>f \<in> set (sv_heap (cl_world s')). x_feed_public_key ext f = k \<and> (\<forall>bs. holds_log fa block bs f \<longrightarrow> connected fa block q bs s')))
    \<and> (NamedMap_get_by_name (cl_sessions s) n = None \<longrightarrow>
      RemoteCorestore_open_by_name (session_rpc ext fa seek hex alive) n s = (Inr q, s') \<longrightarrow>
        (\<exists>f \<in> set (sv_heap (cl_world s')). (\<forall>bs. holds_log fa block bs f \<longrightarrow> connected fa block q bs s') \<and>
          (\<exists>sk. name_key_pair ext (cs_inner (sv_store (cl_world s))) (as_bytes n) = Inr (x_feed_public_key ext f, sk))))"
proof -
  let ?rpc = "session_rpc ext fa seek hex alive" and ?q = "length (cl_cores s)"
  have client: "client_inv s" "cl_room s" using assms(5) by (simp_all add: ready_to_open_def)
  have hex: "hex_encode ?rpc = hex" by (simp add: session_rpc_def)
  have mem: "f \<in> set (sv_heap (cl_world t))" if "backed_by fa q f t" for f t
    using that by (auto simp: backed_by_def deref_eq_Some)
  have world: "cl_world (with_session key name label s) = cl_world s" for key name label
    by (simp add: with_session_def split: prod.split)
  note backed = open_backed [OF assms, where fa = fa and seek = seek and hex = hex and alive = alive]
  show ?thesis
  proof (intro conjI impI)
    assume new: "NamedMap_get_by_name (cl_sessions s) (hex k) = None"
      and run: "RemoteCorestore_open_by_key ?rpc k s = (Inr q, s')"
    obtain nid m where m: "NamedMap_insert_with_name ?q (hex k) (cl_sessions s) = (nid, m)" by fastforce
    note cell = with_session_inv(2) [OF client m refl, of "Some k" None]
    have "q = ?q" and "RemoteHypercore_open ?rpc ?q (with_session (Some k) None (hex k) s) = (Inr (), s')"
      using run open_by_key_new [of s ?rpc k] new by (auto simp: hex rust_return_apply elim!: rust_bind_InrE)
    with backed [OF cell _ world] obtain f where "backed_by fa q f s'" "x_feed_public_key ext f = k"
      by (auto simp: InnerHypercore_default_def)
    then show "\<exists>f \<in> set (sv_heap (cl_world s')). x_feed_public_key ext f = k \<and>
        (\<forall>bs. holds_log fa block bs f \<longrightarrow> connected fa block q bs s')"
      by (intro bexI [of _ f]) (auto intro: mem backed_by_connected)
  next
    assume new: "NamedMap_get_by_name (cl_sessions s) n = None"
      and run: "RemoteCorestore_open_by_name ?rpc n s = (Inr q, s')"
    obtain nid m where m: "NamedMap_insert_with_name ?q n (cl_sessions s) = (nid, m)" by fastforce
    note cell = with_session_inv(2) [OF client m refl, of None "Some n"]
    obtain t where q: "q = ?q" and t: "RemoteHypercore_open ?rpc ?q (with_session None (Some n) n s) = (Inr (), t)"
      and s': "cl_cores s' = cl_cores t" "cl_world s' = cl_world t"
      using run open_by_name_new [OF new m, of ?rpc]
      by (auto simp: rust_return_apply rust_modify_apply read_core_def elim!: rust_bind_InrE split: option.splits)
    from backed [OF cell _ world t] obtain f sk where f: "backed_by fa q f t"
        "name_key_pair ext (cs_inner (sv_store (cl_world s))) (as_bytes n) = Inr (x_feed_public_key ext f, sk)"
      by (auto simp: InnerHypercore_default_def q)
    have "backed_by fa q f s'" using f(1) s' by (rule backed_by_frame)
    with f(2) show "\<exists>f \<in> set (sv_heap (cl_world s')). (\<forall>bs. holds_log fa block bs f \<longrightarrow> connected fa block q bs s') \<and>
        (\<exists>sk. name_key_pair ext (cs_inner (sv_store (cl_world s))) (as_bytes n) = Inr (x_feed_public_key ext f, sk))"
      by (intro bexI [of _ f]) (auto intro: mem backed_by_connected)
  qed
qed

definition sample_start :: "(sample_files, sample_feed) sv_state cl_state" where
  "sample_start = RemoteCorestore_new sample_fresh"

lemma sample_start_ready: "ready_to_open sample_ext (\<lambda>w. w) sample_start"
  using client_inv_new [of sample_fresh] sample_fresh_inv sample_disk_ok sample_room
  by (simp add: ready_to_open_def sample_start_def sample_fresh_def RemoteCorestore_new_def NamedMap_new_def InnerMap_new_def)

lemma sample_start_open:
  "\<exists>s'. RemoteCorestore_open_by_key sample_session_rpc (replicate 32 5) sample_start = (Inr 0, s')"
proof -
  have new: "NamedMap_get_by_name (cl_sessions sample_start) (hex_encode sample_session_rpc (replicate 32 5)) = None"
    by (simp add: sample_start_def RemoteCorestore_new_def NamedMap_new_def InnerMap_new_def NamedMap_get_by_name_def)
  let ?i = "InnerHypercore_default\<lparr>ih_key := Some (replicate 32 5), ih_name := None, ih_id := 1\<rparr>"
  let ?t = "with_session (Some (replicate 32 5)) None (hex_encode sample_session_rpc (replicate 32 5)) sample_start"
  have t: "deref (cl_cores ?t) 0 = Some ?i" "cl_world ?t = sample_fresh" "length (cl_cores sample_start) = 0"
    by (simp_all add: with_session_def sample_start_def RemoteCorestore_new_def NamedMap_new_def InnerMap_new_def
        NamedMap_insert_with_name_def InnerMap_insert_with_name_def InnerMap_insert_def Let_def deref_def)
  obtain resp w where w: "Session_open sample_ext sample_api
      \<lparr>or_id = 1, or_key = Some (replicate 32 5), or_name = None, or_weak = None\<rparr> sample_fresh = (Inr resp, w)"
    using sample_session_open by blast
  have "rpc_open sample_session_rpc (open_req ?i) (cl_world ?t) = (Inr resp, w)" using w t(2) by (simp add: open_req_def session_rpc_def)
  moreover have "\<not> ih_open ?i" by (simp add: InnerHypercore_default_def)
  ultimately show ?thesis
    using open_answered [OF t(1)] by (simp add: open_by_key_new [OF new] t(3) rust_bind_apply rust_return_apply)
qed

theorem remote_open_connects_witness:
  "\<exists>s' f. RemoteCorestore_open_by_key sample_session_rpc (replicate 32 5) sample_start = (Inr 0, s') \<and>
     f \<in> set (sv_heap (cl_world s')) \<and> sf_key f = replicate 32 5 \<and>
     (\<forall>bs. holds_log sample_api sample_block bs f \<longrightarrow> connected sample_api sample_block 0 bs s')"
proof -
  obtain s' where run: "RemoteCorestore_open_by_key sample_session_rpc (replicate 32 5) sample_start = (Inr 0, s')"
    using sample_start_open by blast
  have new: "NamedMap_get_by_name (cl_sessions sample_start) (map (\<lambda>b. char_of (unat b)) (replicate 32 (5 :: u8))) = None"
    by (simp add: sample_start_def RemoteCorestore_new_def NamedMap_new_def InnerMap_new_def NamedMap_get_by_name_def)
  note result = remote_open_connects [OF sample_feed_build_law sample_key_laws sample_naming_laws sample_disk_laws sample_start_ready,
      where fa = sample_api and block = sample_block and hex = "map (\<lambda>b. char_of (unat b))" and k = "replicate 32 5", THEN conjunct1, THEN mp, OF new, THEN mp, OF run]
  moreover have "x_feed_public_key sample_ext = sf_key" by (simp add: sample_ext_def)
  ultimately show ?thesis using run by auto
qed

end
