(* ===== verification/Peer_Proto.thy ===== *)
theory Peer_Proto
  imports Feed_Api
begin

section \<open>Replicating one feed with one peer (\<open>replicator/src/peer.rs\<close>)\<close>

text \<open>
  A \<open>Peer\<close> exchanges the blocks of a feed over one channel: it announces the blocks it has, requests the
  blocks it misses, sends requested blocks with their proofs, and stores the blocks it is sent.

  The messages have the fields the source fills in.  Tree nodes (\<open>'nd\<close>) and signatures (\<open>'sig\<close>) of
  \<open>hypercore\<close>, its bitfields (\<open>'bf\<close>), \<open>bitfield_rle::decode\<close>, the bitfields of \<open>sparse_bitfield\<close> (\<open>'sb\<close>) and
  sending a message on the channel are the record \<open>proto_ext\<close>.
\<close>

record have_msg =
  h_start :: u64
  h_length :: "u64 option"
  h_bitfield :: "bytes option"
  h_ack :: "bool option"

record want_msg =
  w_start :: u64
  w_length :: "u64 option"

record request_msg =
  rq_index :: u64
  rq_bytes :: "u64 option"
  rq_hash :: "bool option"
  rq_nodes :: "u64 option"

record data_node =
  dn_index :: u64
  dn_hash :: bytes
  dn_size :: u64

record data_msg =
  d_index :: u64
  d_value :: "bytes option"
  d_nodes :: "data_node list"
  d_signature :: "bytes option"

datatype message =
    OpenMsg
  | WantMsg want_msg
  | HaveMsg have_msg
  | RequestMsg request_msg
  | DataMsg data_msg
  | OtherMsg

record ('w, 'nd, 'sig, 'bf, 'sb) proto_ext =
  p_send :: "message \<Rightarrow> ('w, unit) rust"
  p_node_new :: "u64 \<Rightarrow> bytes \<Rightarrow> u64 \<Rightarrow> 'nd"
  p_node_index :: "'nd \<Rightarrow> u64"
  p_node_hash :: "'nd \<Rightarrow> bytes"
  p_node_len :: "'nd \<Rightarrow> u64"
  p_sig_from :: "bytes \<Rightarrow> 'sig result"
  p_sig_bytes :: "'sig \<Rightarrow> bytes"
  p_bf_new :: 'bf
  p_bf_set :: "u64 \<Rightarrow> bool \<Rightarrow> 'bf \<Rightarrow> 'bf"
  p_rle_decode :: "bytes \<Rightarrow> bytes result"
  p_sb_new :: "nat \<Rightarrow> 'sb"
  p_sb_set_byte :: "nat \<Rightarrow> u8 \<Rightarrow> 'sb \<Rightarrow> 'sb"
  p_sb_iter :: "'sb \<Rightarrow> bool list"

subsection \<open>State\<close>

record stats =
  st_id :: bytes
  st_downloaded_blocks :: u64
  st_downloaded_bytes :: u64
  st_uploaded_blocks :: u64
  st_uploaded_bytes :: u64

record 'bf peer =
  pr_feed :: ref
  pr_uploading :: bool
  pr_downloading :: bool
  pr_remote_want :: bool
  pr_remote_ack :: bool
  pr_remote_length :: u64
  pr_want_bitfield :: 'bf
  pr_remote_bitfield :: 'bf
  pr_stats :: ref

text \<open>What a peer's handlers run on: the peer, the corestore's feeds and world, the statistics, and the messages sent.\<close>

record ('w, 'f, 'bf) peer_state =
  ps_peer :: "'bf peer"
  ps_store :: "('w, 'f) cs_state"
  ps_stats :: "stats store"
  ps_sent :: "message list"

definition on_feeds :: "(('w, 'f) cs_state, 'a) rust \<Rightarrow> (('w, 'f, 'bf) peer_state, 'a) rust" where
  "on_feeds m = (\<lambda>s. case m (ps_store s) of (r, t) \<Rightarrow> (r, s\<lparr>ps_store := t\<rparr>))"

abbreviation own_feed :: "('w, 'f, 'bf) peer_state \<Rightarrow> ref" where
  "own_feed s \<equiv> pr_feed (ps_peer s)"

text \<open>A call on the peer's feed.\<close>

definition with_own_feed :: "('f \<times> 'w, 'a) rust \<Rightarrow> (('w, 'f, 'bf) peer_state, 'a) rust" where
  "with_own_feed m = (\<lambda>s. on_feeds (with_feed (own_feed s) m) s)"

definition send_msg ::
  "('w, 'nd, 'sig, 'bf, 'sb) proto_ext \<Rightarrow> message \<Rightarrow> (('w, 'f, 'bf) peer_state, unit) rust" where
  "send_msg px m =
     rust_bind (on_feeds (in_world (p_send px m))) (\<lambda>_.
     rust_modify (\<lambda>s. s\<lparr>ps_sent := ps_sent s @ [m]\<rparr>))"

definition Stats_default :: stats where
  "Stats_default = \<lparr>st_id = replicate 32 0, st_downloaded_blocks = 0, st_downloaded_bytes = 0, st_uploaded_blocks = 0,
     st_uploaded_bytes = 0\<rparr>"

definition Stats_add_downloaded :: "u64 \<Rightarrow> u64 \<Rightarrow> stats \<Rightarrow> stats result" where
  "Stats_add_downloaded blocks nbytes st =
     (case u64_add (st_downloaded_blocks st) blocks of
        Inl e \<Rightarrow> Inl e
      | Inr b \<Rightarrow>
          (case u64_add (st_downloaded_bytes st) nbytes of
             Inl e \<Rightarrow> Inl e
           | Inr n \<Rightarrow> Inr (st\<lparr>st_downloaded_blocks := b, st_downloaded_bytes := n\<rparr>)))"

definition Stats_add_uploaded :: "u64 \<Rightarrow> u64 \<Rightarrow> stats \<Rightarrow> stats result" where
  "Stats_add_uploaded blocks nbytes st =
     (case u64_add (st_uploaded_blocks st) blocks of
        Inl e \<Rightarrow> Inl e
      | Inr b \<Rightarrow>
          (case u64_add (st_uploaded_bytes st) nbytes of
             Inl e \<Rightarrow> Inl e
           | Inr n \<Rightarrow> Inr (st\<lparr>st_uploaded_blocks := b, st_uploaded_bytes := n\<rparr>)))"

definition with_stats :: "(stats \<Rightarrow> stats result) \<Rightarrow> (('w, 'f, 'bf) peer_state, unit) rust" where
  "with_stats g = (\<lambda>s.
     case deref (ps_stats s) (pr_stats (ps_peer s)) of
       None \<Rightarrow> (Inl (Panic ''dangling handle''), s)
     | Some st \<Rightarrow> (case g st of
         Inl e \<Rightarrow> (Inl e, s)
       | Inr st' \<Rightarrow> (Inr (), s\<lparr>ps_stats := (ps_stats s)[pr_stats (ps_peer s) := st']\<rparr>)))"

definition Peer_new :: "('w, 'nd, 'sig, 'bf, 'sb) proto_ext \<Rightarrow> ref \<Rightarrow> ref \<Rightarrow> 'bf peer" where
  "Peer_new px feed stats =
     \<lparr>pr_feed = feed, pr_uploading = False, pr_downloading = False, pr_remote_want = False, pr_remote_ack = False,
      pr_remote_length = 0, pr_want_bitfield = p_bf_new px, pr_remote_bitfield = p_bf_new px, pr_stats = stats\<rparr>"

subsection \<open>Sending\<close>

definition Peer_send_have ::
  "('w, 'nd, 'sig, 'bf, 'sb) proto_ext \<Rightarrow> u64 \<Rightarrow> u64 option \<Rightarrow> (('w, 'f, 'bf) peer_state, unit) rust" where
  "Peer_send_have px start len =
     send_msg px (HaveMsg \<lparr>h_start = start, h_length = len, h_bitfield = None, h_ack = None\<rparr>)"

definition Peer_send_wants ::
  "('w, 'nd, 'sig, 'bf, 'sb) proto_ext \<Rightarrow> u64 \<Rightarrow> (('w, 'f, 'bf) peer_state, unit) rust" where
  "Peer_send_wants px index =
     (let len = 1024 * 1024; j = index div len in
      rust_bind (rust_modify (\<lambda>s. s\<lparr>ps_peer := (ps_peer s)\<lparr>pr_want_bitfield := p_bf_set px j True (pr_want_bitfield (ps_peer s))\<rparr>\<rparr>)) (\<lambda>_.
      send_msg px (WantMsg \<lparr>w_start = j * len, w_length = Some len\<rparr>)))"

definition Peer_on_open :: "('w, 'nd, 'sig, 'bf, 'sb) proto_ext \<Rightarrow> (('w, 'f, 'bf) peer_state, unit) rust" where
  "Peer_on_open px = Peer_send_wants px 0"

subsection \<open>Have and want\<close>

definition parse_bitfield :: "('w, 'nd, 'sig, 'bf, 'sb) proto_ext \<Rightarrow> bytes \<Rightarrow> 'sb result" where
  "parse_bitfield px bitfield =
     (case p_rle_decode px bitfield of
        Inl e \<Rightarrow> Inl (panic_of e)
      | Inr buf \<Rightarrow> Inr (fold (\<lambda>(idx, byte). p_sb_set_byte px idx byte) (List.enumerate 0 buf) (p_sb_new px 1024)))"

text \<open>\<open>start..end\<close>\<close>

definition u64_range :: "u64 \<Rightarrow> u64 \<Rightarrow> u64 list" where
  "u64_range a b = map of_nat [unat a..<unat b]"

text \<open>The blocks a \<open>Have\<close> announces, in the order they are looked at.\<close>

definition announced :: "('w, 'nd, 'sig, 'bf, 'sb) proto_ext \<Rightarrow> have_msg \<Rightarrow> u64 list result" where
  "announced px haves =
     (case h_bitfield haves of
        Some bitfield \<Rightarrow>
          (case parse_bitfield px bitfield of
             Inl e \<Rightarrow> Inl e
           | Inr sb \<Rightarrow> Inr (map (\<lambda>(i, val). of_nat i) (filter snd (List.enumerate 0 (p_sb_iter px sb)))))
      | None \<Rightarrow>
          (let len = (case h_length haves of Some l \<Rightarrow> l | None \<Rightarrow> 1) in
           case u64_add (h_start haves) len of
             Inl e \<Rightarrow> Inl e
           | Inr end_at \<Rightarrow> Inr (u64_range (h_start haves) end_at)))"

definition request_for :: "u64 \<Rightarrow> message" where
  "request_for idx = RequestMsg \<lparr>rq_index = idx, rq_bytes = None, rq_hash = None, rq_nodes = None\<rparr>"

definition Peer_on_have ::
  "('w, 'f, 'nd, 'sig) feed_api \<Rightarrow> ('w, 'nd, 'sig, 'bf, 'sb) proto_ext \<Rightarrow> have_msg \<Rightarrow> (('w, 'f, 'bf) peer_state, unit) rust" where
  "Peer_on_have fa px haves =
     rust_bind (rust_lift (announced px haves)) (\<lambda>idxs.
     rust_bind (with_own_feed (rust_get (\<lambda>(f, w). filter (\<lambda>i. \<not> f_has fa f i) idxs))) (\<lambda>wants.
     rust_for (\<lambda>idx. send_msg px (request_for idx)) wants))"

definition Peer_on_want ::
  "('w, 'f, 'nd, 'sig) feed_api \<Rightarrow> ('w, 'nd, 'sig, 'bf, 'sb) proto_ext \<Rightarrow> want_msg \<Rightarrow> (('w, 'f, 'bf) peer_state, unit) rust" where
  "Peer_on_want fa px want =
     rust_bind (with_own_feed (rust_get (\<lambda>(f, w). f_len fa f))) (\<lambda>len.
     rust_bind (rust_get (\<lambda>s. pr_remote_want (ps_peer s))) (\<lambda>remote_want.
     rust_bind
       (if \<not> remote_want \<and> len > 0 then
          send_msg px (HaveMsg \<lparr>h_start = len - 1, h_length = None, h_bitfield = None, h_ack = None\<rparr>)
        else rust_return ())
       (\<lambda>_.
     rust_bind (rust_modify (\<lambda>s. s\<lparr>ps_peer := (ps_peer s)\<lparr>pr_remote_want := True\<rparr>\<rparr>)) (\<lambda>_.
     let wanted = (case w_length want of Some l \<Rightarrow> l | None \<Rightarrow> len) in
     rust_bind (with_own_feed (rust_get (\<lambda>(f, w). f_compress fa f (w_start want) wanted))) (\<lambda>rle.
     rust_bind (rust_lift rle) (\<lambda>rle.
     send_msg px (HaveMsg \<lparr>h_start = w_start want, h_length = Some wanted, h_bitfield = Some rle, h_ack = None\<rparr>)))))))"

subsection \<open>Request and data\<close>

definition value_len :: "bytes option \<Rightarrow> u64" where
  "value_len v = (case v of None \<Rightarrow> 0 | Some b \<Rightarrow> of_nat (length b))"

text \<open>The proof in a \<open>Data\<close> message, taken apart and put together.\<close>

definition data_of_proof ::
  "('w, 'nd, 'sig, 'bf, 'sb) proto_ext \<Rightarrow> u64 \<Rightarrow> bytes option \<Rightarrow> ('nd, 'sig) proof_msg \<Rightarrow> data_msg" where
  "data_of_proof px index v proof =
     \<lparr>d_index = index, d_value = v,
      d_nodes = map (\<lambda>node. \<lparr>dn_index = p_node_index px node, dn_hash = p_node_hash px node, dn_size = p_node_len px node\<rparr>)
        (pf_nodes proof),
      d_signature = map_option (p_sig_bytes px) (pf_signature proof)\<rparr>"

definition proof_of_data ::
  "('w, 'nd, 'sig, 'bf, 'sb) proto_ext \<Rightarrow> data_msg \<Rightarrow> ('nd, 'sig) proof_msg result" where
  "proof_of_data px data =
     (case (case d_signature data of None \<Rightarrow> Inr None | Some b \<Rightarrow> map_sum id Some (p_sig_from px b)) of
        Inl e \<Rightarrow> Inl e
      | Inr signature \<Rightarrow> Inr \<lparr>pf_index = d_index data,
          pf_nodes = map (\<lambda>n. p_node_new px (dn_index n) (dn_hash n) (dn_size n)) (d_nodes data), pf_signature = signature\<rparr>)"

definition Peer_on_data ::
  "('w, 'f, 'nd, 'sig) feed_api \<Rightarrow> ('w, 'nd, 'sig, 'bf, 'sb) proto_ext \<Rightarrow> data_msg \<Rightarrow> (('w, 'f, 'bf) peer_state, unit) rust" where
  "Peer_on_data fa px data =
     rust_bind (rust_lift (proof_of_data px data)) (\<lambda>proof.
     rust_bind (with_own_feed (f_put fa (d_index data) (d_value data) proof)) (\<lambda>_.
     rust_bind (with_stats (Stats_add_downloaded 1 (value_len (d_value data)))) (\<lambda>_.
     rust_bind (rust_get (\<lambda>s. pr_remote_ack (ps_peer s))) (\<lambda>remote_ack.
     if remote_ack then
       send_msg px (HaveMsg \<lparr>h_start = d_index data, h_length = Some 1, h_bitfield = None, h_ack = Some True\<rparr>)
     else rust_return ()))))"

definition Peer_on_request ::
  "('w, 'f, 'nd, 'sig) feed_api \<Rightarrow> ('w, 'nd, 'sig, 'bf, 'sb) proto_ext \<Rightarrow> request_msg \<Rightarrow> (('w, 'f, 'bf) peer_state, unit) rust" where
  "Peer_on_request fa px request =
     (let index = rq_index request in
      rust_bind (with_own_feed (f_get fa index)) (\<lambda>v.
      rust_bind (with_own_feed (f_proof fa index False)) (\<lambda>proof.
      rust_bind (send_msg px (DataMsg (data_of_proof px index v proof))) (\<lambda>_.
      with_stats (Stats_add_uploaded 1 (value_len v))))))"

subsection \<open>The loop\<close>

datatype peer_event = FeedEv feed_event | MessageEv message

definition Peer_handle ::
  "('w, 'f, 'nd, 'sig) feed_api \<Rightarrow> ('w, 'nd, 'sig, 'bf, 'sb) proto_ext \<Rightarrow> peer_event \<Rightarrow> (('w, 'f, 'bf) peer_state, unit) rust" where
  "Peer_handle fa px event =
     (case event of
        MessageEv message \<Rightarrow>
          (case message of
             OpenMsg \<Rightarrow> Peer_on_open px
           | WantMsg want \<Rightarrow> Peer_on_want fa px want
           | HaveMsg haves \<Rightarrow> Peer_on_have fa px haves
           | RequestMsg request \<Rightarrow> Peer_on_request fa px request
           | DataMsg data \<Rightarrow> Peer_on_data fa px data
           | OtherMsg \<Rightarrow> rust_return ())
      | FeedEv event \<Rightarrow>
          (case event of
             FeedDownload index \<Rightarrow> Peer_send_have px index None
           | FeedAppend \<Rightarrow>
               rust_bind (with_own_feed (rust_get (\<lambda>(f, w). f_len fa f))) (\<lambda>len.
               rust_bind (rust_lift (u64_sub len 1)) (\<lambda>last. Peer_send_have px last None))
           | FeedOther \<Rightarrow> rust_return ()))"

text \<open>The whole task, when \<open>events\<close> are the messages and feed events it receives, merged, before they end.\<close>

definition Peer_run ::
  "('w, 'f, 'nd, 'sig) feed_api \<Rightarrow> ('w, 'nd, 'sig, 'bf, 'sb) proto_ext \<Rightarrow> peer_event list \<Rightarrow> (('w, 'f, 'bf) peer_state, unit) rust" where
  "Peer_run fa px events =
     rust_bind (with_own_feed (f_subscribe fa)) (\<lambda>_.
     rust_bind (Peer_on_open px) (\<lambda>_.
     rust_for (Peer_handle fa px) events))"

end
