(* ===== verification/Peer_Props.thy ===== *)
theory Peer_Props
  imports Peer_Proto
begin

section \<open>Lemmas on the peer's handlers\<close>

text \<open>
  Runs of the handlers on a peer whose feed exists, what they leave alone, and the two halves of an
  exchange: what serving requests sends, and what storing the answers does to the feed.
\<close>

abbreviation ps_heap :: "('w, 'f, 'bf) peer_state \<Rightarrow> 'f store" where
  "ps_heap s \<equiv> cs_heap (ps_store s)"

lemma own_feed_run:
  assumes "deref (ps_heap s) (own_feed s) = Some f"
  shows "with_own_feed m s = (case m (f, cs_world (ps_store s)) of (r, f', w') \<Rightarrow>
    (r, s\<lparr>ps_store := (ps_store s)\<lparr>cs_heap := (ps_heap s)[own_feed s := f'], cs_world := w'\<rparr>\<rparr>))"
  using assms by (simp add: with_own_feed_def on_feeds_def with_feed_run split: prod.splits)

lemma own_feed_look:
  assumes "deref (ps_heap s) (own_feed s) = Some f"
  shows "with_own_feed (rust_get (\<lambda>(f, w). g f)) s = (Inr (g f), s)"
  using assms by (simp add: with_own_feed_def on_feeds_def)

lemma send_msg_run:
  "send_msg px m s = (case p_send px m (cs_world (ps_store s)) of (r, w) \<Rightarrow>
     (r, s\<lparr>ps_store := (ps_store s)\<lparr>cs_world := w\<rparr>,
           ps_sent := (case r of Inl e \<Rightarrow> ps_sent s | Inr _ \<Rightarrow> ps_sent s @ [m])\<rparr>))"
  by (simp add: send_msg_def rust_bind_apply on_feeds_def in_world_def rust_modify_apply split: prod.splits sum.splits)

text \<open>The channel takes every message.\<close>

definition channel_up :: "('w, 'nd, 'sig, 'bf, 'sb) proto_ext \<Rightarrow> bool" where
  "channel_up px \<longleftrightarrow> (\<forall>m w. \<exists>w'. p_send px m w = (Inr (), w'))"

text \<open>Only messages have been sent.\<close>

definition sent_only :: "message list \<Rightarrow> ('w, 'f, 'bf) peer_state \<Rightarrow> ('w, 'f, 'bf) peer_state \<Rightarrow> bool" where
  "sent_only ms s s' \<longleftrightarrow> ps_peer s' = ps_peer s \<and> ps_stats s' = ps_stats s \<and> ps_sent s' = ps_sent s @ ms \<and>
     same_mem (ps_store s) (ps_store s')"

lemma sent_only_Nil: "sent_only [] s s"
  by (simp add: sent_only_def)

lemma sent_only_trans: "sent_only ms s s' \<Longrightarrow> sent_only ms' s' s'' \<Longrightarrow> sent_only (ms @ ms') s s''"
  by (auto simp: sent_only_def intro: same_mem_trans)

lemma sent_only_heap: "sent_only ms s s' \<Longrightarrow> ps_heap s' = ps_heap s \<and> own_feed s' = own_feed s"
  by (simp add: sent_only_def same_memD)

lemma send_msg_up:
  assumes "channel_up px"
  obtains s' where "send_msg px m s = (Inr (), s')" "sent_only [m] s s'"
proof -
  obtain w where "p_send px m (cs_world (ps_store s)) = (Inr (), w)"
    using assms by (auto simp: channel_up_def)
  then show ?thesis
    by (intro that) (auto simp: send_msg_run sent_only_def same_mem_def)
qed

lemma send_all_up:
  assumes up: "channel_up px"
  shows "\<exists>s'. rust_for (\<lambda>x. send_msg px (g x)) xs s = (Inr (), s') \<and> sent_only (map g xs) s s'"
proof (induction xs arbitrary: s)
  case Nil
  then show ?case by (simp add: rust_return_apply sent_only_Nil)
next
  case (Cons x xs)
  obtain s1 where s1: "send_msg px (g x) s = (Inr (), s1)" "sent_only [g x] s s1"
    using up by (rule send_msg_up)
  from Cons [of s1] obtain s2 where "rust_for (\<lambda>x. send_msg px (g x)) xs s1 = (Inr (), s2)" "sent_only (map g xs) s1 s2"
    by blast
  with s1 sent_only_trans [OF s1(2)] show ?case by (fastforce simp: rust_bind_apply)
qed

lemma send_msg_sent: "send_msg px m s = (Inr (), s') \<Longrightarrow> sent_only [m] s s'"
  by (auto simp: send_msg_run sent_only_def same_mem_def split: prod.splits)

subsection \<open>What no message can break\<close>

lemma keeps_for: "(\<And>x. keeps J (m x)) \<Longrightarrow> keeps J (rust_for m xs)"
  by (rule triple_for) simp

lemma keeps_bind: "keeps J m \<Longrightarrow> (\<And>a. keeps J (f a)) \<Longrightarrow> keeps J (rust_bind m f)"
  by (rule triple_bind)

lemma keeps_pure:
  "keeps J (rust_return a)" "keeps J (rust_lift r)" "keeps J (rust_get g)"
  by (auto intro: keepsI simp: rust_simps)

abbreviation on_store :: "(('w, 'f) cs_state \<Rightarrow> bool) \<Rightarrow> ('w, 'f, 'bf) peer_state \<Rightarrow> bool" where
  "on_store I s \<equiv> I (ps_store s)"

text \<open>
  A property \<open>I\<close> of the corestore that the world cannot break and that the calls the replicator makes on a
  feed keep: then every handler keeps it, whatever messages arrive, also when a handler fails.
\<close>

locale feed_property =
  fixes I :: "('w, 'f) cs_state \<Rightarrow> bool" and fa :: "('w, 'f, 'nd, 'sig) feed_api"
  assumes world: "I t \<Longrightarrow> I (t\<lparr>cs_world := w\<rparr>)"
    and subscribe: "I t \<Longrightarrow> with_feed q (f_subscribe fa) t = (rn, t') \<Longrightarrow> I t'"
    and get: "I t \<Longrightarrow> with_feed q (f_get fa i) t = (rb, t') \<Longrightarrow> I t'"
    and prove: "I t \<Longrightarrow> with_feed q (f_proof fa i d) t = (rp, t') \<Longrightarrow> I t'"
    and put: "I t \<Longrightarrow> with_feed q (f_put fa i v pf) t = (ru, t') \<Longrightarrow> I t'"
begin

lemma keeps_own_feed:
  assumes "\<And>q t r t'. I t \<Longrightarrow> with_feed q m t = (r, t') \<Longrightarrow> I t'"
  shows "keeps (on_store I) (with_own_feed m)"
  using assms by (intro keepsI) (auto simp: with_own_feed_def on_feeds_def split: prod.splits)

lemma keeps_look: "keeps (on_store I) (with_own_feed (rust_get (\<lambda>(f, w). g f)))"
  by (rule keeps_own_feed) (metis peek_feed_any)

lemma keeps_send_msg: "keeps (on_store I) (send_msg px m)"
  by (intro keepsI) (auto simp: send_msg_run world split: prod.splits)

lemma keeps_with_stats: "keeps (on_store I) (with_stats g)"
  by (intro keepsI) (simp add: with_stats_def split: option.splits sum.splits)

lemma keeps_peer_only: "(\<And>s. ps_store (g s) = ps_store s) \<Longrightarrow> keeps (on_store I) (rust_modify g)"
  by (auto intro: keepsI simp: rust_simps)

lemmas keeps_calls = keeps_bind keeps_for keeps_look keeps_send_msg keeps_with_stats keeps_pure triple_if

lemma keeps_on_open: "keeps (on_store I) (Peer_on_open px)"
  unfolding Peer_on_open_def Peer_send_wants_def Let_def
  by (intro keeps_calls keeps_peer_only) simp

lemma keeps_on_have: "keeps (on_store I) (Peer_on_have fa px h)"
  unfolding Peer_on_have_def by (intro keeps_calls)

lemma keeps_on_want: "keeps (on_store I) (Peer_on_want fa px w)"
  unfolding Peer_on_want_def Let_def by (intro keeps_calls keeps_peer_only) simp

lemma keeps_on_data: "keeps (on_store I) (Peer_on_data fa px d)"
  unfolding Peer_on_data_def by (intro keeps_calls keeps_own_feed) (rule put)

lemma keeps_on_request: "keeps (on_store I) (Peer_on_request fa px r)"
proof -
  have "keeps (on_store I) (with_own_feed (f_get fa (rq_index r)))" by (rule keeps_own_feed) (rule get)
  moreover have "keeps (on_store I) (with_own_feed (f_proof fa (rq_index r) False))" by (rule keeps_own_feed) (rule prove)
  ultimately show ?thesis
    unfolding Peer_on_request_def Let_def by (intro keeps_calls)
qed

lemma keeps_on_appended:
  "keeps (on_store I) (rust_bind (with_own_feed (rust_get (\<lambda>(f, w). f_len fa f))) (\<lambda>len.
     rust_bind (rust_lift (u64_sub len 1)) (\<lambda>last. Peer_send_have px last None)))"
  unfolding Peer_send_have_def by (intro keeps_calls)

lemma keeps_handle: "keeps (on_store I) (Peer_handle fa px ev)"
  unfolding Peer_handle_def
  by (auto split: peer_event.split message.split feed_event.split simp: keeps_pure Peer_send_have_def [of px _ None] keeps_send_msg
      intro: keeps_on_open keeps_on_want keeps_on_have keeps_on_request keeps_on_data
        keeps_on_appended [unfolded Peer_send_have_def])

lemma keeps_run: "keeps (on_store I) (Peer_run fa px evs)"
proof -
  have "keeps (on_store I) (with_own_feed (f_subscribe fa))" by (rule keeps_own_feed) (rule subscribe)
  then show ?thesis
    unfolding Peer_run_def by (intro keeps_calls keeps_on_open keeps_handle)
qed

lemma run_property: "I (ps_store s) \<Longrightarrow> Peer_run fa px evs s = (r, s') \<Longrightarrow> I (ps_store s')"
  using keepsD [OF keeps_run, of s px evs] by simp

end

text \<open>The corestore's tables and its invariant are such properties.\<close>

lemma feed_only_call: "feed_only t0 t \<Longrightarrow> with_feed q m t = (r, t') \<Longrightarrow> feed_only t0 t'"
  by (auto simp: with_feed_def feed_only_def split: option.splits prod.splits)

interpretation peer_frame: feed_property "feed_only t0" fa for t0 :: "('w, 'f) cs_state" and fa :: "('w, 'f, 'nd, 'sig) feed_api"
proof
  show "feed_only t0 (t\<lparr>cs_world := w\<rparr>)" if "feed_only t0 t" for t w
    using that by (simp add: feed_only_def)
qed (erule (1) feed_only_call)+

interpretation peer_store: feed_property "\<lambda>t. feed_keys_kept ext fa \<longrightarrow> cs_inv ext t" fa
  for ext :: "('w, 'f, 'st, 'h) cs_ext" and fa :: "('w, 'f, 'nd, 'sig) feed_api"
proof
  show "(feed_keys_kept ext fa \<longrightarrow> cs_inv ext t) \<Longrightarrow> feed_keys_kept ext fa \<longrightarrow> cs_inv ext (t\<lparr>cs_world := w\<rparr>)" for t w
    using cs_inv_same_mem [of t "t\<lparr>cs_world := w\<rparr>" ext] by (auto simp: same_mem_def)
qed (metis feed_keys_kept_def with_feed_inv)+

end
