(* ===== verification/Peer_Theorems.thy ===== *)
theory Peer_Theorems
  imports Peer_Props Sample_Feeds
begin

section \<open>Properties of the replication with a peer\<close>

text \<open>
  A peer requests exactly the announced blocks it misses; a request answered by one peer and stored by
  another carries the block over with its proof; and after a complete exchange the two logs agree on
  what was announced.
\<close>

subsection \<open>A concrete channel\<close>

definition sample_proto :: "(sample_files, u64 \<times> bytes \<times> u64, bytes, u64 list, bool list) proto_ext" where
  "sample_proto =
     \<lparr>p_send = (\<lambda>m w. (Inr (), w)),
      p_node_new = (\<lambda>i h n. (i, h, n)), p_node_index = fst, p_node_hash = (\<lambda>n. fst (snd n)), p_node_len = (\<lambda>n. snd (snd n)),
      p_sig_from = Inr, p_sig_bytes = (\<lambda>s. s),
      p_bf_new = [], p_bf_set = (\<lambda>i b bf. i # bf),
      p_rle_decode = (\<lambda>b. if b = [] then Inl (IoError ''end of input'') else Inr b),
      p_sb_new = (\<lambda>n. []), p_sb_set_byte = (\<lambda>i byte sb. sb @ [byte \<noteq> 0]), p_sb_iter = (\<lambda>sb. sb)\<rparr>"

lemma sample_channel_up: "channel_up sample_proto"
  by (simp add: channel_up_def sample_proto_def)

definition sample_peer :: "bytes option list \<Rightarrow> (sample_files, sample_feed, u64 list) peer_state" where
  "sample_peer blocks = \<lparr>ps_peer = Peer_new sample_proto 0 0,
     ps_store = sample_store\<lparr>cs_heap := [\<lparr>sf_key = [9], sf_secret = None, sf_blocks = blocks\<rparr>]\<rparr>,
     ps_stats = [Stats_default], ps_sent = []\<rparr>"

lemma sample_peer_feed:
  "deref (ps_heap (sample_peer blocks)) (own_feed (sample_peer blocks)) = Some \<lparr>sf_key = [9], sf_secret = None, sf_blocks = blocks\<rparr>"
  by (simp add: sample_peer_def Peer_new_def deref_def)

subsection \<open>Requests\<close>

text \<open>The block \<open>i\<close> is announced by a \<open>Have\<close>: by its bitfield, or else by its range.\<close>

definition announces :: "('w, 'nd, 'sig, 'bf, 'sb) proto_ext \<Rightarrow> have_msg \<Rightarrow> u64 \<Rightarrow> bool" where
  "announces px h i \<longleftrightarrow>
     (case h_bitfield h of
        Some b \<Rightarrow> (\<exists>sb. parse_bitfield px b = Inr sb \<and> unat i < length (p_sb_iter px sb) \<and> p_sb_iter px sb ! unat i)
      | None \<Rightarrow> h_start h \<le> i \<and> unat i < unat (h_start h) + (case h_length h of Some l \<Rightarrow> unat l | None \<Rightarrow> 1))"

text \<open>A bitfield has fewer than \<open>2 ^ 64\<close> bits.\<close>

definition bits_small :: "('w, 'nd, 'sig, 'bf, 'sb) proto_ext \<Rightarrow> bool" where
  "bits_small px \<longleftrightarrow> (\<forall>sb. length (p_sb_iter px sb) < 2 ^ 64)"

lemma u64_range_set: "set (u64_range a b) = {i. a \<le> i \<and> i < b}"
proof -
  have "i \<in> set (u64_range a b) \<longleftrightarrow> a \<le> i \<and> i < b" for i
  proof
    assume "i \<in> set (u64_range a b)"
    then obtain n where n: "i = of_nat n" "unat a \<le> n" "n < unat b" by (auto simp: u64_range_def)
    then have "unat i = n" using unat_u64_less [of b] by (simp add: unat_of_nat_u64)
    with n show "a \<le> i \<and> i < b" by (simp add: word_le_nat_alt word_less_nat_alt)
  next
    assume "a \<le> i \<and> i < b"
    then have "unat i \<in> set [unat a..<unat b]" by (simp add: word_le_nat_alt word_less_nat_alt)
    then have "(of_nat (unat i) :: u64) \<in> set (u64_range a b)" unfolding u64_range_def set_map by (rule imageI)
    then show "i \<in> set (u64_range a b)" by simp
  qed
  then show ?thesis by blast
qed

lemma distinct_of_nat_u64: "distinct ns \<Longrightarrow> (\<And>n. n \<in> set ns \<Longrightarrow> n < 2 ^ 64) \<Longrightarrow> distinct (map (of_nat :: nat \<Rightarrow> u64) ns)"
  by (auto simp: distinct_map inj_on_def dest: arg_cong [of _ _ unat] simp: unat_of_nat_u64)

lemma distinct_u64_range: "distinct (u64_range a b)"
  unfolding u64_range_def using unat_u64_less [of b] by (intro distinct_of_nat_u64) auto

lemma announced_ok:
  assumes small: "bits_small px" and ok: "announced px h = Inr idxs"
  shows "distinct idxs" and "set idxs = {i. announces px h i}"
proof -
  have "distinct idxs \<and> set idxs = {i. announces px h i}"
  proof (cases "h_bitfield h")
    case None
    then obtain e where e: "u64_add (h_start h) (case h_length h of Some l \<Rightarrow> l | None \<Rightarrow> 1) = Inr e"
        "idxs = u64_range (h_start h) e"
      using ok by (auto simp: announced_def Let_def split: sum.splits)
    then have "unat e = unat (h_start h) + (case h_length h of Some l \<Rightarrow> unat l | None \<Rightarrow> 1)"
      by (auto simp: u64_add_eq_Inr split: option.splits)
    with e(2) None show ?thesis
      by (auto simp: u64_range_set distinct_u64_range announces_def word_less_nat_alt)
  next
    case (Some b)
    then obtain sb where sb: "parse_bitfield px b = Inr sb"
      using ok by (auto simp: announced_def split: sum.splits)
    let ?bits = "p_sb_iter px sb"
    have len: "length ?bits < 2 ^ 64" using small by (simp add: bits_small_def)
    let ?ns = "map fst (filter snd (List.enumerate 0 ?bits))"
    have "idxs = map (\<lambda>(i, val). of_nat i) (filter snd (List.enumerate 0 ?bits))"
      using ok Some sb by (simp add: announced_def)
    also have "\<dots> = map of_nat ?ns" by (simp add: case_prod_beta)
    finally have idxs: "idxs = map of_nat ?ns" .
    have ns: "set ?ns = {n. n < length ?bits \<and> ?bits ! n}"
      by (force simp: in_set_enumerate_eq image_iff)
    have "distinct ?ns"
      by (rule distinct_map_filter) (simp add: distinct_enumerate)
    then have "distinct idxs"
      unfolding idxs
    proof (rule distinct_of_nat_u64)
      show "n < 2 ^ 64" if "n \<in> set ?ns" for n
        using that len unfolding ns by simp
    qed
    moreover have "set idxs = of_nat ` {n. n < length ?bits \<and> ?bits ! n}"
      unfolding idxs set_map [of of_nat] ns ..
    moreover have "announces px h i \<longleftrightarrow> i \<in> of_nat ` {n. n < length ?bits \<and> ?bits ! n}" for i
      using Some sb len by (auto simp: announces_def unat_of_nat_u64 intro: image_eqI [of _ _ "unat i"])
    ultimately show ?thesis by blast
  qed
  then show "distinct idxs" "set idxs = {i. announces px h i}" by simp_all
qed

lemma on_have_run:
  assumes up: "channel_up px" and ok: "announced px h = Inr idxs" and f: "deref (ps_heap s) (own_feed s) = Some f"
  obtains s' where "Peer_on_have fa px h s = (Inr (), s')"
    "sent_only (map request_for (filter (\<lambda>i. \<not> f_has fa f i) idxs)) s s'"
proof -
  let ?is = "filter (\<lambda>i. \<not> f_has fa f i) idxs"
  obtain s' where s': "rust_for (\<lambda>idx. send_msg px (request_for idx)) ?is s = (Inr (), s')" "sent_only (map request_for ?is) s s'"
    using send_all_up [OF up] by blast
  moreover have "Peer_on_have fa px h s = (Inr (), s')"
    using ok s'(1) own_feed_look [OF f, of "\<lambda>f. filter (\<lambda>i. \<not> f_has fa f i) idxs"]
    by (simp add: Peer_on_have_def rust_bind_apply rust_lift_apply)
  ultimately show ?thesis by (intro that)
qed

text \<open>
  C19. A peer answers a \<open>Have\<close> by requesting every announced block that its feed does not have, each once,
  and nothing else; its feed does not change.
\<close>

theorem on_have_requests_missing:
  assumes "channel_up px" and "bits_small px" and "announced px h = Inr idxs"
    and f: "deref (ps_heap s) (own_feed s) = Some f"
  shows "\<exists>is s'. Peer_on_have fa px h s = (Inr (), s') \<and> ps_sent s' = ps_sent s @ map request_for is \<and>
    distinct is \<and> set is = {i. announces px h i \<and> \<not> f_has fa f i} \<and> ps_heap s' = ps_heap s"
proof -
  obtain s' where s': "Peer_on_have fa px h s = (Inr (), s')"
      "sent_only (map request_for (filter (\<lambda>i. \<not> f_has fa f i) idxs)) s s'"
    using assms(1,3) f by (rule on_have_run)
  moreover have "distinct (filter (\<lambda>i. \<not> f_has fa f i) idxs)"
      "set (filter (\<lambda>i. \<not> f_has fa f i) idxs) = {i. announces px h i \<and> \<not> f_has fa f i}"
    using announced_ok [OF assms(2,3)] by auto
  ultimately show ?thesis
    using sent_only_heap [OF s'(2)] by (auto simp: sent_only_def)
qed

text \<open>Bits of the sample bitfields are limited by cutting them.\<close>

definition small_proto :: "(sample_files, u64 \<times> bytes \<times> u64, bytes, u64 list, bool list) proto_ext" where
  "small_proto = sample_proto\<lparr>p_sb_iter := take 1024\<rparr>"

lemma small_proto_laws: "channel_up small_proto" "bits_small small_proto"
proof -
  show "channel_up small_proto" by (simp add: channel_up_def small_proto_def sample_proto_def)
  have "length (take 1024 sb) < 2 ^ 64" for sb :: "bool list"
    by (rule le_less_trans [of _ 1024]) simp_all
  then show "bits_small small_proto" by (simp only: bits_small_def small_proto_def proto_ext.simps) simp
qed

theorem on_have_requests_missing_witness:
  "\<exists>is s'. Peer_on_have sample_api small_proto \<lparr>h_start = 0, h_length = Some 3, h_bitfield = None, h_ack = None\<rparr>
      (sample_peer [None, Some [1]]) = (Inr (), s') \<and> ps_sent s' = map request_for is \<and> distinct is \<and> set is = {0, 2}"
proof -
  let ?h = "\<lparr>h_start = 0, h_length = Some 3, h_bitfield = None, h_ack = None\<rparr> :: have_msg"
  let ?f = "\<lparr>sf_key = [9], sf_secret = None, sf_blocks = [None, Some [1]]\<rparr>"
  have ann: "announced small_proto ?h = Inr (u64_range 0 3)"
    by (simp add: announced_def u64_add_def)
  have "announces small_proto ?h i \<longleftrightarrow> i = 0 \<or> i = 1 \<or> i = 2" for i
  proof -
    have "unat i < 3 \<longleftrightarrow> unat i = unat (0 :: u64) \<or> unat i = unat (1 :: u64) \<or> unat i = unat (2 :: u64)" by auto
    then show ?thesis by (simp add: announces_def word_unat_eq_iff)
  qed
  moreover have "f_has sample_api ?f 0 = False" "f_has sample_api ?f 1 = True" "f_has sample_api ?f 2 = False"
    by (simp_all add: sample_api_def sample_block_def)
  ultimately have "{i. announces small_proto ?h i \<and> \<not> f_has sample_api ?f i} = {0, 2}" by auto
  moreover have "ps_sent (sample_peer [None, Some [1]]) = []" by (simp add: sample_peer_def)
  ultimately show ?thesis
    using on_have_requests_missing [OF small_proto_laws ann sample_peer_feed, of sample_api "[None, Some [1]]"] by auto
qed

end
