(* ===== verification/Peer_Exchange.thy ===== *)
theory Peer_Exchange
  imports Peer_Theorems
begin

section \<open>Blocks move from peer to peer\<close>

text \<open>
  One peer announces, the other requests, the first answers with data and proofs, the second stores:
  this theory follows the messages of such an exchange through the handlers of both peers.
\<close>

subsection \<open>What is relied on\<close>

text \<open>
  A feed on a working disk: it has exactly the blocks \<open>block\<close> gives, it can read and prove what it has, and it
  accepts a block whose proof is valid for its public key.
\<close>

definition feed_proofs ::
  "('w, 'f, 'nd, 'sig) feed_api \<Rightarrow> ('f \<Rightarrow> u64 \<Rightarrow> bytes option) \<Rightarrow> ('f \<Rightarrow> bytes) \<Rightarrow>
   (bytes \<Rightarrow> u64 \<Rightarrow> bytes \<Rightarrow> ('nd, 'sig) proof_msg \<Rightarrow> bool) \<Rightarrow> bool" where
  "feed_proofs fa block fkey valid \<longleftrightarrow>
     (\<forall>f i. f_has fa f i \<longleftrightarrow> block f i \<noteq> None) \<and>
     (\<forall>f w i b. block f i = Some b \<longrightarrow>
        (\<exists>f' w'. f_get fa i (f, w) = (Inr (Some b), f', w') \<and> block f' = block f \<and> fkey f' = fkey f)) \<and>
     (\<forall>f w i b. block f i = Some b \<longrightarrow>
        (\<exists>pf f' w'. f_proof fa i False (f, w) = (Inr pf, f', w') \<and> block f' = block f \<and> fkey f' = fkey f \<and>
           pf_index pf = i \<and> valid (fkey f) i b pf)) \<and>
     (\<forall>f w i b pf. valid (fkey f) i b pf \<longrightarrow>
        (\<exists>f' w'. f_put fa i (Some b) pf (f, w) = (Inr (), f', w') \<and> block f' = (block f)(i \<mapsto> b) \<and> fkey f' = fkey f))"

lemma feed_proofsD:
  assumes "feed_proofs fa block fkey valid"
  shows has_block: "f_has fa f i \<longleftrightarrow> block f i \<noteq> None"
    and get_block: "block f i = Some b \<Longrightarrow> \<exists>f' w'. f_get fa i (f, w) = (Inr (Some b), f', w') \<and> block f' = block f \<and> fkey f' = fkey f"
    and prove_block: "block f i = Some b \<Longrightarrow> \<exists>pf f' w'. f_proof fa i False (f, w) = (Inr pf, f', w') \<and> block f' = block f \<and>
      fkey f' = fkey f \<and> pf_index pf = i \<and> valid (fkey f) i b pf"
    and put_block: "valid (fkey f) i b pf \<Longrightarrow>
      \<exists>f' w'. f_put fa i (Some b) pf (f, w) = (Inr (), f', w') \<and> block f' = (block f)(i \<mapsto> b) \<and> fkey f' = fkey f"
  using assms unfolding feed_proofs_def by blast+

text \<open>Nodes and signatures survive the way through a message.\<close>

definition codec_laws :: "('w, 'nd, 'sig, 'bf, 'sb) proto_ext \<Rightarrow> bool" where
  "codec_laws px \<longleftrightarrow>
     (\<forall>n. p_node_new px (p_node_index px n) (p_node_hash px n) (p_node_len px n) = n) \<and>
     (\<forall>s. p_sig_from px (p_sig_bytes px s) = Inr s)"

lemma proof_round_trip:
  assumes "codec_laws px" and "pf_index pf = i"
  shows "proof_of_data px (data_of_proof px i v pf) = Inr pf"
proof -
  have "map ((\<lambda>n. p_node_new px (dn_index n) (dn_hash n) (dn_size n)) \<circ>
      (\<lambda>node. \<lparr>dn_index = p_node_index px node, dn_hash = p_node_hash px node, dn_size = p_node_len px node\<rparr>)) ns = ns" for ns
    using assms(1) by (simp add: codec_laws_def comp_def)
  then show ?thesis
    using assms by (cases pf) (auto simp: proof_of_data_def data_of_proof_def codec_laws_def split: option.splits)
qed

subsection \<open>Serving\<close>

text \<open>The feed and the statistics of a peer.\<close>

definition at_peer :: "('w, 'f, 'bf) peer_state \<Rightarrow> 'f \<Rightarrow> stats \<Rightarrow> bool" where
  "at_peer s f st \<longleftrightarrow> deref (ps_heap s) (own_feed s) = Some f \<and> deref (ps_stats s) (pr_stats (ps_peer s)) = Some st"

text \<open>The message carries block \<open>i\<close> with a valid proof.\<close>

definition carries ::
  "('w, 'nd, 'sig, 'bf, 'sb) proto_ext \<Rightarrow> (bytes \<Rightarrow> u64 \<Rightarrow> bytes \<Rightarrow> ('nd, 'sig) proof_msg \<Rightarrow> bool) \<Rightarrow> bytes \<Rightarrow>
   u64 \<Rightarrow> bytes \<Rightarrow> message \<Rightarrow> bool" where
  "carries px valid k i b m \<longleftrightarrow> (\<exists>pf. m = DataMsg (data_of_proof px i (Some b) pf) \<and> pf_index pf = i \<and> valid k i b pf)"

lemma at_peer_sent: "sent_only ms s s' \<Longrightarrow> at_peer s' f st \<longleftrightarrow> at_peer s f st"
  by (auto simp: at_peer_def sent_only_def same_memD)

text \<open>A call on the feed of a peer, when the call succeeds.\<close>

lemma own_feed_step:
  assumes "at_peer s f st" and "m (f, cs_world (ps_store s)) = (Inr a, f', w')"
  obtains s' where "with_own_feed m s = (Inr a, s')" "at_peer s' f' st" "ps_sent s' = ps_sent s" "ps_peer s' = ps_peer s"
proof -
  let ?s = "s\<lparr>ps_store := (ps_store s)\<lparr>cs_heap := (ps_heap s)[own_feed s := f'], cs_world := w'\<rparr>\<rparr>"
  have "with_own_feed m s = (Inr a, ?s)"
    using assms own_feed_run [of s f m] by (simp add: at_peer_def)
  moreover have "at_peer ?s f' st" using assms(1) by (auto simp: at_peer_def deref_eq_Some)
  ultimately show ?thesis by (rule that) simp_all
qed

lemma with_stats_step:
  assumes "at_peer s f st" and "g st = Inr st'"
  obtains s' where "with_stats g s = (Inr (), s')" "at_peer s' f st'" "ps_sent s' = ps_sent s" "ps_peer s' = ps_peer s"
proof (rule that [of "s\<lparr>ps_stats := (ps_stats s)[pr_stats (ps_peer s) := st']\<rparr>"])
  show "with_stats g s = (Inr (), s\<lparr>ps_stats := (ps_stats s)[pr_stats (ps_peer s) := st']\<rparr>)"
    using assms by (simp add: at_peer_def with_stats_def)
  show "at_peer (s\<lparr>ps_stats := (ps_stats s)[pr_stats (ps_peer s) := st']\<rparr>) f st'"
    using assms(1) by (auto simp: at_peer_def deref_eq_Some)
qed simp_all

lemma u64_add_of_nat:
  "unat a + n < 2 ^ 64 \<Longrightarrow> \<exists>c. u64_add a (of_nat n) = Inr c \<and> unat c = unat a + n"
  using unat_of_nat_u64 [of n] unat_plus_u64 [of a "of_nat n"] by (auto simp: u64_add_eq_Inr)

lemma Stats_add_uploaded_run:
  assumes "unat (st_uploaded_blocks st) + 1 < 2 ^ 64" and "unat (st_uploaded_bytes st) + length b < 2 ^ 64"
  obtains st' where "Stats_add_uploaded 1 (value_len (Some b)) st = Inr st'"
    "unat (st_uploaded_blocks st') = Suc (unat (st_uploaded_blocks st))"
    "unat (st_uploaded_bytes st') = unat (st_uploaded_bytes st) + length b"
    "st_downloaded_blocks st' = st_downloaded_blocks st" "st_downloaded_bytes st' = st_downloaded_bytes st"
  using u64_add_of_nat [OF assms(1)] u64_add_of_nat [OF assms(2)]
  by (auto simp: Stats_add_uploaded_def value_len_def)

lemma Stats_add_downloaded_run:
  assumes "unat (st_downloaded_blocks st) + 1 < 2 ^ 64" and "unat (st_downloaded_bytes st) + length b < 2 ^ 64"
  obtains st' where "Stats_add_downloaded 1 (value_len (Some b)) st = Inr st'"
    "unat (st_downloaded_blocks st') = Suc (unat (st_downloaded_blocks st))"
    "unat (st_downloaded_bytes st') = unat (st_downloaded_bytes st) + length b"
  using u64_add_of_nat [OF assms(1)] u64_add_of_nat [OF assms(2)]
  by (auto simp: Stats_add_downloaded_def value_len_def)

lemma on_request_run:
  assumes laws: "feed_proofs fa block fkey valid" and up: "channel_up px" and a: "at_peer a f st"
    and b: "block f (rq_index req) = Some b"
    and room: "unat (st_uploaded_blocks st) + 1 < 2 ^ 64" "unat (st_uploaded_bytes st) + length b < 2 ^ 64"
  obtains m a' f' st' where "Peer_on_request fa px req a = (Inr (), a')" "at_peer a' f' st'"
    "block f' = block f" "fkey f' = fkey f" "ps_sent a' = ps_sent a @ [m]" "carries px valid (fkey f) (rq_index req) b m"
    "unat (st_uploaded_blocks st') = Suc (unat (st_uploaded_blocks st))"
    "unat (st_uploaded_bytes st') = unat (st_uploaded_bytes st) + length b"
    "st_downloaded_blocks st' = st_downloaded_blocks st" "st_downloaded_bytes st' = st_downloaded_bytes st"
proof -
  let ?i = "rq_index req"
  obtain f1 w1 where f1: "f_get fa ?i (f, cs_world (ps_store a)) = (Inr (Some b), f1, w1)" "block f1 = block f" "fkey f1 = fkey f"
    using get_block [OF laws b] by blast
  obtain a1 where a1: "with_own_feed (f_get fa ?i) a = (Inr (Some b), a1)" "at_peer a1 f1 st" "ps_sent a1 = ps_sent a"
    using a f1(1) by (rule own_feed_step)
  have "block f1 ?i = Some b" using b f1(2) by simp
  from prove_block [OF laws this] obtain pf f2 w2 where f2: "f_proof fa ?i False (f1, cs_world (ps_store a1)) = (Inr pf, f2, w2)"
    "block f2 = block f" "fkey f2 = fkey f" "pf_index pf = ?i" "valid (fkey f) ?i b pf"
    unfolding f1(2,3) by blast
  obtain a2 where a2: "with_own_feed (f_proof fa ?i False) a1 = (Inr pf, a2)" "at_peer a2 f2 st" "ps_sent a2 = ps_sent a"
    using a1(2) f2(1) by (rule own_feed_step) (simp add: a1(3))
  let ?m = "DataMsg (data_of_proof px ?i (Some b) pf)"
  obtain a3 where a3: "send_msg px ?m a2 = (Inr (), a3)" "sent_only [?m] a2 a3" using up by (rule send_msg_up)
  obtain st' where st': "Stats_add_uploaded 1 (value_len (Some b)) st = Inr st'"
      "unat (st_uploaded_blocks st') = Suc (unat (st_uploaded_blocks st))"
      "unat (st_uploaded_bytes st') = unat (st_uploaded_bytes st) + length b"
      "st_downloaded_blocks st' = st_downloaded_blocks st" "st_downloaded_bytes st' = st_downloaded_bytes st"
    using room by (rule Stats_add_uploaded_run)
  have "at_peer a3 f2 st" using a2(2) at_peer_sent [OF a3(2)] by simp
  then obtain a4 where a4: "with_stats (Stats_add_uploaded 1 (value_len (Some b))) a3 = (Inr (), a4)" "at_peer a4 f2 st'"
      "ps_sent a4 = ps_sent a3"
    using st'(1) by (rule with_stats_step)
  show ?thesis
  proof (rule that)
    show "Peer_on_request fa px req a = (Inr (), a4)"
      by (simp add: Peer_on_request_def Let_def rust_bind_apply a1(1) a2(1) a3(1) a4(1))
    show "ps_sent a4 = ps_sent a @ [?m]" using a3(2) by (simp add: a4(3) a2(3) sent_only_def)
    show "carries px valid (fkey f) ?i b ?m" using f2(4,5) by (auto simp: carries_def)
  qed (fact a4(2) f2(2,3) st'(2-5))+
qed

text \<open>The number of bytes in some blocks.\<close>

abbreviation block_bytes :: "(u64 \<Rightarrow> bytes option) \<Rightarrow> u64 list \<Rightarrow> nat" where
  "block_bytes blk is \<equiv> sum_list (map (\<lambda>i. length (the (blk i))) is)"

lemma serve_all:
  assumes laws: "feed_proofs fa block fkey valid" and up: "channel_up px"
  shows "at_peer a f st \<Longrightarrow> \<forall>i \<in> set is. block f i \<noteq> None \<Longrightarrow> unat (st_uploaded_blocks st) + length is < 2 ^ 64 \<Longrightarrow>
    unat (st_uploaded_bytes st) + block_bytes (block f) is < 2 ^ 64 \<Longrightarrow>
    \<exists>ms a' f' st'. rust_for (Peer_handle fa px) (map (MessageEv \<circ> request_for) is) a = (Inr (), a') \<and> at_peer a' f' st' \<and>
      block f' = block f \<and> ps_sent a' = ps_sent a @ ms \<and> list_all2 (\<lambda>i. carries px valid (fkey f) i (the (block f i))) is ms \<and>
      unat (st_uploaded_blocks st') = unat (st_uploaded_blocks st) + length is \<and>
      unat (st_uploaded_bytes st') = unat (st_uploaded_bytes st) + block_bytes (block f) is \<and>
      fkey f' = fkey f \<and> st_downloaded_blocks st' = st_downloaded_blocks st \<and> st_downloaded_bytes st' = st_downloaded_bytes st"
proof (induction "is" arbitrary: a f st)
  case Nil
  then show ?case by (auto simp: rust_return_apply)
next
  case (Cons i "is")
  let ?req = "\<lparr>rq_index = i, rq_bytes = None, rq_hash = None, rq_nodes = None\<rparr>"
  obtain b where b: "block f i = Some b" using Cons.prems(2) by auto
  obtain m a1 f1 st1 where s: "Peer_on_request fa px ?req a = (Inr (), a1)" "at_peer a1 f1 st1" "block f1 = block f"
      "fkey f1 = fkey f" "ps_sent a1 = ps_sent a @ [m]" "carries px valid (fkey f) i b m"
      "unat (st_uploaded_blocks st1) = Suc (unat (st_uploaded_blocks st))"
      "unat (st_uploaded_bytes st1) = unat (st_uploaded_bytes st) + length b"
      "st_downloaded_blocks st1 = st_downloaded_blocks st" "st_downloaded_bytes st1 = st_downloaded_bytes st"
  proof (rule on_request_run [OF laws up Cons.prems(1), of ?req b])
    show "block f (rq_index ?req) = Some b" "unat (st_uploaded_blocks st) + 1 < 2 ^ 64" "unat (st_uploaded_bytes st) + length b < 2 ^ 64"
      using b Cons.prems(3,4) by simp_all
  qed auto
  have "\<exists>ms a' f' st'. rust_for (Peer_handle fa px) (map (MessageEv \<circ> request_for) is) a1 = (Inr (), a') \<and> at_peer a' f' st' \<and>
      block f' = block f1 \<and> ps_sent a' = ps_sent a1 @ ms \<and> list_all2 (\<lambda>i. carries px valid (fkey f1) i (the (block f1 i))) is ms \<and>
      unat (st_uploaded_blocks st') = unat (st_uploaded_blocks st1) + length is \<and>
      unat (st_uploaded_bytes st') = unat (st_uploaded_bytes st1) + block_bytes (block f1) is \<and>
      fkey f' = fkey f1 \<and> st_downloaded_blocks st' = st_downloaded_blocks st1 \<and> st_downloaded_bytes st' = st_downloaded_bytes st1"
    using Cons.prems b by (intro Cons.IH s(2)) (simp_all add: s(3,7,8))
  then obtain ms a' f' st' where "rust_for (Peer_handle fa px) (map (MessageEv \<circ> request_for) is) a1 = (Inr (), a')" "at_peer a' f' st'"
      "block f' = block f" "ps_sent a' = ps_sent a @ m # ms" "list_all2 (\<lambda>i. carries px valid (fkey f) i (the (block f i))) (i # is) (m # ms)"
      "unat (st_uploaded_blocks st') = unat (st_uploaded_blocks st) + length (i # is)"
      "unat (st_uploaded_bytes st') = unat (st_uploaded_bytes st) + block_bytes (block f) (i # is)"
      "fkey f' = fkey f" "st_downloaded_blocks st' = st_downloaded_blocks st" "st_downloaded_bytes st' = st_downloaded_bytes st"
    using b by (auto simp: s)
  moreover from this(1) have "rust_for (Peer_handle fa px) (map (MessageEv \<circ> request_for) (i # is)) a = (Inr (), a')"
    by (simp add: rust_bind_apply Peer_handle_def request_for_def s(1))
  ultimately show ?case by blast
qed

subsection \<open>Storing\<close>

lemma on_data_run:
  assumes laws: "feed_proofs fa block fkey valid" "codec_laws px" and up: "channel_up px" and s: "at_peer s f st"
    and m: "carries px valid (fkey f) i b m"
    and room: "unat (st_downloaded_blocks st) + 1 < 2 ^ 64" "unat (st_downloaded_bytes st) + length b < 2 ^ 64"
  obtains s' f' st' where "Peer_handle fa px (MessageEv m) s = (Inr (), s')" "at_peer s' f' st'"
    "block f' = (block f)(i \<mapsto> b)" "fkey f' = fkey f"
    "unat (st_downloaded_blocks st') = Suc (unat (st_downloaded_blocks st))"
    "unat (st_downloaded_bytes st') = unat (st_downloaded_bytes st) + length b"
    "ps_peer s' = ps_peer s" "\<not> pr_remote_ack (ps_peer s) \<longrightarrow> ps_sent s' = ps_sent s"
proof -
  obtain pf where pf: "m = DataMsg (data_of_proof px i (Some b) pf)" "pf_index pf = i" "valid (fkey f) i b pf"
    using m by (auto simp: carries_def)
  let ?d = "data_of_proof px i (Some b) pf"
  have d: "d_index ?d = i" "d_value ?d = Some b" by (simp_all add: data_of_proof_def)
  obtain f1 w1 where f1: "f_put fa i (Some b) pf (f, cs_world (ps_store s)) = (Inr (), f1, w1)" "block f1 = (block f)(i \<mapsto> b)" "fkey f1 = fkey f"
    using put_block [OF laws(1) pf(3)] by blast
  obtain s1 where s1: "with_own_feed (f_put fa i (Some b) pf) s = (Inr (), s1)" "at_peer s1 f1 st" "ps_sent s1 = ps_sent s" "ps_peer s1 = ps_peer s"
    using s f1(1) by (rule own_feed_step)
  obtain st' where st': "Stats_add_downloaded 1 (value_len (Some b)) st = Inr st'"
      "unat (st_downloaded_blocks st') = Suc (unat (st_downloaded_blocks st))"
      "unat (st_downloaded_bytes st') = unat (st_downloaded_bytes st) + length b"
    using room by (rule Stats_add_downloaded_run)
  obtain s2 where s2: "with_stats (Stats_add_downloaded 1 (value_len (Some b))) s1 = (Inr (), s2)" "at_peer s2 f1 st'" "ps_sent s2 = ps_sent s1" "ps_peer s2 = ps_peer s1"
    using s1(2) st'(1) by (rule with_stats_step)
  let ?ack = "HaveMsg \<lparr>h_start = i, h_length = Some 1, h_bitfield = None, h_ack = Some True\<rparr>"
  obtain s3 where s3: "send_msg px ?ack s2 = (Inr (), s3)" "sent_only [?ack] s2 s3" using up by (rule send_msg_up)
  let ?s' = "if pr_remote_ack (ps_peer s2) then s3 else s2"
  show ?thesis
  proof (rule that)
    show "Peer_handle fa px (MessageEv m) s = (Inr (), ?s')"
      by (simp add: pf(1) Peer_handle_def Peer_on_data_def rust_bind_apply rust_lift_apply rust_get_apply rust_return_apply
          proof_round_trip [OF laws(2) pf(2)] d s1(1) s2(1) s3(1))
    show "at_peer ?s' f1 st'" using s2(2) at_peer_sent [OF s3(2)] by simp
    show "ps_peer ?s' = ps_peer s" "\<not> pr_remote_ack (ps_peer s) \<longrightarrow> ps_sent ?s' = ps_sent s"
      using s3(2) s1(3,4) s2(3,4) by (simp_all add: sent_only_def)
  qed (fact f1(2,3) st'(2,3))+
qed

lemma store_all:
  assumes laws: "feed_proofs fa block fkey valid" "codec_laws px" and up: "channel_up px"
  shows "list_all2 (\<lambda>i. carries px valid (fkey f) i (the (blk i))) is ms \<Longrightarrow> at_peer s f st \<Longrightarrow>
    unat (st_downloaded_blocks st) + length is < 2 ^ 64 \<Longrightarrow> unat (st_downloaded_bytes st) + block_bytes blk is < 2 ^ 64 \<Longrightarrow>
    \<exists>s' f' st'. rust_for (Peer_handle fa px) (map MessageEv ms) s = (Inr (), s') \<and> at_peer s' f' st' \<and>
      (\<forall>i. block f' i = (if i \<in> set is then Some (the (blk i)) else block f i)) \<and>
      unat (st_downloaded_blocks st') = unat (st_downloaded_blocks st) + length is \<and>
      unat (st_downloaded_bytes st') = unat (st_downloaded_bytes st) + block_bytes blk is \<and>
      ps_peer s' = ps_peer s \<and> (\<not> pr_remote_ack (ps_peer s) \<longrightarrow> ps_sent s' = ps_sent s) \<and> fkey f' = fkey f"
proof (induction "is" arbitrary: ms s f st)
  case Nil
  then show ?case by (auto simp: rust_return_apply)
next
  case (Cons i "is")
  then obtain m ms' where ms: "ms = m # ms'" "carries px valid (fkey f) i (the (blk i)) m"
      "list_all2 (\<lambda>i. carries px valid (fkey f) i (the (blk i))) is ms'"
    by (auto simp: list_all2_Cons1)
  obtain s1 f1 st1 where s1: "Peer_handle fa px (MessageEv m) s = (Inr (), s1)" "at_peer s1 f1 st1"
      "block f1 = (block f)(i \<mapsto> the (blk i))" "fkey f1 = fkey f"
      "unat (st_downloaded_blocks st1) = Suc (unat (st_downloaded_blocks st))"
      "unat (st_downloaded_bytes st1) = unat (st_downloaded_bytes st) + length (the (blk i))"
      "ps_peer s1 = ps_peer s" "\<not> pr_remote_ack (ps_peer s) \<longrightarrow> ps_sent s1 = ps_sent s"
  proof (rule on_data_run [OF laws up Cons.prems(2) ms(2)])
    show "unat (st_downloaded_blocks st) + 1 < 2 ^ 64" "unat (st_downloaded_bytes st) + length (the (blk i)) < 2 ^ 64"
      using Cons.prems(3,4) by simp_all
  qed
  have "\<exists>s' f' st'. rust_for (Peer_handle fa px) (map MessageEv ms') s1 = (Inr (), s') \<and> at_peer s' f' st' \<and>
      (\<forall>i. block f' i = (if i \<in> set is then Some (the (blk i)) else block f1 i)) \<and>
      unat (st_downloaded_blocks st') = unat (st_downloaded_blocks st1) + length is \<and>
      unat (st_downloaded_bytes st') = unat (st_downloaded_bytes st1) + block_bytes blk is \<and>
      ps_peer s' = ps_peer s1 \<and> (\<not> pr_remote_ack (ps_peer s1) \<longrightarrow> ps_sent s' = ps_sent s1) \<and> fkey f' = fkey f1"
    using Cons.prems ms(3) by (intro Cons.IH s1(2)) (simp_all add: s1(4-6))
  then obtain s' f' st' where x: "rust_for (Peer_handle fa px) (map MessageEv ms') s1 = (Inr (), s')" "at_peer s' f' st'"
      "\<forall>i. block f' i = (if i \<in> set is then Some (the (blk i)) else block f1 i)"
      "unat (st_downloaded_blocks st') = unat (st_downloaded_blocks st1) + length is"
      "unat (st_downloaded_bytes st') = unat (st_downloaded_bytes st1) + block_bytes blk is"
      "ps_peer s' = ps_peer s1" "\<not> pr_remote_ack (ps_peer s1) \<longrightarrow> ps_sent s' = ps_sent s1"
      "fkey f' = fkey f1"
    by (elim exE conjE)
  have "rust_for (Peer_handle fa px) (map MessageEv ms) s = (Inr (), s')" using x(1) by (simp add: ms(1) rust_bind_apply s1(1))
  moreover have "\<forall>j. block f' j = (if j \<in> set (i # is) then Some (the (blk j)) else block f j)" using x(3) by (auto simp: s1(3))
  moreover have "\<not> pr_remote_ack (ps_peer s) \<longrightarrow> ps_sent s' = ps_sent s" using x(7) s1(8) by (simp add: s1(7))
  ultimately show ?case
    using x(2,4-6,8) by (intro exI [of _ s'] exI [of _ f'] exI [of _ st'] conjI) (simp_all add: s1(4-7))
qed

text \<open>
  The whole way of some blocks: the peer \<open>a\<close> answers the requests for \<open>is\<close>, and the peer \<open>s\<close> stores the
  answers.
\<close>

lemma exchange_run:
  assumes laws: "feed_proofs fa block fkey valid" "codec_laws px" and up: "channel_up px"
    and a: "at_peer a fA stA" and s: "at_peer s f st" and key: "fkey f = fkey fA"
    and have_is: "\<forall>i \<in> set is. block fA i \<noteq> None"
    and "unat (st_uploaded_blocks stA) + length is < 2 ^ 64" "unat (st_uploaded_bytes stA) + block_bytes (block fA) is < 2 ^ 64"
    and "unat (st_downloaded_blocks st) + length is < 2 ^ 64" "unat (st_downloaded_bytes st) + block_bytes (block fA) is < 2 ^ 64"
  obtains ms a' s' fA' f' stA' st' where
    "rust_for (Peer_handle fa px) (map (MessageEv \<circ> request_for) is) a = (Inr (), a')" "ps_sent a' = ps_sent a @ ms"
    "rust_for (Peer_handle fa px) (map MessageEv ms) s = (Inr (), s')" "at_peer a' fA' stA'" "at_peer s' f' st'"
    "block fA' = block fA" "\<forall>i. block f' i = (if i \<in> set is then block fA i else block f i)"
    "unat (st_uploaded_bytes stA') = unat (st_uploaded_bytes stA) + block_bytes (block fA) is"
    "unat (st_downloaded_bytes st') = unat (st_downloaded_bytes st) + block_bytes (block fA) is"
proof -
  obtain ms a' fA' stA' where a': "rust_for (Peer_handle fa px) (map (MessageEv \<circ> request_for) is) a = (Inr (), a')" "at_peer a' fA' stA'"
      "block fA' = block fA" "ps_sent a' = ps_sent a @ ms" "list_all2 (\<lambda>i. carries px valid (fkey fA) i (the (block fA i))) is ms"
      "unat (st_uploaded_bytes stA') = unat (st_uploaded_bytes stA) + block_bytes (block fA) is"
    using serve_all [OF laws(1) up a have_is] assms(8,9) by blast
  obtain s' f' st' where s': "rust_for (Peer_handle fa px) (map MessageEv ms) s = (Inr (), s')" "at_peer s' f' st'"
      "\<forall>i. block f' i = (if i \<in> set is then Some (the (block fA i)) else block f i)"
      "unat (st_downloaded_bytes st') = unat (st_downloaded_bytes st) + block_bytes (block fA) is"
    using store_all [OF laws up _ s, of "block fA" "is" ms] a'(5) assms(10,11) unfolding key by blast
  have "\<forall>i. block f' i = (if i \<in> set is then block fA i else block f i)"
    using s'(3) have_is by auto
  with a' s' show ?thesis by (intro that)
qed

end
