(* ===== verification/Peer_Sync.thy ===== *)
theory Peer_Sync
  imports Peer_Exchange
begin

section \<open>Synchronising two peers\<close>

text \<open>
  The handlers of two peers composed: one \<open>Have\<close> with the requests and data that follow it, and what a \<open>Want\<close>
  makes the other peer announce.
\<close>

subsection \<open>Room in the counters\<close>

definition feed_count :: "(u64 \<Rightarrow> bytes option) \<Rightarrow> nat" where
  "feed_count blk = card {i. blk i \<noteq> None}"

definition feed_bytes :: "(u64 \<Rightarrow> bytes option) \<Rightarrow> nat" where
  "feed_bytes blk = (\<Sum>i | blk i \<noteq> None. length (the (blk i)))"

text \<open>The counters of a peer can take two copies of a log without an overflow.\<close>

definition stats_room :: "(u64 \<Rightarrow> bytes option) \<Rightarrow> stats \<Rightarrow> bool" where
  "stats_room blk st \<longleftrightarrow>
     unat (st_uploaded_blocks st) + 2 * feed_count blk < 2 ^ 64 \<and> unat (st_uploaded_bytes st) + 2 * feed_bytes blk < 2 ^ 64 \<and>
     unat (st_downloaded_blocks st) + 2 * feed_count blk < 2 ^ 64 \<and> unat (st_downloaded_bytes st) + 2 * feed_bytes blk < 2 ^ 64"

lemma distinct_blocks:
  assumes "distinct is" and "\<forall>i \<in> set is. blk i \<noteq> None"
  shows "length is \<le> feed_count blk" and "block_bytes blk is \<le> feed_bytes blk"
proof -
  have sub: "set is \<subseteq> {i. blk i \<noteq> None}" using assms(2) by auto
  then show "length is \<le> feed_count blk"
    unfolding feed_count_def using distinct_card [OF assms(1)] card_mono [OF finite sub] by simp
  have "block_bytes blk is = (\<Sum>i \<in> set is. length (the (blk i)))"
    by (rule sum_list_distinct_conv_sum_set) (rule assms(1))
  also have "\<dots> \<le> feed_bytes blk"
    unfolding feed_bytes_def by (rule sum_mono2 [OF finite sub]) simp
  finally show "block_bytes blk is \<le> feed_bytes blk" .
qed

lemma stats_room_two:
  assumes "stats_room blk st" and "distinct is" and "distinct js"
    and "\<forall>i \<in> set is. blk i \<noteq> None" and "\<forall>i \<in> set js. blk i \<noteq> None"
  shows "unat (st_uploaded_blocks st) + length (is @ js) < 2 ^ 64" "unat (st_uploaded_bytes st) + block_bytes blk (is @ js) < 2 ^ 64"
    "unat (st_downloaded_blocks st) + length (is @ js) < 2 ^ 64" "unat (st_downloaded_bytes st) + block_bytes blk (is @ js) < 2 ^ 64"
  using assms(1) distinct_blocks [OF assms(2,4)] distinct_blocks [OF assms(3,5)] by (auto simp: stats_room_def)

subsection \<open>A concrete pair of peers\<close>

definition sample_valid :: "bytes \<Rightarrow> u64 \<Rightarrow> bytes \<Rightarrow> (u64 \<times> bytes \<times> u64, bytes) proof_msg \<Rightarrow> bool" where
  "sample_valid k i b pf \<longleftrightarrow> pf_signature pf = Some []"

lemma sample_feed_proofs: "feed_proofs sample_api sample_block sf_key sample_valid"
  by (auto simp: feed_proofs_def sample_api_def sample_valid_def sample_put_block)

lemma small_codec_laws: "codec_laws small_proto"
  by (simp add: codec_laws_def small_proto_def sample_proto_def)

abbreviation two_blocks :: sample_feed where
  "two_blocks \<equiv> \<lparr>sf_key = [9], sf_secret = None, sf_blocks = [Some [7], Some [8, 9]]\<rparr>"

abbreviation no_blocks :: sample_feed where
  "no_blocks \<equiv> \<lparr>sf_key = [9], sf_secret = None, sf_blocks = []\<rparr>"

lemma two_blocks_at: "sample_block two_blocks i = (if i = 0 then Some [7] else if i = 1 then Some [8, 9] else None)"
proof -
  have "unat i < 2 \<longleftrightarrow> unat i = unat (0 :: u64) \<or> unat i = unat (1 :: u64)" by auto
  then show ?thesis by (auto simp: sample_block_def word_unat_eq_iff)
qed

lemma two_blocks_room: "stats_room (sample_block two_blocks) Stats_default"
proof -
  have "{i. sample_block two_blocks i \<noteq> None} = {0, 1}" by (auto simp: two_blocks_at)
  then show ?thesis
    by (simp add: stats_room_def feed_count_def feed_bytes_def Stats_default_def two_blocks_at)
qed

lemma sample_at_peer: "at_peer (sample_peer bs) \<lparr>sf_key = [9], sf_secret = None, sf_blocks = bs\<rparr> Stats_default"
  by (simp add: at_peer_def sample_peer_def Peer_new_def deref_def)

subsection \<open>One announcement\<close>

text \<open>
  When a peer announces blocks it has, the other peer's requests, the answers to them and the storing
  of the answers all succeed; afterwards the other peer has every announced block with the announcing
  peer's contents, its other blocks are unchanged, and the bytes counted as uploaded on one side are
  those counted as downloaded on the other.
\<close>

theorem have_exchange_copies:
  assumes laws: "feed_proofs fa block fkey valid" "codec_laws px" and up: "channel_up px"
    and ann: "bits_small px" "announced px h = Inr idxs"
    and a: "at_peer a fA stA" and s: "at_peer s f st" and key: "fkey f = fkey fA"
    and true: "\<forall>i. announces px h i \<longrightarrow> block fA i \<noteq> None"
    and room: "stats_room (block fA) stA" "stats_room (block fA) st"
  shows "\<exists>reqs ms s1 a' s' fA' stA' f' st'. Peer_handle fa px (MessageEv (HaveMsg h)) s = (Inr (), s1) \<and> ps_sent s1 = ps_sent s @ reqs \<and>
    rust_for (Peer_handle fa px) (map MessageEv reqs) a = (Inr (), a') \<and> ps_sent a' = ps_sent a @ ms \<and>
    rust_for (Peer_handle fa px) (map MessageEv ms) s1 = (Inr (), s') \<and> at_peer a' fA' stA' \<and> at_peer s' f' st' \<and>
    block fA' = block fA \<and> (\<forall>i. block f' i = (if announces px h i \<and> block f i = None then block fA i else block f i)) \<and>
    unat (st_uploaded_bytes stA') - unat (st_uploaded_bytes stA) = unat (st_downloaded_bytes st') - unat (st_downloaded_bytes st)"
proof -
  let ?is = "filter (\<lambda>i. \<not> f_has fa f i) idxs"
  have f: "deref (ps_heap s) (own_feed s) = Some f" using s by (simp add: at_peer_def)
  obtain s1 where s1: "Peer_on_have fa px h s = (Inr (), s1)" "sent_only (map request_for ?is) s s1"
    using up ann(2) f by (rule on_have_run)
  have wanted: "distinct ?is" "set ?is = {i. announces px h i \<and> block f i = None}"
    using announced_ok [OF ann] by (auto simp: has_block [OF laws(1)])
  then have known: "\<forall>i \<in> set ?is. block fA i \<noteq> None" using true by auto
  have at1: "at_peer s1 f st" using s at_peer_sent [OF s1(2)] by simp
  note room' = stats_room_two [OF room(1) wanted(1) _ known, of "[]", simplified] stats_room_two [OF room(2) wanted(1) _ known, of "[]", simplified]
  obtain ms a' s' fA' f' stA' st' where
    served: "rust_for (Peer_handle fa px) (map (MessageEv \<circ> request_for) ?is) a = (Inr (), a')" "ps_sent a' = ps_sent a @ ms" and
    "rust_for (Peer_handle fa px) (map MessageEv ms) s1 = (Inr (), s')" "at_peer a' fA' stA'" "at_peer s' f' st'"
    "block fA' = block fA" and new: "\<forall>i. block f' i = (if i \<in> set ?is then block fA i else block f i)"
    "unat (st_uploaded_bytes stA') = unat (st_uploaded_bytes stA) + block_bytes (block fA) ?is"
    "unat (st_downloaded_bytes st') = unat (st_downloaded_bytes st) + block_bytes (block fA) ?is"
    by (rule exchange_run [OF laws up a at1 key known]) (use room' in simp_all)
  moreover have "\<forall>i. block f' i = (if announces px h i \<and> block f i = None then block fA i else block f i)"
    using new(1) unfolding wanted(2) by simp
  moreover have "ps_sent s1 = ps_sent s @ map request_for ?is" using s1(2) by (simp add: sent_only_def)
  moreover have "Peer_handle fa px (MessageEv (HaveMsg h)) s = (Inr (), s1)" using s1(1) by (simp add: Peer_handle_def)
  moreover have "rust_for (Peer_handle fa px) (map MessageEv (map request_for ?is)) a = (Inr (), a')" using served(1) by simp
  ultimately show ?thesis by (intro exI conjI) (assumption | fact served(2) | simp)+
qed


theorem have_exchange_copies_witness:
  "\<exists>h reqs ms s1 a' s' f' st'. Peer_handle sample_api small_proto (MessageEv (HaveMsg h)) (sample_peer []) = (Inr (), s1) \<and> ps_sent s1 = reqs \<and>
     rust_for (Peer_handle sample_api small_proto) (map MessageEv reqs) (sample_peer [Some [7], Some [8, 9]]) = (Inr (), a') \<and>
     ps_sent a' = ms \<and> rust_for (Peer_handle sample_api small_proto) (map MessageEv ms) s1 = (Inr (), s') \<and> at_peer s' f' st' \<and>
     sample_block f' 0 = Some [7] \<and> sample_block f' 1 = Some [8, 9]"
proof -
  let ?h = "\<lparr>h_start = 0, h_length = Some 2, h_bitfield = None, h_ack = None\<rparr> :: have_msg"
  have ann: "announced small_proto ?h = Inr (u64_range 0 2)" by (simp add: announced_def u64_add_def)
  have range: "announces small_proto ?h i \<longleftrightarrow> i = 0 \<or> i = 1" for i
  proof -
    have "unat i < 2 \<longleftrightarrow> unat i = unat (0 :: u64) \<or> unat i = unat (1 :: u64)" by auto
    then show ?thesis by (auto simp: announces_def word_unat_eq_iff)
  qed
  have none: "sample_block no_blocks i = None" for i by (simp add: sample_block_def)
  have sent: "ps_sent (sample_peer bs) = []" for bs by (simp add: sample_peer_def)
  have key: "sf_key no_blocks = sf_key two_blocks" by simp
  have true: "\<forall>i. announces small_proto ?h i \<longrightarrow> sample_block two_blocks i \<noteq> None" by (simp add: range two_blocks_at)
  show ?thesis
    using have_exchange_copies [OF sample_feed_proofs small_codec_laws small_proto_laws ann sample_at_peer sample_at_peer key true
        two_blocks_room two_blocks_room, unfolded sent append_Nil]
    by (elim exE conjE, intro exI conjI) (assumption | simp add: range none two_blocks_at)+
qed

subsection \<open>The first synchronisation\<close>

text \<open>
  What \<open>compress\<close> of \<open>hypercore\<close>, the run-length code and the sparse bitfield do together: decoding the
  compressed bitfield of the first \<open>n\<close> blocks gives the blocks the feed has there.
\<close>

definition bitfield_law ::
  "('w, 'f, 'nd, 'sig) feed_api \<Rightarrow> ('w, 'nd, 'sig, 'bf, 'sb) proto_ext \<Rightarrow> ('f \<Rightarrow> u64 \<Rightarrow> bytes option) \<Rightarrow> u64 \<Rightarrow> 'f \<Rightarrow> bool" where
  "bitfield_law fa px block n f \<longleftrightarrow>
     (\<exists>rle sb. f_compress fa f 0 n = Inr rle \<and> parse_bitfield px rle = Inr sb \<and>
        (\<forall>i. unat i < length (p_sb_iter px sb) \<and> p_sb_iter px sb ! unat i \<longleftrightarrow> i < n \<and> block f i \<noteq> None))"

text \<open>The blocks of a list of announcements that the feed misses.\<close>

lemma on_haves_run:
  assumes up: "channel_up px"
  shows "list_all2 (\<lambda>h idxs. announced px h = Inr idxs) hs iss \<Longrightarrow> deref (ps_heap s) (own_feed s) = Some f \<Longrightarrow>
    \<exists>s'. rust_for (Peer_handle fa px) (map (MessageEv \<circ> HaveMsg) hs) s = (Inr (), s') \<and>
      sent_only (map request_for (filter (\<lambda>i. \<not> f_has fa f i) (concat iss))) s s'"
proof (induction hs arbitrary: iss s)
  case Nil
  then show ?case by (simp add: rust_return_apply sent_only_Nil)
next
  case (Cons h hs)
  then obtain idxs iss' where iss: "iss = idxs # iss'" "announced px h = Inr idxs" "list_all2 (\<lambda>h idxs. announced px h = Inr idxs) hs iss'"
    by (auto simp: list_all2_Cons1)
  obtain s1 where s1: "Peer_on_have fa px h s = (Inr (), s1)" "sent_only (map request_for (filter (\<lambda>i. \<not> f_has fa f i) idxs)) s s1"
    using up iss(2) Cons.prems(2) by (rule on_have_run)
  have "deref (ps_heap s1) (own_feed s1) = Some f" using Cons.prems(2) sent_only_heap [OF s1(2)] by simp
  from Cons.IH [OF iss(3) this] obtain s2 where s2: "rust_for (Peer_handle fa px) (map (MessageEv \<circ> HaveMsg) hs) s1 = (Inr (), s2)"
      "sent_only (map request_for (filter (\<lambda>i. \<not> f_has fa f i) (concat iss'))) s1 s2" by blast
  have "rust_for (Peer_handle fa px) (map (MessageEv \<circ> HaveMsg) (h # hs)) s = (Inr (), s2)"
    using s1(1) s2(1) by (simp add: rust_bind_apply Peer_handle_def)
  moreover have "sent_only (map request_for (filter (\<lambda>i. \<not> f_has fa f i) (concat iss))) s s2"
    using sent_only_trans [OF s1(2) s2(2)] by (simp add: iss(1))
  ultimately show ?case by blast
qed

text \<open>The announcements a \<open>Want\<close> for the first \<open>n\<close> blocks leads to.\<close>

lemma announced_last:
  assumes "0 < len"
  shows "announced px \<lparr>h_start = len - 1, h_length = None, h_bitfield = None, h_ack = None\<rparr> = Inr [len - 1]"
proof -
  have "unat len = Suc (unat (len - 1))" using assms by (simp add: unat_minus_one word_gt_0 unat_gt_0)
  moreover from this have "u64_add (len - 1) 1 = Inr len" by (simp add: u64_add_eq_Inr)
  ultimately show ?thesis by (simp add: announced_def u64_range_def)
qed

lemma on_want_run:
  assumes up: "channel_up px" and a: "at_peer a f st" and law: "bitfield_law fa px block n f" and small: "bits_small px"
    and head: "0 < f_len fa f \<Longrightarrow> block f (f_len fa f - 1) \<noteq> None"
  obtains hs iss "is" js a' where "Peer_handle fa px (MessageEv (WantMsg \<lparr>w_start = 0, w_length = Some n\<rparr>)) a = (Inr (), a')"
    "ps_sent a' = ps_sent a @ map HaveMsg hs" "at_peer a' f st" "list_all2 (\<lambda>h idxs. announced px h = Inr idxs) hs iss"
    "concat iss = is @ js" "distinct is" "distinct js" "\<forall>i \<in> set is. block f i \<noteq> None" "set js = {i. i < n \<and> block f i \<noteq> None}"
proof -
  obtain rle sb where rle: "f_compress fa f 0 n = Inr rle" "parse_bitfield px rle = Inr sb"
      "\<And>i. unat i < length (p_sb_iter px sb) \<and> p_sb_iter px sb ! unat i \<longleftrightarrow> i < n \<and> block f i \<noteq> None"
    using law by (auto simp: bitfield_law_def)
  let ?h1 = "\<lparr>h_start = f_len fa f - 1, h_length = None, h_bitfield = None, h_ack = None\<rparr>"
  let ?h2 = "\<lparr>h_start = 0, h_length = Some n, h_bitfield = Some rle, h_ack = None\<rparr>"
  let ?first = "\<not> pr_remote_want (ps_peer a) \<and> 0 < f_len fa f"
  let ?hs1 = "if ?first then [?h1] else []"
  let ?a1 = "\<lambda>a. a\<lparr>ps_peer := (ps_peer a)\<lparr>pr_remote_want := True\<rparr>\<rparr>"
  have f: "deref (ps_heap a) (own_feed a) = Some f" using a by (simp add: at_peer_def)
  obtain a1 where a1: "(if ?first then send_msg px (HaveMsg ?h1) else rust_return ()) a = (Inr (), a1)" "sent_only (map HaveMsg ?hs1) a a1"
    using up by (cases ?first) (auto simp: rust_return_apply sent_only_Nil elim: send_msg_up)
  have f1: "deref (ps_heap (?a1 a1)) (own_feed (?a1 a1)) = Some f" using f sent_only_heap [OF a1(2)] by simp
  obtain a2 where a2: "send_msg px (HaveMsg ?h2) (?a1 a1) = (Inr (), a2)" "sent_only [HaveMsg ?h2] (?a1 a1) a2"
    using up by (rule send_msg_up)
  have run: "Peer_handle fa px (MessageEv (WantMsg \<lparr>w_start = 0, w_length = Some n\<rparr>)) a = (Inr (), a2)"
    using a1(1) a2(1) own_feed_look [OF f, of "f_len fa"] own_feed_look [OF f1, of "\<lambda>f. f_compress fa f 0 n"]
    by (simp add: Peer_handle_def Peer_on_want_def rust_bind_apply rust_get_apply rust_modify_apply rust_lift_apply rle(1) Let_def)
  obtain js where js: "announced px ?h2 = Inr js" by (simp add: announced_def rle(2))
  have set_js: "set js = {i. i < n \<and> block f i \<noteq> None}"
    using announced_ok(2) [OF small js] rle(2,3) by (simp add: announces_def)
  let ?is = "if ?first then [f_len fa f - 1] else []" and ?iss = "(if ?first then [[f_len fa f - 1]] else []) @ [js]"
  show ?thesis
  proof (rule that [OF run])
    show "ps_sent a2 = ps_sent a @ map HaveMsg (?hs1 @ [?h2])" using a1(2) a2(2) by (simp add: sent_only_def)
    show "at_peer a2 f st"
      using a at_peer_sent [OF a1(2)] at_peer_sent [OF a2(2)] by (simp add: at_peer_def)
    show "list_all2 (\<lambda>h idxs. announced px h = Inr idxs) (?hs1 @ [?h2]) ?iss"
      using js announced_last [of "f_len fa f" px] by simp
    show "concat ?iss = ?is @ js" by simp
    show "\<forall>i \<in> set ?is. block f i \<noteq> None" using head by simp
  qed (simp_all add: announced_ok(1) [OF small js] set_js)
qed

lemma set_bytes: "fold (\<lambda>(idx, byte). p_sb_set_byte small_proto idx byte) (List.enumerate n buf) sb = sb @ map (\<lambda>byte. byte \<noteq> 0) buf"
  by (induction buf arbitrary: n sb) (simp_all add: small_proto_def sample_proto_def)

lemma sample_bitfield:
  assumes "length (sf_blocks f) < 1024"
  shows "bitfield_law sample_api small_proto sample_block (1024 * 1024) f"
proof -
  let ?bits = "map (\<lambda>b. b \<noteq> None) (sf_blocks f) @ [False]"
  have "f_compress sample_api f 0 (1024 * 1024) = Inr (map (\<lambda>b. if b = None then 0 else 1) (sf_blocks f) @ [0])" by (simp add: sample_api_def)
  moreover have "parse_bitfield small_proto (map (\<lambda>b. if b = None then 0 else 1) (sf_blocks f) @ [0]) = Inr ?bits"
    using set_bytes [of 0] by (simp add: parse_bitfield_def comp_def small_proto_def sample_proto_def)
  moreover have "unat i < length (p_sb_iter small_proto ?bits) \<and> p_sb_iter small_proto ?bits ! unat i \<longleftrightarrow>
      i < 1024 * 1024 \<and> sample_block f i \<noteq> None" for i
    using assms by (auto simp: small_proto_def sample_block_def nth_append word_less_nat_alt)
  ultimately show ?thesis unfolding bitfield_law_def by blast
qed

lemma two_blocks_bitfield: "bitfield_law sample_api small_proto sample_block (1024 * 1024) two_blocks"
  by (rule sample_bitfield) simp

end
