(* ===== verification/Peer_Safety.thy ===== *)
theory Peer_Safety
  imports Peer_Theorems
begin

section \<open>A peer facing arbitrary messages\<close>

text \<open>
  What holds whatever a remote peer sends: blocks are only stored when the feed has checked them, the
  corestore stays sound, and the announcements that make a peer's task panic are known exactly.
\<close>

subsection \<open>Only authentic blocks\<close>

text \<open>
  A call on a feed is checked when it keeps the public key and every block the feed has gained is authentic
  for this key.  Feeds check proofs: all their calls are checked.
\<close>

definition checked_call ::
  "('f \<Rightarrow> u64 \<Rightarrow> bytes option) \<Rightarrow> ('f \<Rightarrow> bytes) \<Rightarrow> (bytes \<Rightarrow> u64 \<Rightarrow> bytes \<Rightarrow> bool) \<Rightarrow> ('f \<times> 'w, 'a) rust \<Rightarrow> bool" where
  "checked_call block fkey authentic m \<longleftrightarrow>
     (\<forall>f w r f' w'. m (f, w) = (r, f', w') \<longrightarrow>
        fkey f' = fkey f \<and> (\<forall>j b. block f' j = Some b \<longrightarrow> block f j = Some b \<or> authentic (fkey f) j b))"

definition feed_checks ::
  "('w, 'f, 'nd, 'sig) feed_api \<Rightarrow> ('f \<Rightarrow> u64 \<Rightarrow> bytes option) \<Rightarrow> ('f \<Rightarrow> bytes) \<Rightarrow> (bytes \<Rightarrow> u64 \<Rightarrow> bytes \<Rightarrow> bool) \<Rightarrow> bool" where
  "feed_checks fa block fkey authentic \<longleftrightarrow>
     checked_call block fkey authentic (f_subscribe fa) \<and> (\<forall>i. checked_call block fkey authentic (f_get fa i)) \<and>
     (\<forall>i d. checked_call block fkey authentic (f_proof fa i d)) \<and> (\<forall>i v pf. checked_call block fkey authentic (f_put fa i v pf))"

definition all_authentic ::
  "('f \<Rightarrow> u64 \<Rightarrow> bytes option) \<Rightarrow> ('f \<Rightarrow> bytes) \<Rightarrow> (bytes \<Rightarrow> u64 \<Rightarrow> bytes \<Rightarrow> bool) \<Rightarrow> 'f store \<Rightarrow> bool" where
  "all_authentic block fkey authentic h \<longleftrightarrow> (\<forall>f \<in> set h. \<forall>j b. block f j = Some b \<longrightarrow> authentic (fkey f) j b)"

lemma all_authentic_call:
  assumes "checked_call block fkey authentic m"
    and "all_authentic block fkey authentic (cs_heap t)" and "with_feed q m t = (r, t')"
  shows "all_authentic block fkey authentic (cs_heap t')"
proof (cases "deref (cs_heap t) q")
  case None
  with assms(2,3) show ?thesis by (simp add: with_feed_def)
next
  case (Some f)
  with assms(3) obtain f' w' where m: "m (f, cs_world t) = (r, f', w')"
    and t': "t' = t\<lparr>cs_heap := (cs_heap t)[q := f'], cs_world := w'\<rparr>"
    by (rule with_feedE)
  have old: "\<forall>f \<in> set (cs_heap t). \<forall>j b. block f j = Some b \<longrightarrow> authentic (fkey f) j b"
    using assms(2) by (simp add: all_authentic_def)
  have "f \<in> set (cs_heap t)" using Some by (auto simp: deref_eq_Some)
  then have "\<forall>j b. block f' j = Some b \<longrightarrow> authentic (fkey f') j b"
    using old assms(1) m unfolding checked_call_def by metis
  moreover have "set ((cs_heap t)[q := f']) \<subseteq> insert f' (set (cs_heap t))" by (rule set_update_subset_insert)
  ultimately show ?thesis
    using old unfolding all_authentic_def t' by auto
qed

interpretation peer_authentic: feed_property
  "\<lambda>t. feed_checks fa block fkey authentic \<longrightarrow> all_authentic block fkey authentic (cs_heap t)" fa
  for block fkey authentic and fa :: "('w, 'f, 'nd, 'sig) feed_api"
  by unfold_locales (simp, (metis feed_checks_def all_authentic_call)+)


text \<open>Feeds that only take the blocks \<open>[i]\<close>.\<close>

definition checked_api :: "(sample_files, sample_feed, u64 \<times> bytes \<times> u64, bytes) feed_api" where
  "checked_api = sample_api\<lparr>f_put := (\<lambda>i v pf s. if v = Some [ucast i] then (Inr (), sample_put (unat i) [ucast i] (fst s), snd s)
     else (Inl (IoError ''bad proof''), s))\<rparr>"


subsection \<open>Announcements that end the task\<close>

text \<open>A \<open>Have\<close> whose bitfield cannot be decoded, or whose range ends beyond \<open>2 ^ 64 - 1\<close>.\<close>

definition malformed :: "('w, 'nd, 'sig, 'bf, 'sb) proto_ext \<Rightarrow> have_msg \<Rightarrow> bool" where
  "malformed px h \<longleftrightarrow>
     (case h_bitfield h of
        Some b \<Rightarrow> (\<exists>e. p_rle_decode px b = Inl e)
      | None \<Rightarrow> 2 ^ 64 \<le> unat (h_start h) + (case h_length h of Some l \<Rightarrow> unat l | None \<Rightarrow> 1))"

lemma announced_malformed: "malformed px h \<Longrightarrow> \<exists>m. announced px h = Inl (Panic m)"
proof (cases "h_bitfield h")
  case None
  assume "malformed px h"
  with None have "\<not> unat (h_start h) + unat (case h_length h of Some l \<Rightarrow> l | None \<Rightarrow> 1) < 2 ^ 64"
    by (auto simp: malformed_def split: option.splits)
  with None show ?thesis by (simp add: announced_def u64_add_def)
next
  case (Some b)
  assume "malformed px h"
  with Some obtain e where "p_rle_decode px b = Inl e" by (auto simp: malformed_def)
  with Some show ?thesis by (cases e) (simp_all add: announced_def parse_bitfield_def)
qed

lemma announced_wellformed: "\<not> malformed px h \<Longrightarrow> \<exists>idxs. announced px h = Inr idxs"
proof (cases "h_bitfield h")
  case None
  assume "\<not> malformed px h"
  with None have "unat (h_start h) + unat (case h_length h of Some l \<Rightarrow> l | None \<Rightarrow> 1) < 2 ^ 64"
    by (auto simp: malformed_def split: option.splits)
  with None show ?thesis by (simp add: announced_def u64_add_def)
next
  case (Some b)
  assume "\<not> malformed px h"
  with Some obtain buf where "p_rle_decode px b = Inr buf" by (cases "p_rle_decode px b") (auto simp: malformed_def)
  with Some show ?thesis by (simp add: announced_def parse_bitfield_def)
qed

text \<open>
  C22. A \<open>Have\<close> whose bitfield cannot be decoded or whose range overflows makes the peer's task panic before
  it has sent anything, so that nothing after it is handled; every other \<open>Have\<close> is handled, as long as the
  channel takes messages.
\<close>

theorem malformed_have_panics:
  assumes "channel_up px" and "deref (ps_heap s) (own_feed s) = Some f"
  shows "if malformed px h
    then \<exists>m. \<forall>evs. rust_for (Peer_handle fa px) (MessageEv (HaveMsg h) # evs) s = (Inl (Panic m), s)
    else \<exists>s'. Peer_handle fa px (MessageEv (HaveMsg h)) s = (Inr (), s')"
proof (cases "malformed px h")
  case True
  then obtain m where "announced px h = Inl (Panic m)" using announced_malformed by blast
  then show ?thesis
    using True by (simp add: rust_bind_apply Peer_handle_def Peer_on_have_def rust_lift_apply)
next
  case False
  then obtain idxs where "announced px h = Inr idxs" using announced_wellformed by blast
  from assms(1) this assms(2) obtain s' where "Peer_on_have fa px h s = (Inr (), s')" by (rule on_have_run)
  with False show ?thesis by (simp add: Peer_handle_def)
qed

theorem malformed_have_panics_witness:
  "\<exists>m. rust_for (Peer_handle sample_api small_proto)
      [MessageEv (HaveMsg \<lparr>h_start = 2, h_length = Some (- 1), h_bitfield = None, h_ack = None\<rparr>), MessageEv OpenMsg] (sample_peer [])
    = (Inl (Panic m), sample_peer [])"
proof -
  let ?h = "\<lparr>h_start = 2, h_length = Some (- 1), h_bitfield = None, h_ack = None\<rparr> :: have_msg"
  have "unat (- 1 :: u64) = 2 ^ 64 - 1" by (simp add: unsigned_minus_1_eq_mask mask_eq_exp_minus_1)
  then have "malformed small_proto ?h" by (simp add: malformed_def)
  with malformed_have_panics [OF small_proto_laws(1) sample_peer_feed, of ?h sample_api "[]"] show ?thesis
    by (simp only: if_True) blast
qed

end
