(* ===== verification/Replicator_Hub.thy ===== *)
theory Replicator_Hub
  imports Peer_Proto
begin

section \<open>The replicator (\<open>replicator/src/lib.rs\<close>, \<open>PeeredFeed\<close> of \<open>replicator/src/peer.rs\<close>)\<close>

text \<open>
  A \<open>Replicator\<close> replicates a set of feeds over a set of connections.  Every connection is a task that
  opens the feeds' channels on its protocol stream and attaches a \<open>Peer\<close> task to a feed whenever the
  remote side has opened the feed's channel too.

  \<open>hub_state\<close> is the replicator with everything its tasks work on: the connections' tasks, the peers'
  tasks, the statistics and the corestore.  The protocol stream is code of \<open>hypercore-protocol\<close>: the
  command that opens a channel is \<open>hx_open\<close> of the record \<open>hub_ext\<close>, with the number of the connection it is
  given on, and the events of the stream are arguments of the handlers.  \<open>hx_alive\<close> tells whether the
  receiver of an event channel is still there.
\<close>

datatype replicator_event = ReplicatorFeed bytes | ReplicatorDiscoveryKey bytes

datatype protocol_event = Handshake bytes | ChannelOpened bytes | ProtocolDiscoveryKey bytes | ProtocolOther

datatype hub_event = ProtocolEv protocol_event | ReplicatorEv replicator_event | ErrorEv fault

record 'w hub_ext =
  hx_open :: "nat \<Rightarrow> bytes \<Rightarrow> ('w, unit) rust"
  hx_alive :: "nat \<Rightarrow> bool"

record peered_feed =
  pd_feed :: ref
  pd_stats :: "ref list"
  pd_tasks :: "nat list"

record 'bf peer_task =
  pt_peer :: "'bf peer"
  pt_sent :: "message list"
  pt_ended :: bool

record connection =
  cn_events :: "nat option"
  cn_remote_public_key :: "bytes option"
  cn_opened :: "bytes list"
  cn_ended :: bool

record ('w, 'f, 'bf) hub_state =
  hb_feeds :: "(bytes, peered_feed) fmap"
  hb_subscribers :: "nat list"
  hb_sent :: "(nat \<times> replicator_event) list"
  hb_tasks :: "connection list"
  hb_peers :: "'bf peer_task list"
  hb_stats :: "stats store"
  hb_store :: "('w, 'f) cs_state"

definition in_corestore :: "(('w, 'f) cs_state, 'a) rust \<Rightarrow> (('w, 'f, 'bf) hub_state, 'a) rust" where
  "in_corestore m = (\<lambda>s. case m (hb_store s) of (r, t) \<Rightarrow> (r, s\<lparr>hb_store := t\<rparr>))"

subsection \<open>Feeds with peers\<close>

definition PeeredFeed_new :: "ref \<Rightarrow> peered_feed" where
  "PeeredFeed_new feed = \<lparr>pd_feed = feed, pd_stats = [], pd_tasks = []\<rparr>"

definition PeeredFeed_add_peer ::
  "('w, 'nd, 'sig, 'bf, 'sb) proto_ext \<Rightarrow> bytes \<Rightarrow> peered_feed \<Rightarrow> (('w, 'f, 'bf) hub_state, peered_feed) rust" where
  "PeeredFeed_add_peer px remote pd =
     rust_bind (rust_get (\<lambda>s. length (hb_stats s))) (\<lambda>stats.
     rust_bind (rust_modify (\<lambda>s. s\<lparr>hb_stats := hb_stats s @ [Stats_default\<lparr>st_id := remote\<rparr>]\<rparr>)) (\<lambda>_.
     let peer = Peer_new px (pd_feed pd) stats in
     rust_bind (rust_get (\<lambda>s. length (hb_peers s))) (\<lambda>task.
     rust_bind (rust_modify (\<lambda>s. s\<lparr>hb_peers := hb_peers s @ [\<lparr>pt_peer = peer, pt_sent = [], pt_ended = False\<rparr>]\<rparr>)) (\<lambda>_.
     rust_return (pd\<lparr>pd_tasks := pd_tasks pd @ [task], pd_stats := pd_stats pd @ [stats]\<rparr>)))))"

text \<open>Whether \<open>join_all\<close> of a feed has nothing left to wait for.\<close>

definition PeeredFeed_joined :: "peered_feed \<Rightarrow> ('w, 'f, 'bf) hub_state \<Rightarrow> bool" where
  "PeeredFeed_joined pd s \<longleftrightarrow> list_all (\<lambda>t. pt_ended (hb_peers s ! t)) (pd_tasks pd)"

definition PeeredFeed_stats :: "peered_feed \<Rightarrow> ('w, 'f, 'bf) hub_state \<Rightarrow> stats list" where
  "PeeredFeed_stats pd s = map (\<lambda>r. hb_stats s ! r) (pd_stats pd)"

subsection \<open>The replicator's own operations\<close>

definition Replicator_new :: "('w, 'f) cs_state \<Rightarrow> ('w, 'f, 'bf) hub_state" where
  "Replicator_new t =
     \<lparr>hb_feeds = fmempty, hb_subscribers = [], hb_sent = [], hb_tasks = [], hb_peers = [], hb_stats = [], hb_store = t\<rparr>"

text \<open>The channels are unbounded; a send to a receiver that is gone is ignored.\<close>

definition Replicator_emit :: "'w hub_ext \<Rightarrow> replicator_event \<Rightarrow> (('w, 'f, 'bf) hub_state, unit) rust" where
  "Replicator_emit hx event =
     rust_modify (\<lambda>s. s\<lparr>hb_sent := hb_sent s @ map (\<lambda>c. (c, event)) (filter (hx_alive hx) (hb_subscribers s))\<rparr>)"

text \<open>As in the corestore, the number of a new channel is the number of channels made before.\<close>

definition Replicator_subscribe :: "(('w, 'f, 'bf) hub_state, nat) rust" where
  "Replicator_subscribe =
     rust_bind (rust_get (\<lambda>s. length (hb_subscribers s))) (\<lambda>c.
     rust_bind (rust_modify (\<lambda>s. s\<lparr>hb_subscribers := hb_subscribers s @ [c]\<rparr>)) (\<lambda>_.
     rust_return c))"

definition Replicator_add_feed ::
  "('w, 'f, 'st, 'h) cs_ext \<Rightarrow> 'w hub_ext \<Rightarrow> ref \<Rightarrow> (('w, 'f, 'bf) hub_state, unit) rust" where
  "Replicator_add_feed ext hx feed =
     rust_bind (in_corestore (peek_feed feed (x_feed_public_key ext))) (\<lambda>key.
     let dkey = x_discovery_key ext key; peered_feed = PeeredFeed_new feed in
     rust_bind (rust_modify (\<lambda>s. s\<lparr>hb_feeds := fmupd dkey peered_feed (hb_feeds s)\<rparr>)) (\<lambda>_.
     Replicator_emit hx (ReplicatorFeed dkey)))"

text \<open>\<open>order\<close> is the order in which the hash map of the feeds is visited.\<close>

definition Replicator_stats :: "bytes list \<Rightarrow> ('w, 'f, 'bf) hub_state \<Rightarrow> (bytes \<times> stats list) list" where
  "Replicator_stats order s =
     List.map_filter (\<lambda>dkey. map_option (\<lambda>pd. (dkey, PeeredFeed_stats pd s)) (fmlookup (hb_feeds s) dkey)) order"

definition Replicator_joined :: "bytes list \<Rightarrow> ('w, 'f, 'bf) hub_state \<Rightarrow> bool" where
  "Replicator_joined order s \<longleftrightarrow> list_all (\<lambda>pd. PeeredFeed_joined pd s) (hm_values order (hb_feeds s))"

subsection \<open>Connections\<close>

text \<open>\<open>run_peer\<close> spawns a task and keeps its handle.\<close>

definition Replicator_run_peer :: "(('w, 'f, 'bf) hub_state, unit) rust" where
  "Replicator_run_peer =
     rust_modify (\<lambda>s. s\<lparr>hb_tasks := hb_tasks s @
       [\<lparr>cn_events = None, cn_remote_public_key = None, cn_opened = [], cn_ended = False\<rparr>]\<rparr>)"

text \<open>The two ways to add a connection differ only in how the protocol stream is built.\<close>

definition Replicator_add_stream :: "(('w, 'f, 'bf) hub_state, unit) rust" where
  "Replicator_add_stream = Replicator_run_peer"

definition Replicator_add_io :: "(('w, 'f, 'bf) hub_state, unit) rust" where
  "Replicator_add_io = Replicator_run_peer"

definition set_connection :: "nat \<Rightarrow> (connection \<Rightarrow> connection) \<Rightarrow> (('w, 'f, 'bf) hub_state, unit) rust" where
  "set_connection c g = rust_modify (\<lambda>s. s\<lparr>hb_tasks := (hb_tasks s)[c := g (hb_tasks s ! c)]\<rparr>)"

text \<open>The beginning of a connection's task.\<close>

definition connection_start :: "nat \<Rightarrow> (('w, 'f, 'bf) hub_state, unit) rust" where
  "connection_start c =
     rust_bind Replicator_subscribe (\<lambda>events. set_connection c (\<lambda>cn. cn\<lparr>cn_events := Some events\<rparr>))"

text \<open>\<open>proto_command.open(key).await.unwrap()\<close>\<close>

definition open_channel :: "'w hub_ext \<Rightarrow> nat \<Rightarrow> bytes \<Rightarrow> (('w, 'f, 'bf) hub_state, unit) rust" where
  "open_channel hx c key =
     rust_bind (rust_unwrap (in_corestore (in_world (hx_open hx c key)))) (\<lambda>_.
     set_connection c (\<lambda>cn. cn\<lparr>cn_opened := cn_opened cn @ [key]\<rparr>))"

definition open_feed_channel ::
  "('w, 'f, 'st, 'h) cs_ext \<Rightarrow> 'w hub_ext \<Rightarrow> nat \<Rightarrow> peered_feed \<Rightarrow> (('w, 'f, 'bf) hub_state, unit) rust" where
  "open_feed_channel ext hx c pd =
     rust_bind (in_corestore (peek_feed (pd_feed pd) (x_feed_public_key ext))) (\<lambda>public_key. open_channel hx c public_key)"

text \<open>The body of a connection's loop.\<close>

definition connection_handle ::
  "('w, 'f, 'st, 'h) cs_ext \<Rightarrow> 'w hub_ext \<Rightarrow> ('w, 'nd, 'sig, 'bf, 'sb) proto_ext \<Rightarrow> bytes list \<Rightarrow> nat \<Rightarrow> hub_event \<Rightarrow>
   (('w, 'f, 'bf) hub_state, unit) rust" where
  "connection_handle ext hx px order c event =
     (case event of
        ProtocolEv (Handshake key) \<Rightarrow>
          rust_bind (set_connection c (\<lambda>cn. cn\<lparr>cn_remote_public_key := Some key\<rparr>)) (\<lambda>_.
          rust_bind (rust_get (\<lambda>s. hm_values order (hb_feeds s))) (\<lambda>feeds.
          rust_for (open_feed_channel ext hx c) feeds))
      | ProtocolEv (ChannelOpened dkey) \<Rightarrow>
          rust_bind (rust_get (\<lambda>s. fmlookup (hb_feeds s) dkey)) (\<lambda>found.
          case found of
            Some peered_feed \<Rightarrow>
              rust_bind (rust_get (\<lambda>s. cn_remote_public_key (hb_tasks s ! c))) (\<lambda>remote.
              case remote of
                None \<Rightarrow> rust_fail (Panic ''called Option::unwrap() on a None value'')
              | Some remote_public_key \<Rightarrow>
                  rust_bind (PeeredFeed_add_peer px remote_public_key peered_feed) (\<lambda>peered_feed.
                  rust_modify (\<lambda>s. s\<lparr>hb_feeds := fmupd dkey peered_feed (hb_feeds s)\<rparr>)))
          | None \<Rightarrow> rust_return ())
      | ProtocolEv (ProtocolDiscoveryKey dkey) \<Rightarrow> Replicator_emit hx (ReplicatorDiscoveryKey dkey)
      | ProtocolEv ProtocolOther \<Rightarrow> rust_return ()
      | ErrorEv err \<Rightarrow> rust_fail err
      | ReplicatorEv (ReplicatorFeed key) \<Rightarrow>
          rust_bind (rust_get (\<lambda>s. cn_remote_public_key (hb_tasks s ! c))) (\<lambda>remote.
          if remote \<noteq> None then open_channel hx c key else rust_return ())
      | ReplicatorEv (ReplicatorDiscoveryKey _) \<Rightarrow> rust_return ())"

text \<open>One event of the task of connection \<open>c\<close>: an error or a panic ends the task.\<close>

definition connection_event ::
  "('w, 'f, 'st, 'h) cs_ext \<Rightarrow> 'w hub_ext \<Rightarrow> ('w, 'nd, 'sig, 'bf, 'sb) proto_ext \<Rightarrow> bytes list \<Rightarrow> nat \<Rightarrow> hub_event \<Rightarrow>
   (('w, 'f, 'bf) hub_state, unit) rust" where
  "connection_event ext hx px order c event = (\<lambda>s.
     case connection_handle ext hx px order c event s of
       (Inl e, s') \<Rightarrow> (Inl e, snd (set_connection c (\<lambda>cn. cn\<lparr>cn_ended := True\<rparr>) s'))
     | (Inr u, s') \<Rightarrow> (Inr u, s'))"

subsection \<open>The peers' tasks\<close>

text \<open>A step of the task of peer \<open>p\<close>, on the state it shares with the others.\<close>

definition in_peer :: "nat \<Rightarrow> (('w, 'f, 'bf) peer_state, 'a) rust \<Rightarrow> (('w, 'f, 'bf) hub_state, 'a) rust" where
  "in_peer p m = (\<lambda>s.
     let t = hb_peers s ! p in
     case m \<lparr>ps_peer = pt_peer t, ps_store = hb_store s, ps_stats = hb_stats s, ps_sent = pt_sent t\<rparr> of
       (r, ps) \<Rightarrow> (r, s\<lparr>hb_store := ps_store ps, hb_stats := ps_stats ps,
         hb_peers := (hb_peers s)[p := \<lparr>pt_peer = ps_peer ps, pt_sent = ps_sent ps, pt_ended = (pt_ended t \<or> isl r)\<rparr>]\<rparr>))"

definition peer_task_start ::
  "('w, 'f, 'nd, 'sig) feed_api \<Rightarrow> ('w, 'nd, 'sig, 'bf, 'sb) proto_ext \<Rightarrow> nat \<Rightarrow> (('w, 'f, 'bf) hub_state, unit) rust" where
  "peer_task_start fa px p = in_peer p (Peer_run fa px [])"

definition peer_task_event ::
  "('w, 'f, 'nd, 'sig) feed_api \<Rightarrow> ('w, 'nd, 'sig, 'bf, 'sb) proto_ext \<Rightarrow> nat \<Rightarrow> peer_event \<Rightarrow> (('w, 'f, 'bf) hub_state, unit) rust" where
  "peer_task_event fa px p event = in_peer p (Peer_handle fa px event)"

text \<open>
  All the steps: calls of the replicator's operations, steps of the connections' tasks and of the peers'
  tasks, in any order, and anything the corestore's other users do to it.
\<close>

inductive hub_step ::
  "('w, 'f, 'st, 'h) cs_ext \<Rightarrow> ('w, 'f, 'nd, 'sig) feed_api \<Rightarrow> 'w hub_ext \<Rightarrow> ('w, 'nd, 'sig, 'bf, 'sb) proto_ext \<Rightarrow>
   ('w, 'f, 'bf) hub_state \<Rightarrow> ('w, 'f, 'bf) hub_state \<Rightarrow> bool"
  for ext fa hx px where
  add_feed: "q < length (cs_heap (hb_store s)) \<Longrightarrow> Replicator_add_feed ext hx q s = (r, s') \<Longrightarrow> hub_step ext fa hx px s s'"
| subscribe: "Replicator_subscribe s = (n, s') \<Longrightarrow> hub_step ext fa hx px s s'"
| connect: "Replicator_add_stream s = (r, s') \<Longrightarrow> hub_step ext fa hx px s s'"
| conn_start: "c < length (hb_tasks s) \<Longrightarrow> cn_events (hb_tasks s ! c) = None \<Longrightarrow> connection_start c s = (r, s') \<Longrightarrow>
    hub_step ext fa hx px s s'"
| conn_event: "c < length (hb_tasks s) \<Longrightarrow> cn_events (hb_tasks s ! c) \<noteq> None \<Longrightarrow> \<not> cn_ended (hb_tasks s ! c) \<Longrightarrow>
    connection_event ext hx px order c ev s = (r, s') \<Longrightarrow> hub_step ext fa hx px s s'"
| peer_start: "p < length (hb_peers s) \<Longrightarrow> peer_task_start fa px p s = (r, s') \<Longrightarrow> hub_step ext fa hx px s s'"
| peer_event: "p < length (hb_peers s) \<Longrightarrow> \<not> pt_ended (hb_peers s ! p) \<Longrightarrow> peer_task_event fa px p pev s = (r, s') \<Longrightarrow>
    hub_step ext fa hx px s s'"
| store: "corestore_step ext (hb_store s) t \<Longrightarrow> hub_step ext fa hx px s (s\<lparr>hb_store := t\<rparr>)"

end
