(* ===== verification/Core_Store_Steps.thy ===== *)
theory Core_Store_Steps
  imports Feed_Api
begin

section \<open>What a step of the corestore does to its memory\<close>

text \<open>
  Every operation of the corestore leaves its memory alone, adds a subscriber, or files one new feed and
  tells its subscribers.  The components that watch a corestore rest on this case distinction.
\<close>

lemma file_feed_told:
  assumes "\<forall>c \<in> set (cs_subs s). x_receiver_alive ext c"
  shows "InnerCorestore_file_feed ext gn f s = (Inr (length (cs_heap s)), filed ext f gn (length (cs_subs s)) s)"
proof -
  have "rust_for (send_event ext e) (cs_subs s) t = (Inr (), t\<lparr>cs_sent := cs_sent t @ map (\<lambda>c. (c, e)) (cs_subs s)\<rparr>)" for e t
    using assms by (simp add: send_events_ok)
  then show ?thesis
    by (simp add: InnerCorestore_file_feed_def rust_bind_apply FeedMap_insert_simp InnerCorestore_emit_def rust_get_apply rust_return_apply filed_def)
qed

lemma open_feed_memory:
  assumes "InnerCorestore_open_feed ext key name s = (r, s')"
  obtains (same) "same_mem s s'"
    | (new) f gn k s1 where "same_mem s s1" "s' = filed ext f gn k s1"
        "\<forall>c \<in> set (cs_subs s). x_receiver_alive ext c \<Longrightarrow> k = length (cs_subs s)"
  using assms
proof (cases rule: open_feed_cases)
  case (opened pk sk gn s0 s1 f st w)
  show ?thesis
  proof (cases "\<forall>c \<in> set (cs_subs s). x_receiver_alive ext c")
    case True
    then have "s' = filed ext f gn (length (cs_subs s)) s1"
      using opened(6) file_feed_told [of s1 ext gn f] same_memD [OF opened(4)] by simp
    with opened(4) show ?thesis by (intro new) auto
  next
    case False
    from opened(6) obtain k where "s' = filed ext f gn k s1"
      by (cases rule: file_feed_cases) auto
    with opened(4) False show ?thesis by (intro new) auto
  qed
qed (auto intro: same)

lemma same_mem_filed_trans: "same_mem s s1 \<Longrightarrow> same_mem s1 s2 \<Longrightarrow> cs_subs s1 = cs_subs s \<and> same_mem s s2"
  by (auto simp: same_memD intro: same_mem_trans)

lemma get_by_dkey_memory:
  assumes "InnerCorestore_get_by_dkey ext dkey s = (r, s')"
  obtains (same) "same_mem s s'"
    | (new) f gn k s1 where "same_mem s s1" "s' = filed ext f gn k s1"
        "\<forall>c \<in> set (cs_subs s). x_receiver_alive ext c \<Longrightarrow> k = length (cs_subs s)"
  using assms
proof (cases rule: get_by_dkey_cases)
  case (on_disk key p s1 s2 r')
  have subs: "cs_subs s2 = cs_subs s" using same_memD [OF on_disk(3)] by simp
  from on_disk(6) have "InnerCorestore_open_feed ext (Some key) None s2 = (r', s')"
    by (simp add: InnerCorestore_get_by_key_def)
  then show ?thesis
    by (cases rule: open_feed_memory) (use on_disk(3) subs in \<open>auto intro: same new same_mem_trans\<close>)
qed (auto intro: same)

lemma corestore_step_memory:
  assumes "corestore_step ext s s'"
  obtains (same) "same_mem s s'"
    | (subscribed) "s' = snd (Corestore_subscribe s)"
    | (new) f gn k s1 where "same_mem s s1" "s' = filed ext f gn k s1" "cs_room s"
        "\<forall>c \<in> set (cs_subs s). x_receiver_alive ext c \<Longrightarrow> k = length (cs_subs s)"
  using assms
proof cases
  case (by_key key r)
  then have "InnerCorestore_open_feed ext (Some key) None s = (r, s')"
    by (simp add: Corestore_get_by_key_def InnerCorestore_get_by_key_def)
  then show ?thesis by (cases rule: open_feed_memory) (use by_key same new in blast)+
next
  case (by_name name r)
  then have "InnerCorestore_open_feed ext None (Some name) s = (r, s')"
    by (simp add: Corestore_get_by_name_def InnerCorestore_get_by_name_def)
  then show ?thesis by (cases rule: open_feed_memory) (use by_name same new in blast)+
next
  case (by_dkey dkey r)
  then have "InnerCorestore_get_by_dkey ext dkey s = (r, s')" by (simp add: Corestore_get_by_dkey_def)
  then show ?thesis by (cases rule: get_by_dkey_memory) (use by_dkey same new in blast)+
next
  case (subscribe c)
  then show ?thesis by (intro subscribed) simp
qed

text \<open>Feeds that are in memory stay there, unchanged.\<close>

lemma corestore_step_heap: "corestore_step ext s s' \<Longrightarrow> \<exists>fs. cs_heap s' = cs_heap s @ fs"
  by (erule corestore_step_memory) (auto simp: same_memD Corestore_subscribe_run)

lemma corestore_step_inv: "feed_build_law ext \<Longrightarrow> corestore_step ext s s' \<Longrightarrow> cs_inv ext s \<Longrightarrow> cs_inv ext s'"
  using corestore.inv_step by blast

end
