(* ===== verification/Replicator_Props.thy ===== *)
theory Replicator_Props
  imports Replicator_Hub Peer_Props Core_Store_Steps
begin

section \<open>The invariant of the replicator\<close>

text \<open>
  Every feed is filed under its own discovery key, every peer works on the feed it was attached to and has
  statistics of its own, and the corestore is intact.  Every step keeps this.
\<close>

subsection \<open>Keys of cells\<close>

definition cell_key :: "('w, 'f, 'st, 'h) cs_ext \<Rightarrow> 'f store \<Rightarrow> ref \<Rightarrow> bytes option" where
  "cell_key ext h q = map_option (x_feed_public_key ext) (deref h q)"

text \<open>Every cell is still there and has the key it had.\<close>

definition keys_le :: "('w, 'f, 'st, 'h) cs_ext \<Rightarrow> 'f store \<Rightarrow> 'f store \<Rightarrow> bool" where
  "keys_le ext h h' \<longleftrightarrow> (\<forall>q k. cell_key ext h q = Some k \<longrightarrow> cell_key ext h' q = Some k)"

lemma keys_le_refl [simp]: "keys_le ext h h"
  by (simp add: keys_le_def)

lemma keys_le_trans: "keys_le ext h h' \<Longrightarrow> keys_le ext h' h'' \<Longrightarrow> keys_le ext h h''"
  by (simp add: keys_le_def)

lemma keys_le_append: "keys_le ext h (h @ fs)"
  by (auto simp: keys_le_def cell_key_def deref_def nth_append)

lemma keys_le_same: "same_keys ext fa h h' \<Longrightarrow> keys_le ext h h'"
  by (auto simp: keys_le_def cell_key_def elim: same_keysD)

lemma keys_le_call: "keeps_keys ext fa m \<Longrightarrow> with_feed q m t = (r, t') \<Longrightarrow> keys_le ext (cs_heap t) (cs_heap t')"
  by (blast dest: with_feed_frame intro: keys_le_same)

text \<open>No message makes a peer change the key of a feed.\<close>

interpretation peer_keys: feed_property "\<lambda>t. feed_keys_kept ext fa \<longrightarrow> keys_le ext h (cs_heap t)" fa
  for h and ext :: "('w, 'f, 'st, 'h) cs_ext" and fa :: "('w, 'f, 'nd, 'sig) feed_api"
  by unfold_locales (simp, (metis feed_keys_kept_def keys_le_call keys_le_trans)+)

subsection \<open>What a peer's task leaves alone\<close>

text \<open>
  Which feed and which statistics a peer works on, how many statistics there are, and \<open>remote_ack\<close>, which
  nothing ever sets.
\<close>

abbreviation peer_view :: "('w, 'f, 'bf) peer_state \<Rightarrow> ref \<times> ref \<times> bool \<times> nat" where
  "peer_view s \<equiv> (pr_feed (ps_peer s), pr_stats (ps_peer s), pr_remote_ack (ps_peer s), length (ps_stats s))"

lemma view_own_feed [frame_intros]: "preserves peer_view (with_own_feed m)"
  by (simp add: preserves_def with_own_feed_def on_feeds_def split: prod.splits)

lemma view_send_msg [frame_intros]: "preserves peer_view (send_msg px m)"
  by (simp add: preserves_def send_msg_run split: prod.splits)

lemma view_with_stats [frame_intros]: "preserves peer_view (with_stats g)"
  by (simp add: preserves_def with_stats_def split: option.splits sum.splits)

lemmas peer_handler_defs = Peer_on_open_def Peer_send_wants_def Peer_send_have_def Peer_on_want_def Peer_on_have_def
  Peer_on_request_def Peer_on_data_def Let_def

lemma view_handle: "preserves peer_view (Peer_handle fa px ev)"
  unfolding Peer_handle_def peer_handler_defs
  by (auto split: peer_event.split message.split feed_event.split intro!: frame_intros preserves_for)

lemma view_run: "preserves peer_view (Peer_run fa px evs)"
  unfolding Peer_run_def Peer_on_open_def Peer_send_wants_def Let_def
  by (intro frame_intros preserves_for view_handle) simp

subsection \<open>The invariant\<close>

abbreviation hb_heap :: "('w, 'f, 'bf) hub_state \<Rightarrow> 'f store" where
  "hb_heap s \<equiv> cs_heap (hb_store s)"

definition peer_ids :: "('w, 'f, 'bf) hub_state \<Rightarrow> (ref \<times> ref) list" where
  "peer_ids s = map (\<lambda>t. (pr_feed (pt_peer t), pr_stats (pt_peer t))) (hb_peers s)"

definition peered_ok ::
  "('w, 'f, 'st, 'h) cs_ext \<Rightarrow> 'f store \<Rightarrow> (ref \<times> ref) list \<Rightarrow> bytes \<Rightarrow> peered_feed \<Rightarrow> bool" where
  "peered_ok ext h ids d pd \<longleftrightarrow>
     (\<exists>k. cell_key ext h (pd_feed pd) = Some k \<and> x_discovery_key ext k = d) \<and>
     list_all2 (\<lambda>t r. t < length ids \<and> ids ! t = (pd_feed pd, r)) (pd_tasks pd) (pd_stats pd)"

definition hub_bus_ok :: "('w, 'f, 'bf) hub_state \<Rightarrow> bool" where
  "hub_bus_ok s \<longleftrightarrow> hb_subscribers s = [0..<length (hb_subscribers s)] \<and> (\<forall>p \<in> set (hb_sent s). fst p < length (hb_subscribers s))"

definition hub_inv :: "('w, 'f, 'st, 'h) cs_ext \<Rightarrow> ('w, 'f, 'bf) hub_state \<Rightarrow> bool" where
  "hub_inv ext s \<longleftrightarrow>
     (\<forall>d pd. fmlookup (hb_feeds s) d = Some pd \<longrightarrow> peered_ok ext (hb_heap s) (peer_ids s) d pd) \<and>
     map snd (peer_ids s) = [0..<length (hb_stats s)] \<and> (\<forall>p \<in> set (peer_ids s). fst p < length (hb_heap s)) \<and>
     hub_bus_ok s \<and> cs_inv ext (hb_store s)"

lemma peered_ok_mono: "peered_ok ext h ids d pd \<Longrightarrow> keys_le ext h h' \<Longrightarrow> peered_ok ext h' (ids @ ids') d pd"
  by (auto simp: peered_ok_def keys_le_def nth_append elim!: list_all2_mono)

lemma keys_le_length:
  assumes "keys_le ext h h'"
  shows "length h \<le> length h'"
proof (rule ccontr)
  assume "\<not> length h \<le> length h'"
  then have "cell_key ext h (length h') \<noteq> None" "cell_key ext h' (length h') = None"
    by (simp_all add: cell_key_def deref_def)
  with assms show False by (auto simp: keys_le_def)
qed

text \<open>The steps that leave the tables alone.\<close>

lemma hub_inv_frame:
  assumes inv: "hub_inv ext s" and store: "cs_inv ext (hb_store s')" and keys: "keys_le ext (hb_heap s) (hb_heap s')"
    and "hb_feeds s' = hb_feeds s" "peer_ids s' = peer_ids s" "length (hb_stats s') = length (hb_stats s)" "hub_bus_ok s'"
  shows "hub_inv ext s'"
proof -
  have "peered_ok ext (hb_heap s') (peer_ids s' @ []) d pd" if "fmlookup (hb_feeds s') d = Some pd" for d pd
    using that inv assms(4,5) by (intro peered_ok_mono [OF _ keys]) (simp add: hub_inv_def)
  moreover have "fst p < length (hb_heap s')" if "p \<in> set (peer_ids s')" for p
    using that inv assms(5) keys_le_length [OF keys] by (fastforce simp: hub_inv_def)
  ultimately show ?thesis
    using inv assms(5-7) store by (simp add: hub_inv_def)
qed

subsection \<open>The replicator's operations\<close>

lemma in_corestore_peek:
  "deref (hb_heap s) q = Some f \<Longrightarrow> in_corestore (peek_feed q g) s = (Inr (g f), s)"
  by (simp add: in_corestore_def)

lemma add_feed_run:
  assumes "deref (hb_heap s) q = Some f"
  shows "Replicator_add_feed ext hx q s =
    (let d = x_discovery_key ext (x_feed_public_key ext f) in
     (Inr (), s\<lparr>hb_feeds := fmupd d (PeeredFeed_new q) (hb_feeds s),
        hb_sent := hb_sent s @ map (\<lambda>c. (c, ReplicatorFeed d)) (filter (hx_alive hx) (hb_subscribers s))\<rparr>))"
  by (simp add: Replicator_add_feed_def rust_bind_apply in_corestore_peek [OF assms] Replicator_emit_def rust_modify_apply Let_def)

lemma Replicator_subscribe_run:
  "Replicator_subscribe s = (Inr (length (hb_subscribers s)), s\<lparr>hb_subscribers := hb_subscribers s @ [length (hb_subscribers s)]\<rparr>)"
  by (simp add: Replicator_subscribe_def rust_simps)

lemma Replicator_emit_run:
  "Replicator_emit hx e s = (Inr (), s\<lparr>hb_sent := hb_sent s @ map (\<lambda>c. (c, e)) (filter (hx_alive hx) (hb_subscribers s))\<rparr>)"
  by (simp add: Replicator_emit_def rust_simps)

lemma hub_bus_ok_emit: "hub_bus_ok s \<Longrightarrow> hub_bus_ok (snd (Replicator_emit hx e s))"
  unfolding hub_bus_ok_def Replicator_emit_run
  by simp (metis (no_types, lifting) Un_iff atLeastLessThan_iff fst_conv imageE mem_Collect_eq set_upt)

lemma hub_bus_ok_subscribe: "hub_bus_ok s \<Longrightarrow> hub_bus_ok (snd (Replicator_subscribe s))"
  by (auto simp: hub_bus_ok_def Replicator_subscribe_run less_SucI)

text \<open>The replicator is an event bus, as the corestore is.\<close>

interpretation replicator_bus: event_bus
  "hb_subscribers :: ('w, 'f, 'bf) hub_state \<Rightarrow> nat list" hb_sent
  "\<lambda>s. (projr (fst (Replicator_subscribe s)), snd (Replicator_subscribe s))"
  "\<lambda>e s. snd (Replicator_emit hx e s)" "hx_alive hx" hub_bus_ok
  for hx :: "'w hub_ext"
proof (unfold_locales, goal_cases)
  case (1 s)
  then show ?case by (metis hub_bus_ok_def distinct_upt)
next
  case (2 s c s')
  then show ?case by (auto simp: Replicator_subscribe_run) (metis atLeastLessThan_iff hub_bus_ok_def less_irrefl set_upt)
next
  case (3 s c s')
  then show ?case by (auto simp: Replicator_subscribe_run received_def hub_bus_ok_def filter_empty_conv)
next
  case (4 s)
  then show ?case by (simp add: hub_bus_ok_subscribe)
next
  case (5 e s)
  then show ?case by (simp add: Replicator_emit_run)
next
  case (6 s e)
  then have "filter (hx_alive hx) (hb_subscribers s) = hb_subscribers s" by (simp add: filter_id_conv)
  then show ?case by (simp add: Replicator_emit_run)
next
  case (7 s e)
  then show ?case by (rule hub_bus_ok_emit)
qed

lemma emit_inv:
  assumes "hub_inv ext s"
  shows "hub_inv ext (snd (Replicator_emit hx e s))"
  by (rule hub_inv_frame [OF assms])
    (use assms hub_bus_ok_emit [of s hx e] in \<open>simp_all add: hub_inv_def Replicator_emit_run peer_ids_def\<close>)

lemma replicator_subscribe_inv:
  assumes "hub_inv ext s"
  shows "hub_inv ext (snd (Replicator_subscribe s))"
  by (rule hub_inv_frame [OF assms])
    (use assms hub_bus_ok_subscribe [of s] in \<open>simp_all add: hub_inv_def Replicator_subscribe_run peer_ids_def\<close>)

text \<open>Filing a feed under its discovery key.\<close>

lemma file_peered_inv:
  assumes "hub_inv ext s" and "peered_ok ext (hb_heap s) (peer_ids s) d pd"
  shows "hub_inv ext (s\<lparr>hb_feeds := fmupd d pd (hb_feeds s)\<rparr>)"
  using assms by (auto simp: hub_inv_def hub_bus_ok_def peer_ids_def)

lemma add_feed_inv:
  assumes inv: "hub_inv ext s" and run: "Replicator_add_feed ext hx q s = (r, s')"
  shows "hub_inv ext s'"
proof (cases "deref (hb_heap s) q")
  case None
  with run have "s' = s" by (auto simp: Replicator_add_feed_def rust_bind_apply in_corestore_def with_feed_def)
  with inv show ?thesis by simp
next
  case (Some f)
  let ?d = "x_discovery_key ext (x_feed_public_key ext f)"
  have "hub_inv ext (s\<lparr>hb_feeds := fmupd ?d (PeeredFeed_new q) (hb_feeds s)\<rparr>)"
    using inv Some by (intro file_peered_inv) (auto simp: peered_ok_def PeeredFeed_new_def cell_key_def)
  from emit_inv [OF this, of hx "ReplicatorFeed ?d"] run show ?thesis
    by (simp add: add_feed_run [OF Some] Replicator_emit_run Let_def)
qed

subsection \<open>Connections\<close>

text \<open>Everything but the connections and the world.\<close>

abbreviation hub_view :: "('w, 'f, 'bf) hub_state \<Rightarrow>
    (bytes, peered_feed) fmap \<times> nat list \<times> (nat \<times> replicator_event) list \<times> 'bf peer_task list \<times> stats store \<times>
    inner_corestore \<times> 'f store \<times> (nat \<times> cs_event) list" where
  "hub_view s \<equiv> (hb_feeds s, hb_subscribers s, hb_sent s, hb_peers s, hb_stats s, cs_inner (hb_store s), hb_heap s, cs_sent (hb_store s))"

lemma hub_inv_view: "hub_view s' = hub_view s \<Longrightarrow> hub_inv ext s \<Longrightarrow> hub_inv ext s'"
proof (rule hub_inv_frame)
  assume view: "hub_view s' = hub_view s" and inv: "hub_inv ext s"
  then have "same_mem (hb_store s) (hb_store s')"
    unfolding same_mem_def by (intro exI [of _ "cs_world (hb_store s')"]) simp
  with inv show "cs_inv ext (hb_store s')" by (simp add: hub_inv_def cs_inv_same_mem)
qed (auto simp: hub_inv_def hub_bus_ok_def peer_ids_def)

lemma view_set_connection [frame_intros]: "preserves hub_view (set_connection c g)"
  by (simp add: preserves_def set_connection_def rust_modify_apply)

lemma view_in_world [frame_intros]: "preserves hub_view (in_corestore (in_world m))"
  by (simp add: preserves_def in_corestore_def in_world_def split: prod.splits)

lemma view_peek [frame_intros]: "preserves hub_view (in_corestore (peek_feed q g))"
  by (auto simp: preserves_def in_corestore_def split: prod.splits dest!: peek_feed_any)

lemma view_open_channel [frame_intros]: "preserves hub_view (open_channel hx c key)"
  unfolding open_channel_def by (intro frame_intros)

lemma view_open_feed_channel [frame_intros]: "preserves hub_view (open_feed_channel ext hx c pd)"
  unfolding open_feed_channel_def by (intro frame_intros)

lemma view_inv: "preserves hub_view m \<Longrightarrow> m s = (r, s') \<Longrightarrow> hub_inv ext s \<Longrightarrow> hub_inv ext s'"
  by (blast intro: hub_inv_view dest: preservesD)

lemma add_peer_run:
  "PeeredFeed_add_peer px remote pd s =
    (Inr (pd\<lparr>pd_tasks := pd_tasks pd @ [length (hb_peers s)], pd_stats := pd_stats pd @ [length (hb_stats s)]\<rparr>),
     s\<lparr>hb_stats := hb_stats s @ [Stats_default\<lparr>st_id := remote\<rparr>],
       hb_peers := hb_peers s @ [\<lparr>pt_peer = Peer_new px (pd_feed pd) (length (hb_stats s)), pt_sent = [], pt_ended = False\<rparr>]\<rparr>)"
  by (simp add: PeeredFeed_add_peer_def rust_simps Let_def)

text \<open>The state after a peer has been attached to the feed with discovery key \<open>d\<close>.\<close>

definition with_peer ::
  "('w, 'nd, 'sig, 'bf, 'sb) proto_ext \<Rightarrow> bytes \<Rightarrow> bytes \<Rightarrow> peered_feed \<Rightarrow> ('w, 'f, 'bf) hub_state \<Rightarrow> ('w, 'f, 'bf) hub_state" where
  "with_peer px remote d pd s =
     s\<lparr>hb_stats := hb_stats s @ [Stats_default\<lparr>st_id := remote\<rparr>],
       hb_peers := hb_peers s @ [\<lparr>pt_peer = Peer_new px (pd_feed pd) (length (hb_stats s)), pt_sent = [], pt_ended = False\<rparr>],
       hb_feeds := fmupd d (pd\<lparr>pd_tasks := pd_tasks pd @ [length (hb_peers s)], pd_stats := pd_stats pd @ [length (hb_stats s)]\<rparr>)
         (hb_feeds s)\<rparr>"

lemma with_peer_ids: "peer_ids (with_peer px remote d pd s) = peer_ids s @ [(pd_feed pd, length (hb_stats s))]"
  by (simp add: peer_ids_def with_peer_def Peer_new_def)

lemma with_peer_inv:
  assumes inv: "hub_inv ext s" and pd: "fmlookup (hb_feeds s) d = Some pd"
  shows "hub_inv ext (with_peer px remote d pd s)"
proof -
  let ?s = "with_peer px remote d pd s"
  have ok: "peered_ok ext (hb_heap s) (peer_ids s) d pd" using inv pd by (simp add: hub_inv_def)
  have len: "length (peer_ids s) = length (hb_peers s)" by (simp add: peer_ids_def)
  have mono: "peered_ok ext (hb_heap s) (peer_ids ?s) e pd'" if "peered_ok ext (hb_heap s) (peer_ids s) e pd'" for e pd'
    using peered_ok_mono [OF that keys_le_refl] by (simp add: with_peer_ids)
  have "peered_ok ext (hb_heap s) (peer_ids ?s) d
      (pd\<lparr>pd_tasks := pd_tasks pd @ [length (hb_peers s)], pd_stats := pd_stats pd @ [length (hb_stats s)]\<rparr>)"
    using mono [OF ok] len by (auto simp: peered_ok_def with_peer_ids nth_append intro!: list_all2_appendI)
  moreover have "peered_ok ext (hb_heap s) (peer_ids ?s) e pd'" if "fmlookup (hb_feeds s) e = Some pd'" for e pd'
    using mono that inv by (simp add: hub_inv_def)
  ultimately have "peered_ok ext (hb_heap ?s) (peer_ids ?s) e pd'" if "fmlookup (hb_feeds ?s) e = Some pd'" for e pd'
    using that by (auto simp: with_peer_def split: if_splits)
  moreover have "pd_feed pd < length (hb_heap s)"
    using ok by (auto simp: peered_ok_def cell_key_def deref_eq_Some)
  ultimately show ?thesis
    using inv unfolding hub_inv_def with_peer_ids by (simp add: with_peer_def hub_bus_ok_def)
qed

text \<open>A handler of a connection attaches a peer, emits an event, or touches only the connection.\<close>

lemma connection_handle_cases:
  assumes "connection_handle ext hx px order c ev s = (r, s')"
  obtains (attached) d pd remote where "ev = ProtocolEv (ChannelOpened d)" "fmlookup (hb_feeds s) d = Some pd"
        "cn_remote_public_key (hb_tasks s ! c) = Some remote" "r = Inr ()" "s' = with_peer px remote d pd s"
    | (announced) d where "ev = ProtocolEv (ProtocolDiscoveryKey d)" "s' = snd (Replicator_emit hx (ReplicatorDiscoveryKey d) s)"
    | (connection) "hub_view s' = hub_view s"
proof (cases ev)
  case (ProtocolEv pev)
  show ?thesis
  proof (cases pev)
    case (Handshake key)
    have "preserves hub_view (connection_handle ext hx px order c ev)"
      unfolding connection_handle_def ProtocolEv Handshake by simp (intro frame_intros preserves_for)
    with assms show ?thesis by (intro connection) (rule preservesD)
  next
    case (ChannelOpened d)
    show ?thesis
    proof (cases "fmlookup (hb_feeds s) d")
      case None
      with assms have "s' = s" by (simp add: connection_handle_def ProtocolEv ChannelOpened rust_simps)
      then show ?thesis by (intro connection) simp
    next
      case (Some pd)
      show ?thesis
      proof (cases "cn_remote_public_key (hb_tasks s ! c)")
        case None
        with assms Some have "s' = s" by (simp add: connection_handle_def ProtocolEv ChannelOpened rust_simps)
        then show ?thesis by (intro connection) simp
      next
        case remote: (Some remote)
        with assms Some show ?thesis
          by (intro attached [of d pd remote])
            (auto simp: connection_handle_def ProtocolEv ChannelOpened rust_bind_apply rust_get_apply add_peer_run
              rust_modify_apply with_peer_def)
      qed
    qed
  next
    case (ProtocolDiscoveryKey d)
    with assms ProtocolEv show ?thesis by (intro announced [of d]) (simp_all add: connection_handle_def)
  next
    case ProtocolOther
    with assms ProtocolEv show ?thesis by (intro connection) (simp add: connection_handle_def rust_return_apply)
  qed
next
  case (ReplicatorEv rev)
  have "preserves hub_view (connection_handle ext hx px order c ev)"
    unfolding connection_handle_def ReplicatorEv by (cases rev) (auto intro!: frame_intros)
  with assms show ?thesis by (intro connection) (rule preservesD)
next
  case (ErrorEv err)
  with assms show ?thesis by (intro connection) (simp add: connection_handle_def rust_fail_apply)
qed

lemma connection_handle_inv:
  assumes "hub_inv ext s" and "connection_handle ext hx px order c ev s = (r, s')"
  shows "hub_inv ext s'"
  using assms(2)
proof (cases rule: connection_handle_cases)
  case attached
  then show ?thesis using with_peer_inv [OF assms(1)] by simp
next
  case announced
  then show ?thesis using emit_inv [OF assms(1)] by simp
next
  case connection
  then show ?thesis using assms(1) by (rule hub_inv_view)
qed

lemma connection_event_inv:
  assumes "hub_inv ext s" and "connection_event ext hx px order c ev s = (r, s')"
  shows "hub_inv ext s'"
proof -
  obtain r1 s1 where s1: "connection_handle ext hx px order c ev s = (r1, s1)" by fastforce
  have "hub_inv ext s1" using assms(1) s1 by (rule connection_handle_inv)
  moreover have "s' = s1 \<or> s' = snd (set_connection c (\<lambda>cn. cn\<lparr>cn_ended := True\<rparr>) s1)"
    using assms(2) s1 by (auto simp: connection_event_def split: sum.splits)
  ultimately show ?thesis
    using view_inv [OF view_set_connection prod.collapse [symmetric]] by blast
qed

subsection \<open>Every step keeps the invariant\<close>

lemma in_peer_inv:
  assumes inv: "hub_inv ext s" and p: "p < length (hb_peers s)" and view: "preserves peer_view m"
    and keys: "keeps (on_store (keys_le ext (hb_heap s) \<circ> cs_heap)) m" and store: "keeps (on_store (cs_inv ext)) m"
    and run: "in_peer p m s = (r, s')"
  shows "hub_inv ext s'"
proof -
  let ?t = "hb_peers s ! p"
  let ?ps = "\<lparr>ps_peer = pt_peer ?t, ps_store = hb_store s, ps_stats = hb_stats s, ps_sent = pt_sent ?t\<rparr>"
  obtain ps where ps: "m ?ps = (r, ps)" and s': "s' = s\<lparr>hb_store := ps_store ps, hb_stats := ps_stats ps,
      hb_peers := (hb_peers s)[p := \<lparr>pt_peer = ps_peer ps, pt_sent = ps_sent ps, pt_ended = (pt_ended ?t \<or> isl r)\<rparr>]\<rparr>"
    using run by (auto simp: in_peer_def Let_def split: prod.splits)
  have "peer_view ps = peer_view ?ps" using view ps by (rule preservesD)
  moreover have "keys_le ext (hb_heap s) (cs_heap (ps_store ps))" "cs_inv ext (ps_store ps)"
    using keepsD [OF keys, of ?ps] keepsD [OF store, of ?ps] ps inv by (simp_all add: hub_inv_def)
  ultimately show ?thesis
    using inv p by (intro hub_inv_frame [OF inv])
      (simp_all add: s' peer_ids_def map_update hub_inv_def hub_bus_ok_def list_update_same_conv)
qed

lemma hub_step_inv:
  assumes laws: "feed_build_law ext" "feed_keys_kept ext fa" and inv: "hub_inv ext s" and step: "hub_step ext fa hx px s s'"
  shows "hub_inv ext s'"
  using step
proof cases
  case (add_feed q r)
  then show ?thesis using inv add_feed_inv by blast
next
  case (subscribe n)
  then show ?thesis using replicator_subscribe_inv [OF inv] by simp
next
  case (connect r)
  then have "hub_view s' = hub_view s"
    by (auto simp: Replicator_add_stream_def Replicator_run_peer_def rust_modify_apply)
  then show ?thesis using inv by (rule hub_inv_view)
next
  case (conn_start c r)
  then have "s' = snd (set_connection c (\<lambda>cn. cn\<lparr>cn_events := Some (length (hb_subscribers s))\<rparr>) (snd (Replicator_subscribe s)))"
    by (auto simp: connection_start_def rust_bind_apply Replicator_subscribe_run set_connection_def rust_modify_apply)
  then show ?thesis
    using view_inv [OF view_set_connection prod.collapse [symmetric]] replicator_subscribe_inv [OF inv] by blast
next
  case (conn_event c order ev r)
  then show ?thesis using inv connection_event_inv by blast
next
  case (peer_start p r)
  show ?thesis
    by (rule in_peer_inv [OF inv peer_start(1) view_run _ _ peer_start(2) [unfolded peer_task_start_def]])
      (use laws(2) peer_keys.keeps_run [of ext fa "hb_heap s"] peer_store.keeps_run [of ext fa] in \<open>simp_all add: comp_def\<close>)
next
  case (peer_event p pev r)
  show ?thesis
    by (rule in_peer_inv [OF inv peer_event(1) view_handle _ _ peer_event(3) [unfolded peer_task_event_def]])
      (use laws(2) peer_keys.keeps_handle [of ext fa "hb_heap s"] peer_store.keeps_handle [of ext fa] in \<open>simp_all add: comp_def\<close>)
next
  case (store t)
  obtain fs where "cs_heap t = hb_heap s @ fs" using corestore_step_heap [OF store(2)] by blast
  then have "keys_le ext (hb_heap s) (cs_heap t)" by (simp add: keys_le_append)
  moreover have "cs_inv ext t" using corestore_step_inv [OF laws(1) store(2)] inv by (simp add: hub_inv_def)
  ultimately show ?thesis
    unfolding store(1) by (intro hub_inv_frame [OF inv]) (use inv in \<open>simp_all add: peer_ids_def hub_inv_def hub_bus_ok_def\<close>)
qed

lemma hub_inv_new: "cs_inv ext t \<Longrightarrow> hub_inv ext (Replicator_new t)"
  by (simp add: hub_inv_def Replicator_new_def peer_ids_def hub_bus_ok_def)

interpretation hub: transition_system "\<lambda>s. \<exists>t. cs_inv ext t \<and> s = Replicator_new t" "hub_step ext fa hx px"
  "\<lambda>s. feed_build_law ext \<longrightarrow> feed_keys_kept ext fa \<longrightarrow> hub_inv ext s"
  for ext :: "('w, 'f, 'st, 'h) cs_ext" and fa :: "('w, 'f, 'nd, 'sig) feed_api" and hx and px :: "('w, 'nd, 'sig, 'bf, 'sb) proto_ext"
  by unfold_locales (auto simp: hub_inv_new intro: hub_step_inv)

subsection \<open>What the steps leave of the corestore\<close>

text \<open>The corestore's tables and events are as before, no feed has lost its key, and no feed has left the replicator.\<close>

definition hub_grows :: "('w, 'f, 'st, 'h) cs_ext \<Rightarrow> ('w, 'f, 'bf) hub_state \<Rightarrow> ('w, 'f, 'bf) hub_state \<Rightarrow> bool" where
  "hub_grows ext s s' \<longleftrightarrow>
     cs_inner (hb_store s') = cs_inner (hb_store s) \<and> cs_sent (hb_store s') = cs_sent (hb_store s) \<and>
     keys_le ext (hb_heap s) (hb_heap s') \<and> (\<forall>d. fmlookup (hb_feeds s) d \<noteq> None \<longrightarrow> fmlookup (hb_feeds s') d \<noteq> None)"

lemma hub_grows_view: "hub_view s' = hub_view s \<Longrightarrow> hub_grows ext s s'"
  by (simp add: hub_grows_def)

lemma hub_grows_add_feed: "Replicator_add_feed ext hx q s = (r, s') \<Longrightarrow> hub_grows ext s s'"
  by (cases "deref (hb_heap s) q")
    (auto simp: add_feed_run Let_def hub_grows_def,
     auto simp: Replicator_add_feed_def rust_bind_apply in_corestore_def with_feed_def)

lemma hub_grows_connection:
  assumes "connection_event ext hx px order c ev s = (r, s')"
  shows "hub_grows ext s s'"
proof -
  obtain r1 s1 where s1: "connection_handle ext hx px order c ev s = (r1, s1)" by fastforce
  have "hub_grows ext s s1"
    using s1 by (cases rule: connection_handle_cases) (auto simp: hub_grows_def with_peer_def Replicator_emit_run)
  moreover have "s' = s1 \<or> s' = snd (set_connection c (\<lambda>cn. cn\<lparr>cn_ended := True\<rparr>) s1)"
    using assms s1 by (auto simp: connection_event_def split: sum.splits)
  ultimately show ?thesis by (auto simp: hub_grows_def set_connection_def rust_modify_apply)
qed

lemma hub_grows_in_peer:
  assumes frame: "keeps (on_store (feed_only (hb_store s))) m" and keys: "keeps (on_store (keys_le ext (hb_heap s) \<circ> cs_heap)) m"
    and run: "in_peer p m s = (r, s')"
  shows "hub_grows ext s s'"
proof -
  let ?ps = "\<lparr>ps_peer = pt_peer (hb_peers s ! p), ps_store = hb_store s, ps_stats = hb_stats s, ps_sent = pt_sent (hb_peers s ! p)\<rparr>"
  have "hb_store s' = ps_store (snd (m ?ps))" "hb_feeds s' = hb_feeds s"
    using run by (auto simp: in_peer_def Let_def split: prod.splits)
  with keepsD [OF frame, of ?ps] keepsD [OF keys, of ?ps] show ?thesis
    by (simp add: hub_grows_def feed_only_def)
qed

lemma hub_step_grows:
  assumes keys: "feed_keys_kept ext fa" and step: "hub_step ext fa hx px s s'"
  shows "(\<exists>t. corestore_step ext (hb_store s) t \<and> s' = s\<lparr>hb_store := t\<rparr>) \<or> hub_grows ext s s'"
  using step
proof cases
  case (add_feed q r)
  then show ?thesis using hub_grows_add_feed by blast
next
  case (subscribe n)
  then show ?thesis by (auto simp: Replicator_subscribe_run hub_grows_def)
next
  case (connect r)
  then show ?thesis by (auto simp: Replicator_add_stream_def Replicator_run_peer_def rust_modify_apply hub_grows_def)
next
  case (conn_start c r)
  then show ?thesis
    by (auto simp: connection_start_def rust_bind_apply Replicator_subscribe_run set_connection_def rust_modify_apply hub_grows_def)
next
  case (conn_event c order ev r)
  then show ?thesis using hub_grows_connection by blast
next
  case (peer_start p r)
  have "hub_grows ext s s'"
    by (rule hub_grows_in_peer [OF peer_frame.keeps_run _ peer_start(2) [unfolded peer_task_start_def]])
      (use keys peer_keys.keeps_run [of ext fa "hb_heap s"] in \<open>simp add: comp_def\<close>)
  then show ?thesis ..
next
  case (peer_event p pev r)
  have "hub_grows ext s s'"
    by (rule hub_grows_in_peer [OF peer_frame.keeps_handle _ peer_event(3) [unfolded peer_task_event_def]])
      (use keys peer_keys.keeps_handle [of ext fa "hb_heap s"] in \<open>simp add: comp_def\<close>)
  then show ?thesis ..
qed auto

end
