(* ===== verification/Replicator_Theorems.thy ===== *)
theory Replicator_Theorems
  imports Replicator_Props Peer_Theorems
begin

section \<open>Properties of the replicator\<close>

text \<open>
  The invariant of the replicator under every interleaving of its tasks, and what a connection does on a
  handshake, on an opened channel and on a feed that is added later.
\<close>

subsection \<open>Reachable states\<close>

text \<open>
  C23. However the calls of the replicator, its connections, its peers and the corestore's other users
  interleave: every feed of the replicator is filed under the discovery key of its own public key, each of
  its peer tasks works on this feed and on the statistics reported for it, no two peers share statistics,
  and the corestore's invariant holds.
\<close>

theorem hub_reachable_sound:
  assumes "feed_build_law ext" and "feed_keys_kept ext fa" and "cs_inv ext t"
    and "(hub_step ext fa hx px)\<^sup>*\<^sup>* (Replicator_new t) s"
  shows "(\<forall>d pd. fmlookup (hb_feeds s) d = Some pd \<longrightarrow>
      (\<exists>f. deref (hb_heap s) (pd_feed pd) = Some f \<and> x_discovery_key ext (x_feed_public_key ext f) = d) \<and>
      length (pd_stats pd) = length (pd_tasks pd) \<and>
      (\<forall>i < length (pd_tasks pd). pd_tasks pd ! i < length (hb_peers s) \<and>
        (let peer = pt_peer (hb_peers s ! (pd_tasks pd ! i)) in pr_feed peer = pd_feed pd \<and> pr_stats peer = pd_stats pd ! i)))
    \<and> distinct (map (\<lambda>p. pr_stats (pt_peer p)) (hb_peers s)) \<and> cs_inv ext (hb_store s)"
proof -
  have inv: "hub_inv ext s"
    using hub.inv_reachable [OF _ assms(4)] assms(1-3) by blast
  have "(\<exists>f. deref (hb_heap s) (pd_feed pd) = Some f \<and> x_discovery_key ext (x_feed_public_key ext f) = d) \<and>
      length (pd_stats pd) = length (pd_tasks pd) \<and>
      (\<forall>i < length (pd_tasks pd). pd_tasks pd ! i < length (hb_peers s) \<and>
        (let peer = pt_peer (hb_peers s ! (pd_tasks pd ! i)) in pr_feed peer = pd_feed pd \<and> pr_stats peer = pd_stats pd ! i))"
    if "fmlookup (hb_feeds s) d = Some pd" for d pd
  proof -
    have "peered_ok ext (hb_heap s) (peer_ids s) d pd" using inv that by (simp add: hub_inv_def)
    then show ?thesis
      by (auto simp: peered_ok_def cell_key_def peer_ids_def list_all2_conv_all_nth Let_def)
  qed
  moreover have "map (\<lambda>p. pr_stats (pt_peer p)) (hb_peers s) = [0..<length (hb_stats s)]"
    using inv by (simp add: hub_inv_def peer_ids_def comp_def)
  then have "distinct (map (\<lambda>p. pr_stats (pt_peer p)) (hb_peers s))" by simp
  ultimately show ?thesis using inv by (simp add: hub_inv_def)
qed

definition sample_hub_ext :: "sample_files hub_ext" where
  "sample_hub_ext = \<lparr>hx_open = (\<lambda>c k w. (Inr (), w)), hx_alive = (\<lambda>c. True)\<rparr>"

definition sample_hub_store :: "(sample_files, sample_feed) cs_state" where
  "sample_hub_store = sample_store\<lparr>cs_heap := [\<lparr>sf_key = [9], sf_secret = None, sf_blocks = []\<rparr>]\<rparr>"

lemma sample_hub_store_inv: "cs_inv sample_ext sample_hub_store"
  by (simp add: cs_inv_def names_sound_def bus_ok_def sample_hub_store_def sample_store_def FeedMap_wf_new FeedMap_sound_new)
    (simp add: FeedMap_get_name_def FeedMap_new_def)

lemma sample_hub_cell: "deref (cs_heap sample_hub_store) 0 = Some \<lparr>sf_key = [9], sf_secret = None, sf_blocks = []\<rparr>"
  by (simp add: sample_hub_store_def deref_def)

theorem hub_reachable_sound_witness:
  "\<exists>s :: (sample_files, sample_feed, u64 list) hub_state.
    Replicator_add_feed sample_ext sample_hub_ext 0 (Replicator_new sample_hub_store) = (Inr (), s) \<and>
    (\<forall>d pd. fmlookup (hb_feeds s) d = Some pd \<longrightarrow> (\<exists>f. deref (hb_heap s) (pd_feed pd) = Some f \<and>
       x_discovery_key sample_ext (x_feed_public_key sample_ext f) = d)) \<and> fmlookup (hb_feeds s) (x_discovery_key sample_ext [9]) \<noteq> None"
proof -
  have cell: "deref (hb_heap (Replicator_new sample_hub_store)) 0 = Some \<lparr>sf_key = [9], sf_secret = None, sf_blocks = []\<rparr>"
    using sample_hub_cell by (simp add: Replicator_new_def)
  have key: "x_feed_public_key sample_ext \<lparr>sf_key = [9], sf_secret = None, sf_blocks = []\<rparr> = [9]" by (simp add: sample_ext_def)
  obtain s :: "(sample_files, sample_feed, u64 list) hub_state"
    where s: "Replicator_add_feed sample_ext sample_hub_ext 0 (Replicator_new sample_hub_store) = (Inr (), s)"
      "fmlookup (hb_feeds s) (x_discovery_key sample_ext [9]) \<noteq> None"
    by (rule that [OF add_feed_run [OF cell, of sample_ext sample_hub_ext, unfolded key Let_def]]) simp
  have "hub_step sample_ext sample_api sample_hub_ext sample_proto (Replicator_new sample_hub_store) s"
    using s(1) cell by (intro hub_step.add_feed [of 0]) (auto simp: deref_eq_Some)
  then have "(hub_step sample_ext sample_api sample_hub_ext sample_proto)\<^sup>*\<^sup>* (Replicator_new sample_hub_store) s" by blast
  from hub_reachable_sound [OF sample_feed_build_law sample_keys_kept sample_hub_store_inv this] s show ?thesis by blast
qed

subsection \<open>Connections\<close>

lemma open_channel_run:
  assumes "\<And>k w. \<exists>w'. hx_open hx c k w = (Inr (), w')" and "c < length (hb_tasks s)"
  obtains s' where "open_channel hx c k s = (Inr (), s')" "hub_view s' = hub_view s"
    "hb_tasks s' = (hb_tasks s)[c := (hb_tasks s ! c)\<lparr>cn_opened := cn_opened (hb_tasks s ! c) @ [k]\<rparr>]"
proof -
  obtain w' where "hx_open hx c k (cs_world (hb_store s)) = (Inr (), w')" using assms(1) by blast
  then show ?thesis
    by (intro that [of "s\<lparr>hb_store := (hb_store s)\<lparr>cs_world := w'\<rparr>,
        hb_tasks := (hb_tasks s)[c := (hb_tasks s ! c)\<lparr>cn_opened := cn_opened (hb_tasks s ! c) @ [k]\<rparr>]\<rparr>"])
      (simp_all add: open_channel_def rust_bind_apply rust_unwrap_apply in_corestore_def in_world_def set_connection_def
        rust_modify_apply)
qed

lemma open_feed_channels:
  assumes up: "\<And>k w. \<exists>w'. hx_open hx c k w = (Inr (), w')"
  shows "c < length (hb_tasks s) \<Longrightarrow> \<forall>pd \<in> set pds. cell_key ext (hb_heap s) (pd_feed pd) \<noteq> None \<Longrightarrow>
    \<exists>s'. rust_for (open_feed_channel ext hx c) pds s = (Inr (), s') \<and> hub_view s' = hub_view s \<and>
      hb_tasks s' = (hb_tasks s)[c := (hb_tasks s ! c)\<lparr>cn_opened := cn_opened (hb_tasks s ! c) @
        map (\<lambda>pd. the (cell_key ext (hb_heap s) (pd_feed pd))) pds\<rparr>]"
proof (induction pds arbitrary: s)
  case Nil
  then show ?case by (simp add: rust_return_apply)
next
  case (Cons pd pds)
  obtain f where f: "deref (hb_heap s) (pd_feed pd) = Some f" using Cons.prems(2) by (auto simp: cell_key_def)
  obtain s1 where s1: "open_channel hx c (x_feed_public_key ext f) s = (Inr (), s1)" "hub_view s1 = hub_view s"
    "hb_tasks s1 = (hb_tasks s)[c := (hb_tasks s ! c)\<lparr>cn_opened := cn_opened (hb_tasks s ! c) @ [x_feed_public_key ext f]\<rparr>]"
    using up Cons.prems(1) by (rule open_channel_run)
  obtain s2 where s2: "rust_for (open_feed_channel ext hx c) pds s1 = (Inr (), s2)" "hub_view s2 = hub_view s1"
      "hb_tasks s2 = (hb_tasks s1)[c := (hb_tasks s1 ! c)\<lparr>cn_opened := cn_opened (hb_tasks s1 ! c) @
        map (\<lambda>pd. the (cell_key ext (hb_heap s1) (pd_feed pd))) pds\<rparr>]"
    using Cons.IH [of s1] Cons.prems s1(2,3) by auto
  have "rust_for (open_feed_channel ext hx c) (pd # pds) s = (Inr (), s2)"
    using s1(1) s2(1) by (simp add: rust_bind_apply open_feed_channel_def in_corestore_peek [OF f])
  moreover have "hb_tasks s2 = (hb_tasks s)[c := (hb_tasks s ! c)\<lparr>cn_opened := cn_opened (hb_tasks s ! c) @
        map (\<lambda>pd. the (cell_key ext (hb_heap s) (pd_feed pd))) (pd # pds)\<rparr>]"
    using Cons.prems(1) s1(2) f unfolding s2(3) s1(3) by (simp add: cell_key_def)
  ultimately show ?case using s1(2) s2(2) by simp
qed

text \<open>
  On the handshake a connection remembers the remote key and opens one channel per feed of the
  replicator, each with the feed's public key.
\<close>

theorem handshake_opens_feeds:
  assumes inv: "hub_inv ext s" and c: "c < length (hb_tasks s)" and order: "iterates order (hb_feeds s)"
    and up: "\<And>k w. \<exists>w'. hx_open hx c k w = (Inr (), w')"
  shows "\<exists>s' ks. connection_event ext hx px order c (ProtocolEv (Handshake key)) s = (Inr (), s') \<and>
    cn_remote_public_key (hb_tasks s' ! c) = Some key \<and> cn_opened (hb_tasks s' ! c) = cn_opened (hb_tasks s ! c) @ ks \<and>
    length ks = length order \<and>
    set ks = {x_feed_public_key ext f | d pd f. fmlookup (hb_feeds s) d = Some pd \<and> deref (hb_heap s) (pd_feed pd) = Some f}"
proof -
  let ?s = "snd (set_connection c (\<lambda>cn. cn\<lparr>cn_remote_public_key := Some key\<rparr>) s)"
  let ?pds = "hm_values order (hb_feeds s)"
  have pds: "set ?pds = {pd. \<exists>d. fmlookup (hb_feeds s) d = Some pd}"
    unfolding hm_values_set [OF order] by (rule set_eqI) (simp add: fmlookup_ran_iff)
  have cell: "\<exists>f. deref (hb_heap s) (pd_feed pd) = Some f" if "pd \<in> set ?pds" for pd
  proof -
    obtain d where "fmlookup (hb_feeds s) d = Some pd" using \<open>pd \<in> set ?pds\<close> pds by auto
    then have "peered_ok ext (hb_heap s) (peer_ids s) d pd" using inv by (simp add: hub_inv_def)
    then show ?thesis by (auto simp: peered_ok_def cell_key_def)
  qed
  have view: "hub_view ?s = hub_view s" and tasks: "hb_tasks ?s = (hb_tasks s)[c := (hb_tasks s ! c)\<lparr>cn_remote_public_key := Some key\<rparr>]"
    by (simp_all add: set_connection_def rust_modify_apply)
  have heap: "hb_heap ?s = hb_heap s" using view by simp
  have len: "c < length (hb_tasks ?s)" using c by (simp add: tasks)
  have "\<forall>pd \<in> set ?pds. cell_key ext (hb_heap ?s) (pd_feed pd) \<noteq> None"
    unfolding heap using cell by (auto simp: cell_key_def)
  from open_feed_channels [OF up len this] obtain s' where s': "rust_for (open_feed_channel ext hx c) ?pds ?s = (Inr (), s')"
      "hb_tasks s' = (hb_tasks ?s)[c := (hb_tasks ?s ! c)\<lparr>cn_opened := cn_opened (hb_tasks ?s ! c) @
        map (\<lambda>pd. the (cell_key ext (hb_heap ?s) (pd_feed pd))) ?pds\<rparr>]"
    by (elim exE conjE)
  let ?ks = "map (\<lambda>pd. the (cell_key ext (hb_heap s) (pd_feed pd))) ?pds"
  have "connection_event ext hx px order c (ProtocolEv (Handshake key)) s = (Inr (), s')"
    using s'(1) by (simp add: connection_event_def connection_handle_def rust_bind_apply set_connection_def rust_modify_apply rust_get_apply)
  moreover have "hb_tasks s' ! c = (hb_tasks s ! c)\<lparr>cn_remote_public_key := Some key, cn_opened := cn_opened (hb_tasks s ! c) @ ?ks\<rparr>"
    using c unfolding s'(2) tasks heap by simp
  moreover have "length ?ks = length order"
    using order by (auto simp: hm_values_def iterates_def List.map_filter_def filter_id_conv fmlookup_dom_iff)
  moreover have "set ?ks = {x_feed_public_key ext f | d pd f. fmlookup (hb_feeds s) d = Some pd \<and> deref (hb_heap s) (pd_feed pd) = Some f}"
    using cell unfolding set_map pds by (force simp: cell_key_def)
  ultimately show ?thesis by auto
qed

text \<open>A replicator with one feed and one connection that has started.\<close>

definition sample_hub :: "bytes option \<Rightarrow> (sample_files, sample_feed, u64 list) hub_state" where
  "sample_hub remote = (Replicator_new sample_hub_store)\<lparr>hb_feeds := fmupd [9] (PeeredFeed_new 0) fmempty, hb_subscribers := [0],
     hb_tasks := [\<lparr>cn_events = Some 0, cn_remote_public_key = remote, cn_opened = [], cn_ended = False\<rparr>]\<rparr>"

lemma sample_hub_inv: "hub_inv sample_ext (sample_hub remote)"
proof -
  have "cell_key sample_ext (cs_heap sample_hub_store) 0 = Some [9]"
    unfolding cell_key_def sample_hub_cell by (simp add: sample_ext_def)
  moreover have "x_discovery_key sample_ext [9] = [9]" by (simp add: sample_ext_def)
  ultimately show ?thesis
    using sample_hub_store_inv
    by (simp add: hub_inv_def sample_hub_def Replicator_new_def PeeredFeed_new_def peered_ok_def peer_ids_def hub_bus_ok_def)
qed

lemma sample_hub_up: "\<exists>w'. hx_open sample_hub_ext c k w = (Inr (), w')"
  by (simp add: sample_hub_ext_def)

theorem handshake_opens_feeds_witness:
  "\<exists>s'. connection_event sample_ext sample_hub_ext sample_proto [[9]] 0 (ProtocolEv (Handshake [1])) (sample_hub None) = (Inr (), s') \<and>
    cn_remote_public_key (hb_tasks s' ! 0) = Some [1] \<and> length (cn_opened (hb_tasks s' ! 0)) = 1"
proof -
  have c: "0 < length (hb_tasks (sample_hub None))" by (simp add: sample_hub_def)
  have order: "iterates [[9]] (hb_feeds (sample_hub None))" by (simp add: iterates_def sample_hub_def)
  have none: "cn_opened (hb_tasks (sample_hub None) ! 0) = []" by (simp add: sample_hub_def)
  from handshake_opens_feeds [OF sample_hub_inv c order sample_hub_up, of sample_proto "[1]", unfolded none append_Nil]
  show ?thesis by auto
qed

text \<open>
  When the remote side has opened the channel of a feed the replicator has, the connection attaches a
  new peer to this feed, with fresh statistics under the remote key, and keeps the feed's other peers; a
  channel of an unknown feed is ignored; a channel that arrives before the handshake makes the
  connection's task panic and end.
\<close>

theorem channel_attaches_peer:
  assumes c: "c < length (hb_tasks s)"
  shows "case fmlookup (hb_feeds s) d of
      None \<Rightarrow> connection_event ext hx px order c (ProtocolEv (ChannelOpened d)) s = (Inr (), s)
    | Some pd \<Rightarrow>
        (case cn_remote_public_key (hb_tasks s ! c) of
           None \<Rightarrow> \<exists>m s'. connection_event ext hx px order c (ProtocolEv (ChannelOpened d)) s = (Inl (Panic m), s') \<and> cn_ended (hb_tasks s' ! c)
         | Some remote \<Rightarrow> \<exists>s' pd'. connection_event ext hx px order c (ProtocolEv (ChannelOpened d)) s = (Inr (), s') \<and>
             fmlookup (hb_feeds s') d = Some pd' \<and> pd_feed pd' = pd_feed pd \<and> pd_tasks pd' = pd_tasks pd @ [length (hb_peers s)] \<and>
             PeeredFeed_stats pd' s' = map (\<lambda>r. hb_stats s' ! r) (pd_stats pd) @ [Stats_default\<lparr>st_id := remote\<rparr>] \<and>
             (\<exists>task. hb_peers s' = hb_peers s @ [task] \<and> pr_feed (pt_peer task) = pd_feed pd))"
proof (cases "fmlookup (hb_feeds s) d")
  case None
  then show ?thesis by (simp add: connection_event_def connection_handle_def rust_simps)
next
  case (Some pd)
  show ?thesis
  proof (cases "cn_remote_public_key (hb_tasks s ! c)")
    case None
    with Some c show ?thesis
      by (simp add: connection_event_def connection_handle_def rust_simps set_connection_def)
  next
    case remote: (Some remote)
    have "connection_event ext hx px order c (ProtocolEv (ChannelOpened d)) s = (Inr (), with_peer px remote d pd s)"
      using Some remote by (simp add: connection_event_def connection_handle_def rust_bind_apply rust_get_apply add_peer_run
          rust_modify_apply with_peer_def)
    with Some remote show ?thesis
      by (simp add: with_peer_def PeeredFeed_stats_def Peer_new_def)
  qed
qed

theorem channel_attaches_peer_witness:
  "\<exists>s' pd'. connection_event sample_ext sample_hub_ext sample_proto [[9]] 0 (ProtocolEv (ChannelOpened [9])) (sample_hub (Some [1])) = (Inr (), s') \<and>
    fmlookup (hb_feeds s') [9] = Some pd' \<and> pd_feed pd' = 0 \<and> pd_tasks pd' = [0]"
proof -
  have c: "0 < length (hb_tasks (sample_hub (Some [1])))" by (simp add: sample_hub_def)
  have state: "fmlookup (hb_feeds (sample_hub (Some [1]))) [9] = Some (PeeredFeed_new 0)"
    "cn_remote_public_key (hb_tasks (sample_hub (Some [1])) ! 0) = Some [1]" "hb_peers (sample_hub (Some [1])) = []"
    by (simp_all add: sample_hub_def Replicator_new_def)
  from channel_attaches_peer [OF c, where d = "[9]" and ext = sample_ext and hx = sample_hub_ext and px = sample_proto and order = "[[9]]",
      unfolded state option.case]
  show ?thesis by (auto simp: PeeredFeed_new_def)
qed

text \<open>
  A feed that is added after the handshake is announced to the connection, but the connection then
  opens a channel with the feed's discovery key in the place of its public key.
\<close>

theorem late_feed_opened_by_discovery_key:
  assumes bus: "hub_bus_ok s" and c: "c < length (hb_tasks s)" and ch: "cn_events (hb_tasks s ! c) = Some ch" "ch \<in> set (hb_subscribers s)"
    and remote: "cn_remote_public_key (hb_tasks s ! c) \<noteq> None" and alive: "\<And>d. hx_alive hx d"
    and up: "\<And>k w. \<exists>w'. hx_open hx c k w = (Inr (), w')"
    and f: "deref (hb_heap s) q = Some f" and dkey: "dkey = x_discovery_key ext (x_feed_public_key ext f)"
  shows "\<exists>s1 s2. Replicator_add_feed ext hx q s = (Inr (), s1) \<and>
    received ch (hb_sent s1) = received ch (hb_sent s) @ [ReplicatorFeed dkey] \<and>
    connection_event ext hx px order c (ReplicatorEv (ReplicatorFeed dkey)) s1 = (Inr (), s2) \<and>
    cn_opened (hb_tasks s2 ! c) = cn_opened (hb_tasks s ! c) @ [dkey]"
proof -
  let ?s = "s\<lparr>hb_feeds := fmupd dkey (PeeredFeed_new q) (hb_feeds s)\<rparr>"
  let ?s1 = "snd (Replicator_emit hx (ReplicatorFeed dkey) ?s)"
  have "Replicator_add_feed ext hx q s = (Inr (), ?s1)"
    using add_feed_run [OF f, of ext hx] by (simp add: Let_def dkey Replicator_emit_run)
  moreover have "received ch (hb_sent ?s1) = received ch (hb_sent ?s) @ [ReplicatorFeed dkey]"
    using replicator_bus.received_emit_all [of ?s hx ch "[ReplicatorFeed dkey]"] bus alive ch
    by (simp add: hub_bus_ok_def)
  moreover have tasks: "hb_tasks ?s1 = hb_tasks s" by (simp add: Replicator_emit_run)
  moreover obtain s2 where "open_channel hx c dkey ?s1 = (Inr (), s2)"
      "hb_tasks s2 = (hb_tasks ?s1)[c := (hb_tasks ?s1 ! c)\<lparr>cn_opened := cn_opened (hb_tasks ?s1 ! c) @ [dkey]\<rparr>]"
    using c by (auto simp: tasks intro: open_channel_run [OF up, of ?s1 dkey])
  moreover from this(1) have "connection_event ext hx px order c (ReplicatorEv (ReplicatorFeed dkey)) ?s1 = (Inr (), s2)"
    using remote tasks by (simp add: connection_event_def connection_handle_def rust_bind_apply rust_get_apply)
  ultimately show ?thesis using c by (intro exI [of _ ?s1] exI [of _ s2]) simp
qed

theorem late_feed_opened_by_discovery_key_witness:
  "\<exists>s1 s2. Replicator_add_feed sample_ext sample_hub_ext 0 (sample_hub (Some [1])) = (Inr (), s1) \<and>
    received 0 (hb_sent s1) = [ReplicatorFeed [9]] \<and>
    connection_event sample_ext sample_hub_ext sample_proto [] 0 (ReplicatorEv (ReplicatorFeed [9])) s1 = (Inr (), s2) \<and>
    cn_opened (hb_tasks s2 ! 0) = [[9]]"
proof -
  have c: "0 < length (hb_tasks (sample_hub (Some [1])))" "cn_events (hb_tasks (sample_hub (Some [1])) ! 0) = Some 0"
    "0 \<in> set (hb_subscribers (sample_hub (Some [1])))" "cn_remote_public_key (hb_tasks (sample_hub (Some [1])) ! 0) \<noteq> None"
    by (simp_all add: sample_hub_def)
  have alive: "hx_alive sample_hub_ext d" for d by (simp add: sample_hub_ext_def)
  have bus: "hub_bus_ok (sample_hub (Some [1]))" using sample_hub_inv by (simp add: hub_inv_def)
  have f: "deref (hb_heap (sample_hub (Some [1]))) 0 = Some \<lparr>sf_key = [9], sf_secret = None, sf_blocks = []\<rparr>"
    using sample_hub_cell by (simp add: sample_hub_def Replicator_new_def)
  have dkey: "[9] = x_discovery_key sample_ext (x_feed_public_key sample_ext \<lparr>sf_key = [9], sf_secret = None, sf_blocks = []\<rparr>)"
    by (simp add: sample_ext_def)
  have before: "hb_sent (sample_hub (Some [1])) = []" "cn_opened (hb_tasks (sample_hub (Some [1])) ! 0) = []"
    by (simp_all add: sample_hub_def Replicator_new_def)
  have "received 0 ([] :: (nat \<times> replicator_event) list) = []" by (simp add: received_def)
  with late_feed_opened_by_discovery_key [OF bus c alive sample_hub_up f dkey, of sample_proto "[]", unfolded before]
  show ?thesis by simp
qed

end
