(* ===== verification/Replicate_Store.thy ===== *)
theory Replicate_Store
  imports Replicator_Theorems
begin

section \<open>Replicating a corestore (\<open>corestore/src/replicate.rs\<close>)\<close>

text \<open>
  \<open>replicate_corestore\<close> adds the feeds of a corestore to a replicator and then follows both: a feed the
  corestore opens is added to the replicator, and a discovery key a remote peer announces makes the
  corestore look for the feed on disk.
\<close>

subsection \<open>The task\<close>

text \<open>The feeds are visited under the corestore's read lock, so this is one step for the corestore.\<close>

definition replicate_snapshot ::
  "('w, 'f, 'st, 'h) cs_ext \<Rightarrow> 'w hub_ext \<Rightarrow> u64 list \<Rightarrow> (('w, 'f, 'bf) hub_state, unit) rust" where
  "replicate_snapshot ext hx order =
     rust_bind (rust_get (\<lambda>s. Corestore_feeds order (hb_store s))) (\<lambda>feeds.
     rust_for (Replicator_add_feed ext hx) feeds)"

definition replicate_subscribe :: "(('w, 'f, 'bf) hub_state, nat \<times> nat) rust" where
  "replicate_subscribe =
     rust_bind (in_corestore Corestore_subscribe) (\<lambda>corestore_events.
     rust_bind Replicator_subscribe (\<lambda>replicator_events.
     rust_return (corestore_events, replicator_events)))"

datatype replicate_event = StoreEv cs_event | HubEv replicator_event

definition replicate_handle ::
  "('w, 'f, 'st, 'h) cs_ext \<Rightarrow> 'w hub_ext \<Rightarrow> replicate_event \<Rightarrow> (('w, 'f, 'bf) hub_state, unit) rust" where
  "replicate_handle ext hx event =
     (case event of
        HubEv (ReplicatorDiscoveryKey dkey) \<Rightarrow>
          rust_bind (rust_try (in_corestore (Corestore_get_by_dkey ext dkey))) (\<lambda>_. rust_return ())
      | StoreEv (CorestoreFeed feed) \<Rightarrow> Replicator_add_feed ext hx feed
      | HubEv (ReplicatorFeed _) \<Rightarrow> rust_return ())"

text \<open>The whole function, when \<open>events\<close> are the events of both subscriptions, merged, before they end.\<close>

definition replicate_corestore ::
  "('w, 'f, 'st, 'h) cs_ext \<Rightarrow> 'w hub_ext \<Rightarrow> u64 list \<Rightarrow> replicate_event list \<Rightarrow> (('w, 'f, 'bf) hub_state, unit) rust" where
  "replicate_corestore ext hx order events =
     rust_bind (replicate_snapshot ext hx order) (\<lambda>_.
     rust_bind replicate_subscribe (\<lambda>_.
     rust_for (replicate_handle ext hx) events))"

subsection \<open>Following the corestore\<close>

text \<open>
  The task and everything around it: \<open>(s, n)\<close> is the state together with the number of corestore events the
  task has taken from its channel \<open>ch\<close>.
\<close>

inductive follow_step ::
  "('w, 'f, 'st, 'h) cs_ext \<Rightarrow> ('w, 'f, 'nd, 'sig) feed_api \<Rightarrow> 'w hub_ext \<Rightarrow> ('w, 'nd, 'sig, 'bf, 'sb) proto_ext \<Rightarrow> nat \<Rightarrow>
   ('w, 'f, 'bf) hub_state \<times> nat \<Rightarrow> ('w, 'f, 'bf) hub_state \<times> nat \<Rightarrow> bool"
  for ext fa hx px ch where
  take_store: "n < length (received ch (cs_sent (hb_store s))) \<Longrightarrow>
    replicate_handle ext hx (StoreEv (received ch (cs_sent (hb_store s)) ! n)) s = (r, s') \<Longrightarrow>
    follow_step ext fa hx px ch (s, n) (s', Suc n)"
| take_hub: "cs_room (hb_store s) \<Longrightarrow> replicate_handle ext hx (HubEv ev) s = (r, s') \<Longrightarrow> follow_step ext fa hx px ch (s, n) (s', n)"
| others: "hub_step ext fa hx px s s' \<Longrightarrow> follow_step ext fa hx px ch (s, n) (s', n)"

abbreviation pending :: "nat \<Rightarrow> ('w, 'f, 'bf) hub_state \<times> nat \<Rightarrow> cs_event list" where
  "pending ch x \<equiv> drop (snd x) (received ch (cs_sent (hb_store (fst x))))"

text \<open>Every feed of the corestore is in the replicator, or the event for it waits in the channel.\<close>

definition follows :: "('w, 'f, 'st, 'h) cs_ext \<Rightarrow> nat \<Rightarrow> ('w, 'f, 'bf) hub_state \<times> nat \<Rightarrow> bool" where
  "follows ext ch x \<longleftrightarrow>
     (\<forall>d. FeedMap_get_dkey (cs_feeds (hb_store (fst x))) d \<noteq> None \<longrightarrow> fmlookup (hb_feeds (fst x)) d \<noteq> None \<or>
        (\<exists>q k. CorestoreFeed q \<in> set (pending ch x) \<and> cell_key ext (hb_heap (fst x)) q = Some k \<and> x_discovery_key ext k = d)) \<and>
     (\<forall>q. CorestoreFeed q \<in> set (pending ch x) \<longrightarrow> q < length (hb_heap (fst x))) \<and>
     ch \<in> set (cs_subs (hb_store (fst x))) \<and> snd x \<le> length (received ch (cs_sent (hb_store (fst x))))"

definition follow_inv :: "('w, 'f, 'st, 'h) cs_ext \<Rightarrow> nat \<Rightarrow> ('w, 'f, 'bf) hub_state \<times> nat \<Rightarrow> bool" where
  "follow_inv ext ch x \<longleftrightarrow> hub_inv ext (fst x) \<and> follows ext ch x"

text \<open>A step that changes neither the corestore's tables and events nor removes a feed from the replicator.\<close>

lemma follows_frame:
  assumes "follows ext ch (s, n)" and grows: "hub_grows ext s s'"
  shows "follows ext ch (s', n)"
proof -
  note grows = grows [unfolded hub_grows_def]
  have len: "length (hb_heap s) \<le> length (hb_heap s')" using grows keys_le_length by blast
  show ?thesis
    unfolding follows_def fst_conv snd_conv conjunct1 [OF grows] conjunct1 [OF conjunct2 [OF grows]]
  proof (intro conjI allI impI)
    fix d
    assume "FeedMap_get_dkey (cs_feeds (hb_store s)) d \<noteq> None"
    then consider "fmlookup (hb_feeds s) d \<noteq> None" | q k where "CorestoreFeed q \<in> set (pending ch (s, n))"
        "cell_key ext (hb_heap s) q = Some k" "x_discovery_key ext k = d"
      using assms(1) by (auto simp: follows_def)
    then show "fmlookup (hb_feeds s') d \<noteq> None \<or> (\<exists>q k. CorestoreFeed q \<in> set (drop n (received ch (cs_sent (hb_store s)))) \<and>
        cell_key ext (hb_heap s') q = Some k \<and> x_discovery_key ext k = d)"
      by cases (use grows in \<open>auto simp: keys_le_def\<close>)
  next
    fix q
    assume "CorestoreFeed q \<in> set (drop n (received ch (cs_sent (hb_store s))))"
    then have "q < length (hb_heap s)" using assms(1) by (simp add: follows_def)
    with len show "q < length (hb_heap s')" by simp
  qed (use assms(1) in \<open>simp_all add: follows_def\<close>)
qed

lemma follows_new_feed:
  fixes s :: "('w, 'f, 'bf) hub_state" and f :: 'f and ext :: "('w, 'f, 'st, 'h) cs_ext"
  defines "q0 \<equiv> length (hb_heap s)" and "dk \<equiv> x_discovery_key ext (x_feed_public_key ext f)"
  assumes inv: "cs_inv ext (hb_store s)" and follows: "follows ext ch (s, n)" and room: "cs_room (hb_store s)"
    and t: "cs_heap t = hb_heap s @ [f]" "cs_subs t = cs_subs (hb_store s)"
      "cs_feeds t = FeedMap_link (x_feed_public_key ext f) dk q0 gn (cs_feeds (hb_store s))"
      "cs_sent t = cs_sent (hb_store s) @ map (\<lambda>c. (c, CorestoreFeed q0)) (cs_subs (hb_store s))"
  shows "follows ext ch (s\<lparr>hb_store := t\<rparr>, n)"
proof -
  let ?s = "hb_store s"
  have ch: "ch \<in> set (cs_subs ?s)" "n \<le> length (received ch (cs_sent ?s))" using follows by (simp_all add: follows_def)
  have "distinct (cs_subs ?s)" using inv by (metis cs_inv_def bus_ok_def distinct_upt)
  then have recv: "received ch (cs_sent t) = received ch (cs_sent ?s) @ [CorestoreFeed q0]"
    using ch(1) by (simp add: t(4) received_broadcast)
  have look: "FeedMap_get_dkey (cs_feeds t) d = (if d = dk then Some q0 else FeedMap_get_dkey (cs_feeds ?s) d)" for d
    using inv room unfolding t(3) by (intro FeedMap_link_lookup) (simp_all add: cs_inv_def)
  have keys: "cell_key ext (cs_heap t) q = Some x" if "cell_key ext (hb_heap s) q = Some x" for q x
    using that keys_le_append [of ext "hb_heap s" "[f]"] by (simp add: t(1) keys_le_def)
  have new_key: "cell_key ext (cs_heap t) q0 = Some (x_feed_public_key ext f)" by (simp add: t(1) cell_key_def q0_def)
  let ?old = "drop n (received ch (cs_sent ?s))"
  have pend: "drop n (received ch (cs_sent t)) = ?old @ [CorestoreFeed q0]" using ch(2) by (simp add: recv)
  have fields: "hb_store (s\<lparr>hb_store := t\<rparr>) = t" "hb_feeds (s\<lparr>hb_store := t\<rparr>) = hb_feeds s" by simp_all
  show ?thesis
    unfolding follows_def fst_conv snd_conv fields pend
  proof (intro conjI allI impI)
    fix d
    assume d: "FeedMap_get_dkey (cs_feeds t) d \<noteq> None"
    show "fmlookup (hb_feeds s) d \<noteq> None \<or> (\<exists>q k. CorestoreFeed q \<in> set (?old @ [CorestoreFeed q0]) \<and>
        cell_key ext (cs_heap t) q = Some k \<and> x_discovery_key ext k = d)"
    proof (cases "d = dk")
      case True
      then show ?thesis using new_key unfolding dk_def by auto
    next
      case False
      then have "FeedMap_get_dkey (cs_feeds ?s) d \<noteq> None" using d by (simp add: look)
      then consider "fmlookup (hb_feeds s) d \<noteq> None" | q x where "CorestoreFeed q \<in> set (pending ch (s, n))"
          "cell_key ext (hb_heap s) q = Some x" "x_discovery_key ext x = d"
        using follows by (auto simp: follows_def)
      then show ?thesis by cases (use keys in auto)
    qed
  next
    fix q
    assume "CorestoreFeed q \<in> set (?old @ [CorestoreFeed q0])"
    then show "q < length (cs_heap t)" using follows by (auto simp: t(1) follows_def q0_def)
  qed (use ch in \<open>simp_all add: t(2) recv\<close>)
qed

lemma follows_store_step:
  assumes alive: "\<And>c. x_receiver_alive ext c" and inv: "cs_inv ext (hb_store s)" and follows: "follows ext ch (s, n)"
    and step: "corestore_step ext (hb_store s) t"
  shows "follows ext ch (s\<lparr>hb_store := t\<rparr>, n)"
  using step
proof (cases rule: corestore_step_memory)
  case same
  then show ?thesis using same_memD [OF same] by (intro follows_frame [OF follows]) (simp add: hub_grows_def)
next
  case subscribed
  then show ?thesis using follows by (auto simp: follows_def Corestore_subscribe_run)
next
  case (new f gn k s1)
  have "cs_inner s1 = cs_inner (hb_store s)" "cs_heap s1 = hb_heap s" "cs_sent s1 = cs_sent (hb_store s)"
    using same_memD [OF new(1)] by simp_all
  with new(4) alive show ?thesis
    by (intro follows_new_feed [OF inv follows new(3), of t f gn]) (simp_all add: new(2) filed_def)
qed

text \<open>Taking the next event puts its feed into the replicator.\<close>

lemma follows_take:
  assumes follows: "follows ext ch (s, n)" and n: "n < length (received ch (cs_sent (hb_store s)))"
    and run: "replicate_handle ext hx (StoreEv (received ch (cs_sent (hb_store s)) ! n)) s = (r, s')"
  shows "r = Inr ()" and "follows ext ch (s', Suc n)"
proof -
  obtain q where q: "received ch (cs_sent (hb_store s)) ! n = CorestoreFeed q" by (cases "received ch (cs_sent (hb_store s)) ! n")
  have pend: "drop n (received ch (cs_sent (hb_store s))) = CorestoreFeed q # drop (Suc n) (received ch (cs_sent (hb_store s)))"
    using n q by (simp add: Cons_nth_drop_Suc [symmetric])
  then have "q < length (hb_heap s)" using follows by (simp add: follows_def)
  then obtain f where f: "deref (hb_heap s) q = Some f" by (simp add: deref_def)
  let ?d = "x_discovery_key ext (x_feed_public_key ext f)"
  have s': "r = Inr ()" "hb_store s' = hb_store s" "hb_feeds s' = fmupd ?d (PeeredFeed_new q) (hb_feeds s)"
    using run by (auto simp: replicate_handle_def q add_feed_run [OF f] Let_def)
  show "r = Inr ()" by fact
  show "follows ext ch (s', Suc n)"
    unfolding follows_def fst_conv snd_conv s'
  proof (intro conjI allI impI)
    fix d
    assume "FeedMap_get_dkey (cs_feeds (hb_store s)) d \<noteq> None"
    then consider "fmlookup (hb_feeds s) d \<noteq> None" | p k where "CorestoreFeed p \<in> set (pending ch (s, n))"
        "cell_key ext (hb_heap s) p = Some k" "x_discovery_key ext k = d"
      using follows by (auto simp: follows_def)
    then show "fmlookup (fmupd ?d (PeeredFeed_new q) (hb_feeds s)) d \<noteq> None \<or>
        (\<exists>p k. CorestoreFeed p \<in> set (drop (Suc n) (received ch (cs_sent (hb_store s)))) \<and>
          cell_key ext (hb_heap s) p = Some k \<and> x_discovery_key ext k = d)"
      by cases (use f in \<open>auto simp: pend cell_key_def\<close>)
  next
    fix p
    assume "CorestoreFeed p \<in> set (drop (Suc n) (received ch (cs_sent (hb_store s))))"
    then show "p < length (hb_heap s)" using follows pend by (simp add: follows_def)
  qed (use follows n in \<open>simp_all add: follows_def\<close>)
qed

lemma replicate_hub_event:
  assumes "replicate_handle ext hx (HubEv ev) s = (r, s')" and "cs_room (hb_store s)"
  shows "s' = s \<or> (\<exists>t. corestore_step ext (hb_store s) t \<and> s' = s\<lparr>hb_store := t\<rparr>)"
proof (cases ev)
  case (ReplicatorFeed d)
  with assms(1) show ?thesis by (simp add: replicate_handle_def rust_return_apply)
next
  case (ReplicatorDiscoveryKey d)
  obtain r1 t where t: "Corestore_get_by_dkey ext d (hb_store s) = (r1, t)" by fastforce
  then have "corestore_step ext (hb_store s) t" using assms(2) by (rule corestore_step.by_dkey [rotated])
  moreover have "s' = s\<lparr>hb_store := t\<rparr>"
    using assms(1) t
    by (auto simp: replicate_handle_def ReplicatorDiscoveryKey rust_bind_apply rust_try_apply rust_return_apply in_corestore_def
        split: sum.splits fault.splits)
  ultimately show ?thesis by blast
qed

lemma follow_store_step:
  assumes "\<And>c. x_receiver_alive ext c" and "feed_build_law ext" and "follow_inv ext ch (s, n)"
    and step: "corestore_step ext (hb_store s) t"
  shows "follow_inv ext ch (s\<lparr>hb_store := t\<rparr>, n)"
proof -
  have inv: "hub_inv ext s" and follows: "follows ext ch (s, n)" using assms(3) by (simp_all add: follow_inv_def)
  obtain fs where "cs_heap t = hb_heap s @ fs" using corestore_step_heap [OF step] by blast
  then have "keys_le ext (hb_heap s) (cs_heap t)" by (simp add: keys_le_append)
  moreover have "cs_inv ext t" using corestore_step_inv [OF assms(2) step] inv by (simp add: hub_inv_def)
  ultimately have "hub_inv ext (s\<lparr>hb_store := t\<rparr>)"
    by (intro hub_inv_frame [OF inv]) (use inv in \<open>simp_all add: peer_ids_def hub_inv_def hub_bus_ok_def\<close>)
  moreover have "cs_inv ext (hb_store s)" using inv by (simp add: hub_inv_def)
  from follows_store_step [OF assms(1) this follows step] have "follows ext ch (s\<lparr>hb_store := t\<rparr>, n)" .
  ultimately show ?thesis by (simp add: follow_inv_def)
qed

lemma follow_step_inv:
  assumes laws: "feed_build_law ext" "feed_keys_kept ext fa" and alive: "\<And>c. x_receiver_alive ext c"
    and inv: "follow_inv ext ch x" and step: "follow_step ext fa hx px ch x y"
  shows "follow_inv ext ch y"
  using step
proof cases
  case (take_store n s r s')
  have "hub_inv ext s'"
    using inv take_store(4) add_feed_inv [of ext s hx _ r s'] unfolding take_store(1)
    by (cases "received ch (cs_sent (hb_store s)) ! n") (auto simp: follow_inv_def replicate_handle_def)
  moreover have "follows ext ch (s', Suc n)"
    using inv take_store(3,4) unfolding take_store(1) by (intro follows_take(2)) (simp_all add: follow_inv_def)
  ultimately show ?thesis by (simp add: take_store(2) follow_inv_def)
next
  case (take_hub s ev r s' n)
  have inv': "follow_inv ext ch (s, n)" using inv by (simp add: take_hub(1))
  from replicate_hub_event [OF take_hub(4,3)] show ?thesis
  proof
    assume "s' = s"
    with inv' show ?thesis by (simp add: take_hub(2))
  next
    assume "\<exists>t. corestore_step ext (hb_store s) t \<and> s' = s\<lparr>hb_store := t\<rparr>"
    then show ?thesis using follow_store_step [OF alive laws(1) inv'] unfolding take_hub(2) by blast
  qed
next
  case (others s s' n)
  have inv': "hub_inv ext s'" using hub_step_inv [OF laws _ others(3)] inv by (simp add: others(1) follow_inv_def)
  from hub_step_grows [OF laws(2) others(3)] show ?thesis
  proof
    assume "\<exists>t. corestore_step ext (hb_store s) t \<and> s' = s\<lparr>hb_store := t\<rparr>"
    then show ?thesis using follow_store_step [OF alive laws(1) inv [unfolded others(1)]] unfolding others(2) by blast
  next
    assume "hub_grows ext s s'"
    moreover have "follows ext ch (s, n)" using inv by (simp add: others(1) follow_inv_def)
    ultimately have "follows ext ch (s', n)" by (rule follows_frame [rotated])
    with inv' show ?thesis by (simp add: others(2) follow_inv_def)
  qed
qed

subsection \<open>Starting\<close>

lemma add_feeds_run:
  "\<forall>q \<in> set qs. q < length (hb_heap s) \<Longrightarrow> hub_inv ext s \<Longrightarrow>
   \<exists>s'. rust_for (Replicator_add_feed ext hx) qs s = (Inr (), s') \<and> hb_store s' = hb_store s \<and> hub_inv ext s' \<and>
     (\<forall>d. fmlookup (hb_feeds s) d \<noteq> None \<or> (\<exists>q k. q \<in> set qs \<and> cell_key ext (hb_heap s) q = Some k \<and> x_discovery_key ext k = d) \<longrightarrow>
        fmlookup (hb_feeds s') d \<noteq> None)"
proof (induction qs arbitrary: s)
  case Nil
  then show ?case by (simp add: rust_return_apply)
next
  case (Cons q qs)
  then obtain f where f: "deref (hb_heap s) q = Some f" by (auto simp: deref_def)
  obtain s1 where s1: "Replicator_add_feed ext hx q s = (Inr (), s1)" "hb_store s1 = hb_store s"
      "hb_feeds s1 = fmupd (x_discovery_key ext (x_feed_public_key ext f)) (PeeredFeed_new q) (hb_feeds s)"
    using add_feed_run [OF f, of ext hx] by (simp add: Let_def)
  have inv1: "hub_inv ext s1" using Cons.prems(2) s1(1) by (rule add_feed_inv)
  have "\<forall>p \<in> set qs. p < length (hb_heap s1)" using Cons.prems(1) by (simp add: s1(2))
  from Cons.IH [OF this inv1] obtain s2 where s2: "rust_for (Replicator_add_feed ext hx) qs s1 = (Inr (), s2)"
      "hb_store s2 = hb_store s" "hub_inv ext s2"
      "\<forall>d. fmlookup (hb_feeds s1) d \<noteq> None \<or> (\<exists>q k. q \<in> set qs \<and> cell_key ext (hb_heap s) q = Some k \<and> x_discovery_key ext k = d) \<longrightarrow>
        fmlookup (hb_feeds s2) d \<noteq> None"
    unfolding s1(2) by (elim exE conjE)
  have "rust_for (Replicator_add_feed ext hx) (q # qs) s = (Inr (), s2)" using s1(1) s2(1) by (simp add: rust_bind_apply)
  moreover have "fmlookup (hb_feeds s2) d \<noteq> None"
    if "fmlookup (hb_feeds s) d \<noteq> None \<or> (\<exists>p k. p \<in> set (q # qs) \<and> cell_key ext (hb_heap s) p = Some k \<and> x_discovery_key ext k = d)" for d
    using that f by (intro mp [OF spec [OF s2(4), of d]]) (auto simp: s1(3) cell_key_def)
  ultimately show ?case using s2(2,3) by blast
qed

lemma snapshot_run:
  assumes inv: "hub_inv ext s" and order: "iterates order (fm_feeds (cs_feeds (hb_store s)))"
  obtains s' where "replicate_snapshot ext hx order s = (Inr (), s')" "hb_store s' = hb_store s" "hub_inv ext s'"
    "\<And>d. FeedMap_get_dkey (cs_feeds (hb_store s)) d \<noteq> None \<Longrightarrow> fmlookup (hb_feeds s') d \<noteq> None"
proof -
  let ?qs = "Corestore_feeds order (hb_store s)"
  have store: "cs_inv ext (hb_store s)" using inv by (simp add: hub_inv_def)
  have qs: "set ?qs = {q. \<exists>i. fmlookup (fm_feeds (cs_feeds (hb_store s))) i = Some q}"
    unfolding Corestore_feeds_def InnerCorestore_feeds_def FeedMap_iter_def hm_values_set [OF order]
    by (rule set_eqI) (simp add: fmlookup_ran_iff)
  have "\<forall>q \<in> set ?qs. q < length (hb_heap s)"
    unfolding qs using store by (auto simp: cs_inv_def dest: FeedMap_sound_deref)
  from add_feeds_run [OF this inv, of hx] obtain s' where s': "rust_for (Replicator_add_feed ext hx) ?qs s = (Inr (), s')"
      "hb_store s' = hb_store s" "hub_inv ext s'"
      "\<And>d q k. q \<in> set ?qs \<Longrightarrow> cell_key ext (hb_heap s) q = Some k \<Longrightarrow> x_discovery_key ext k = d \<Longrightarrow> fmlookup (hb_feeds s') d \<noteq> None"
    by blast
  have "fmlookup (hb_feeds s') d \<noteq> None" if d: "FeedMap_get_dkey (cs_feeds (hb_store s)) d \<noteq> None" for d
  proof -
    obtain q where q: "FeedMap_get_dkey (cs_feeds (hb_store s)) d = Some q" using d by blast
    then have "q \<in> set ?qs" unfolding qs by (auto simp: FeedMap_get_dkey_def bind_eq_Some_conv)
    with get_dkey_feed [OF store q] s'(4) show ?thesis by (auto simp: cell_key_def)
  qed
  with s' show ?thesis
    by (intro that [of s']) (simp_all add: replicate_snapshot_def rust_get_bind_apply)
qed

lemma replicate_subscribe_run:
  assumes "hub_inv ext s" and "\<And>d. FeedMap_get_dkey (cs_feeds (hb_store s)) d \<noteq> None \<Longrightarrow> fmlookup (hb_feeds s) d \<noteq> None"
  obtains ch rch s' where "replicate_subscribe s = (Inr (ch, rch), s')" "follow_inv ext ch (s', 0)"
    "received ch (cs_sent (hb_store s')) = []" "hb_feeds s' = hb_feeds s" "cs_feeds (hb_store s') = cs_feeds (hb_store s)"
proof -
  let ?t = "snd (Corestore_subscribe (hb_store s))" and ?ch = "length (cs_subs (hb_store s))"
  let ?s = "s\<lparr>hb_store := ?t\<rparr>"
  let ?s' = "snd (Replicator_subscribe ?s)"
  have store: "cs_inv ext (hb_store s)" using assms(1) by (simp add: hub_inv_def)
  have run: "replicate_subscribe s = (Inr (?ch, length (hb_subscribers s)), ?s')"
    by (simp add: replicate_subscribe_def rust_bind_apply in_corestore_def Corestore_subscribe_run Replicator_subscribe_run rust_return_apply)
  have "hub_inv ext ?s"
    by (rule hub_inv_frame [OF assms(1)])
      (use assms(1) subscribe_inv [OF store] in \<open>simp_all add: hub_inv_def hub_bus_ok_def peer_ids_def Corestore_subscribe_run\<close>)
  then have inv: "hub_inv ext ?s'" by (rule replicator_subscribe_inv)
  have fields: "hb_store ?s' = ?t" "hb_feeds ?s' = hb_feeds s" by (simp_all add: Replicator_subscribe_run)
  have t: "cs_feeds ?t = cs_feeds (hb_store s)" "cs_subs ?t = cs_subs (hb_store s) @ [?ch]" "cs_sent ?t = cs_sent (hb_store s)"
    by (simp_all add: Corestore_subscribe_run)
  have none: "received ?ch (cs_sent (hb_store s)) = []"
    using store by (auto simp: cs_inv_def bus_ok_def received_def filter_empty_conv)
  have "follows ext ?ch (?s', 0)"
    unfolding follows_def fst_conv snd_conv fields t none using assms(2) by simp
  with inv show ?thesis
    by (intro that [OF run]) (simp_all add: follow_inv_def fields t none)
qed

subsection \<open>Properties\<close>

text \<open>Handling all waiting events.\<close>

lemma follow_drain:
  "follow_inv ext ch (s, n) \<Longrightarrow>
   \<exists>s'. rust_for (\<lambda>ev. replicate_handle ext hx (StoreEv ev)) (drop n (received ch (cs_sent (hb_store s)))) s = (Inr (), s') \<and>
     hb_store s' = hb_store s \<and> follow_inv ext ch (s', length (received ch (cs_sent (hb_store s))))"
proof (induction "length (received ch (cs_sent (hb_store s))) - n" arbitrary: s n)
  case 0
  then have "n = length (received ch (cs_sent (hb_store s)))" by (simp add: follow_inv_def follows_def)
  with 0 show ?case by (simp add: rust_return_apply)
next
  case (Suc m)
  let ?evs = "received ch (cs_sent (hb_store s))"
  have n: "n < length ?evs" using Suc(2) by simp
  obtain r s1 where s1: "replicate_handle ext hx (StoreEv (?evs ! n)) s = (r, s1)" by fastforce
  have follows: "follows ext ch (s, n)" and inv: "hub_inv ext s" using Suc(3) by (simp_all add: follow_inv_def)
  obtain q where q: "?evs ! n = CorestoreFeed q" by (cases "?evs ! n")
  have r: "r = Inr ()" and after: "follows ext ch (s1, Suc n)" using follows_take [OF follows n s1] by simp_all
  have add: "Replicator_add_feed ext hx q s = (r, s1)" using s1 by (simp add: q replicate_handle_def)
  then have inv1: "hub_inv ext s1" by (rule add_feed_inv [OF inv])
  have store: "hb_store s1 = hb_store s"
    using add r by (cases "deref (hb_heap s) q")
      (auto simp: add_feed_run Let_def, auto simp: Replicator_add_feed_def rust_bind_apply in_corestore_def with_feed_def)
  have "m = length (received ch (cs_sent (hb_store s1))) - Suc n" using Suc(2) by (simp add: store)
  from Suc(1) [OF this] inv1 after obtain s2 where
      "rust_for (\<lambda>ev. replicate_handle ext hx (StoreEv ev)) (drop (Suc n) ?evs) s1 = (Inr (), s2)"
      "hb_store s2 = hb_store s" "follow_inv ext ch (s2, length ?evs)"
    unfolding store by (auto simp: follow_inv_def)
  moreover have "drop n ?evs = ?evs ! n # drop (Suc n) ?evs" using n by (simp add: Cons_nth_drop_Suc)
  ultimately show ?case using s1 r by (simp add: rust_bind_apply)
qed

text \<open>The task with everything around it, as a transition system.\<close>

interpretation follow: transition_system "follow_inv ext ch" "follow_step ext fa hx px ch"
  "\<lambda>x. feed_build_law ext \<longrightarrow> feed_keys_kept ext fa \<longrightarrow> (\<forall>c. x_receiver_alive ext c) \<longrightarrow> follow_inv ext ch x"
  for ext :: "('w, 'f, 'st, 'h) cs_ext" and fa :: "('w, 'f, 'nd, 'sig) feed_api" and hx and px :: "('w, 'nd, 'sig, 'bf, 'sb) proto_ext" and ch
  by unfold_locales (simp, metis follow_step_inv)


lemma sample_get_by_name_told:
  "\<exists>t. Corestore_get_by_name sample_ext [1] (snd (Corestore_subscribe sample_store)) = (Inr 0, t)"
  by (simp add: corestore_run_simps rust_simps sample_ext_def sample_store_def FeedMap_new_def Let_def Corestore_subscribe_run)


text \<open>
  A feed that is opened after the feeds have been listed and before the subscription is in the corestore
  but not in the replicator, and no event for it will ever reach the task.
\<close>

theorem feed_opened_between_is_missed:
  assumes law: "feed_build_law ext" and inv: "hub_inv ext s1" and room: "cs_room (hb_store s1)"
    and run: "Corestore_get_by_name ext nm (hb_store s1) = (Inr q, t)" and new: "length (hb_heap s1) \<le> q"
    and f: "deref (cs_heap t) q = Some f" and d: "d = x_discovery_key ext (x_feed_public_key ext f)"
    and absent: "fmlookup (hb_feeds s1) d = None"
    and sub: "replicate_subscribe (s1\<lparr>hb_store := t\<rparr>) = (Inr (ch, rch), s2)"
  shows "FeedMap_get_dkey (cs_feeds (hb_store s2)) d = Some q \<and> fmlookup (hb_feeds s2) d = None \<and>
    received ch (cs_sent (hb_store s2)) = []"
proof -
  have store: "cs_inv ext (hb_store s1)" using inv by (simp add: hub_inv_def)
  have open_run: "InnerCorestore_open_feed ext None (Some nm) (hb_store s1) = (Inr q, t)"
    using run by (simp add: Corestore_get_by_name_def InnerCorestore_get_by_name_def)
  have "FeedMap_get_dkey (cs_feeds t) d = Some q"
    using law store room open_run
  proof (cases rule: open_feed_returns)
    case old
    then obtain g where "deref (hb_heap s1) q = Some g"
      using get_name_feed [OF store] by auto
    with new show ?thesis by (simp add: deref_eq_Some)
  next
    case (new pk sk gn s0 s' g)
    have mem: "cs_inner s' = cs_inner (hb_store s1)" "cs_heap s' = hb_heap s1" using same_memD [OF new(4)] by simp_all
    have "f = g" using f new(5,6) mem by simp
    moreover have "FeedMap_get_dkey (cs_feeds t) (x_discovery_key ext (x_feed_public_key ext g)) = Some q"
      using store room mem unfolding new(5,6) by (simp add: FeedMap_link_lookup cs_inv_def)
    ultimately show ?thesis by (simp add: d)
  qed
  moreover have "cs_inv ext t" using law store room open_run by (rule open_feed_inv)
  then have "received (length (cs_subs t)) (cs_sent t) = []"
    by (auto simp: cs_inv_def bus_ok_def received_def filter_empty_conv)
  ultimately show ?thesis
    using sub absent
    by (auto simp: replicate_subscribe_def rust_bind_apply in_corestore_def Corestore_subscribe_run Replicator_subscribe_run rust_return_apply)
qed

theorem feed_opened_between_is_missed_witness:
  "\<exists>t ch rch (s2 :: (sample_files, sample_feed, u64 list) hub_state) d. Corestore_get_by_name sample_ext [1] sample_store = (Inr 0, t) \<and>
     replicate_subscribe (Replicator_new t) = (Inr (ch, rch), s2) \<and> FeedMap_get_dkey (cs_feeds (hb_store s2)) d = Some 0 \<and>
     fmlookup (hb_feeds s2) d = None \<and> received ch (cs_sent (hb_store s2)) = []"
proof -
  let ?s1 = "Replicator_new sample_store :: (sample_files, sample_feed, u64 list) hub_state"
  obtain t where t: "Corestore_get_by_name sample_ext [1] sample_store = (Inr 0, t)" using sample_get_by_name by blast
  then have open_run: "InnerCorestore_open_feed sample_ext None (Some [1]) sample_store = (Inr 0, t)"
    by (simp add: Corestore_get_by_name_def InnerCorestore_get_by_name_def)
  have store: "hb_store ?s1 = sample_store" "?s1\<lparr>hb_store := t\<rparr> = Replicator_new t" "fmlookup (hb_feeds ?s1) d = None" for d
    by (simp_all add: Replicator_new_def)
  obtain f where f: "deref (cs_heap t) 0 = Some f"
    using open_feed_valid [OF sample_feed_build_law sample_cs_inv sample_room open_run] by (auto simp: deref_def)
  have inv: "hub_inv sample_ext ?s1" by (rule hub_inv_new) (rule sample_cs_inv)
  have heap: "length (hb_heap ?s1) \<le> 0" unfolding store(1) by (simp add: sample_store_def)
  obtain ch rch s2 where sub: "replicate_subscribe (?s1\<lparr>hb_store := t\<rparr>) = (Inr (ch, rch), s2)"
    by (simp add: replicate_subscribe_def rust_bind_apply in_corestore_def Corestore_subscribe_run Replicator_subscribe_run rust_return_apply)
  from feed_opened_between_is_missed [OF sample_feed_build_law inv _ _ heap f refl store(3) sub, of "[1]"] t sample_room sub show ?thesis
    by (simp add: store) blast
qed

end
