(* ===== verification/Common_Paths.thy ===== *)
theory Common_Paths
  imports HS_Prelude
begin

section \<open>Paths shared by client and server (\<open>common/src/lib.rs\<close>)\<close>

text \<open>
  Both sides compute the path of the server's socket with \<open>socket_path\<close>; the system's directory for
  temporary files is an argument.
\<close>

definition SOCKET_NAME :: string where
  "SOCKET_NAME = ''hyperspace''"

text \<open>\<open>PathBuf::join\<close> on Unix: an absolute path replaces the directory.\<close>

definition path_join :: "string \<Rightarrow> string \<Rightarrow> string" where
  "path_join dir name =
     (if name \<noteq> [] \<and> hd name = CHR ''/'' then name
      else if dir = [] \<or> last dir = CHR ''/'' then dir @ name
      else dir @ ''/'' @ name)"

definition socket_path :: "string \<Rightarrow> string option \<Rightarrow> string" where
  "socket_path temp_dir socket_name =
     (let socket_name = (case socket_name of Some t \<Rightarrow> t | None \<Rightarrow> SOCKET_NAME) in
      path_join temp_dir (socket_name @ ''.sock''))"

end
