(* ===== verification/Server_App.thy ===== *)
theory Server_App
  imports Replicate_Store Server_Session_Props Common_Paths
begin

section \<open>The server (\<open>server/src/lib.rs\<close>, \<open>network.rs\<close>, \<open>options.rs\<close>, \<open>rpc/mod.rs\<close>, \<open>rpc/socket.rs\<close>)\<close>

text \<open>
  \<open>listen\<close> opens a corestore and runs three tasks: one replicates the corestore, one brings the
  connections of the swarm to the replicator, and one accepts clients on a socket and gives each a
  session.  \<open>daemon\<close> is the state the tasks share.

  The swarm, Unix sockets and the file system are the records \<open>net_ext\<close> and \<open>sock_ext\<close>; configurations of the
  swarm (\<open>'cfg\<close>) and sockets' streams (\<open>'c\<close>) are any types.  The temporary and the home directory are
  arguments.
\<close>

subsection \<open>Options and paths\<close>

record opts =
  op_storage :: "path option"
  op_host :: "string option"
  op_address :: "string option"
  op_bootstrap :: "string list"
  op_port :: "u32 option"
  op_dht :: bool
  op_verbose :: "32 word"

definition Opts_default :: opts where
  "Opts_default = \<lparr>op_storage = None, op_host = None, op_address = None, op_bootstrap = [], op_port = None, op_dht = False,
     op_verbose = 0\<rparr>"

definition STORAGE_DIR :: string where
  "STORAGE_DIR = ''.hyperspace-rs''"

definition storage_path :: "path option \<Rightarrow> opts \<Rightarrow> path result" where
  "storage_path home_dir opts =
     (case op_storage opts of
        Some p \<Rightarrow> Inr p
      | None \<Rightarrow>
          (case home_dir of
             None \<Rightarrow> Inl (Panic ''called Option::unwrap() on a None value'')
           | Some home \<Rightarrow> Inr (home @ [STORAGE_DIR])))"

subsection \<open>The shared state\<close>

record ('w, 'cfg) net_ext =
  nx_config_default :: 'cfg
  nx_set_bootstrap_nodes :: "string list \<Rightarrow> 'cfg \<Rightarrow> 'cfg"
  nx_bind :: "'cfg \<Rightarrow> ('w, unit) rust"

record ('w, 'c) sock_ext =
  sx_bind :: "string \<Rightarrow> ('w, unit) rust"
  sx_remove_file :: "string \<Rightarrow> ('w, unit) rust"
  sx_peer_addr :: "'c \<Rightarrow> ('w, unit) rust"

record ('w, 'f, 'bf) daemon =
  dm_hub :: "('w, 'f, 'bf) hub_state"
  dm_sessions :: "session list"
  dm_topics :: "bytes list"

definition in_hub :: "(('w, 'f, 'bf) hub_state, 'a) rust \<Rightarrow> (('w, 'f, 'bf) daemon, 'a) rust" where
  "in_hub m = (\<lambda>s. case m (dm_hub s) of (r, t) \<Rightarrow> (r, s\<lparr>dm_hub := t\<rparr>))"

definition in_system :: "('w, 'a) rust \<Rightarrow> (('w, 'f, 'bf) daemon, 'a) rust" where
  "in_system m = in_hub (in_corestore (in_world m))"

subsection \<open>The swarm\<close>

definition swarm_config_from_opts :: "('w, 'cfg) net_ext \<Rightarrow> opts \<Rightarrow> 'cfg" where
  "swarm_config_from_opts nx opts =
     (if length (op_bootstrap opts) > 0 then nx_set_bootstrap_nodes nx (op_bootstrap opts) (nx_config_default nx)
      else nx_config_default nx)"

datatype network_event = NetReplicator replicator_event | NetSwarm "fault option"

text \<open>
  A stream of the swarm is \<open>NetSwarm None\<close>, an error \<open>NetSwarm (Some e)\<close>.  Configuring a topic puts it on the
  list of topics the swarm announces and looks up.
\<close>

definition network_handle :: "network_event \<Rightarrow> (('w, 'f, 'bf) daemon, unit) rust" where
  "network_handle event =
     (case event of
        NetReplicator (ReplicatorFeed discovery_key) \<Rightarrow> rust_modify (\<lambda>s. s\<lparr>dm_topics := dm_topics s @ [discovery_key]\<rparr>)
      | NetReplicator (ReplicatorDiscoveryKey _) \<Rightarrow> rust_return ()
      | NetSwarm (Some e) \<Rightarrow> rust_fail e
      | NetSwarm None \<Rightarrow> in_hub Replicator_add_stream)"

definition network_run ::
  "('w, 'cfg) net_ext \<Rightarrow> opts \<Rightarrow> network_event list \<Rightarrow> (('w, 'f, 'bf) daemon, unit) rust" where
  "network_run nx opts events =
     rust_bind (in_system (nx_bind nx (swarm_config_from_opts nx opts))) (\<lambda>_.
     rust_bind (in_hub Replicator_subscribe) (\<lambda>_.
     rust_for network_handle events))"

subsection \<open>The socket\<close>

definition on_rpc_connection :: "('w, 'c) sock_ext \<Rightarrow> 'c \<Rightarrow> (('w, 'f, 'bf) daemon, unit) rust" where
  "on_rpc_connection sx stream =
     rust_bind (rust_unwrap (in_system (sx_peer_addr sx stream))) (\<lambda>_.
     rust_modify (\<lambda>s. s\<lparr>dm_sessions := dm_sessions s @ [Session_new]\<rparr>))"

text \<open>The body of the loop in \<open>accept\<close>.\<close>

definition accept_one ::
  "('c \<Rightarrow> (('w, 'f, 'bf) daemon, unit) rust) \<Rightarrow> fault + 'c \<Rightarrow> (('w, 'f, 'bf) daemon, unit) rust" where
  "accept_one onconnection stream = rust_bind (rust_lift stream) onconnection"

definition socket_listener :: "('w, 'c) sock_ext \<Rightarrow> string \<Rightarrow> (('w, 'f, 'bf) daemon, unit) rust" where
  "socket_listener sx p =
     rust_bind (rust_try (in_system (sx_bind sx p))) (\<lambda>listener.
     case listener of
       Some _ \<Rightarrow> rust_return ()
     | None \<Rightarrow>
         rust_bind (in_system (sx_remove_file sx p)) (\<lambda>_.
         in_system (sx_bind sx p)))"

definition socket_accept ::
  "('w, 'c) sock_ext \<Rightarrow> string \<Rightarrow> ('c \<Rightarrow> (('w, 'f, 'bf) daemon, unit) rust) \<Rightarrow> (fault + 'c) list \<Rightarrow> (('w, 'f, 'bf) daemon, unit) rust" where
  "socket_accept sx p onconnection incoming =
     rust_bind (socket_listener sx p) (\<lambda>_.
     rust_bind (rust_for (accept_one onconnection) incoming) (\<lambda>_.
     rust_unwrap (in_system (sx_remove_file sx p))))"

definition run_rpc ::
  "('w, 'c) sock_ext \<Rightarrow> string \<Rightarrow> (fault + 'c) list \<Rightarrow> (('w, 'f, 'bf) daemon, unit) rust" where
  "run_rpc sx p incoming = socket_accept sx p (on_rpc_connection sx) incoming"

subsection \<open>Listening\<close>

text \<open>\<open>listen\<close> up to the point where its three tasks run; it gives their state and the path of the socket.\<close>

definition listen_start ::
  "('w, 'f, 'st, 'h) cs_ext \<Rightarrow> path option \<Rightarrow> string \<Rightarrow> opts \<Rightarrow> 'w \<Rightarrow> (('w, 'f, 'bf) daemon \<times> string) result \<times> 'w" where
  "listen_start ext home_dir temp_dir opts w =
     (case storage_path home_dir opts of
        Inl e \<Rightarrow> (Inl e, w)
      | Inr storage \<Rightarrow>
          (case Corestore_open ext storage w of
             (Inl e, w') \<Rightarrow> (Inl e, w')
           | (Inr corestore, w') \<Rightarrow>
               (Inr (\<lparr>dm_hub = Replicator_new corestore, dm_sessions = [], dm_topics = []\<rparr>, socket_path temp_dir (op_host opts)), w')))"

text \<open>A step of session \<open>i\<close>, on the corestore all sessions share.\<close>

definition session_view :: "nat \<Rightarrow> ('w, 'f, 'bf) daemon \<Rightarrow> ('w, 'f) sv_state" where
  "session_view i s = \<lparr>sv_session = dm_sessions s ! i, sv_store = hb_store (dm_hub s)\<rparr>"

definition put_session :: "nat \<Rightarrow> ('w, 'f) sv_state \<Rightarrow> ('w, 'f, 'bf) daemon \<Rightarrow> ('w, 'f, 'bf) daemon" where
  "put_session i v s = s\<lparr>dm_sessions := (dm_sessions s)[i := sv_session v], dm_hub := (dm_hub s)\<lparr>hb_store := sv_store v\<rparr>\<rparr>"

text \<open>
  The tasks in parallel: the replication task, the network task, new clients, the requests and tasks of
  each client's session, and the replicator's own connections and peers, in any order.
\<close>

inductive daemon_step ::
  "('w, 'f, 'st, 'h) cs_ext \<Rightarrow> ('w, 'f, 'nd, 'sig) feed_api \<Rightarrow> 'w hub_ext \<Rightarrow> ('w, 'nd, 'sig, 'bf, 'sb) proto_ext \<Rightarrow>
   ('w, 'c) sock_ext \<Rightarrow> (client_event \<Rightarrow> ('w, unit) rust) \<Rightarrow> ('w, 'f, 'bf) daemon \<Rightarrow> ('w, 'f, 'bf) daemon \<Rightarrow> bool"
  for ext fa hx px sx call where
  snapshot: "in_hub (replicate_snapshot ext hx order) s = (r, s') \<Longrightarrow> daemon_step ext fa hx px sx call s s'"
| follow: "in_hub replicate_subscribe s = (rc, s') \<Longrightarrow> daemon_step ext fa hx px sx call s s'"
| replicate: "cs_room (hb_store (dm_hub s)) \<Longrightarrow> in_hub (replicate_handle ext hx ev) s = (r, s') \<Longrightarrow> daemon_step ext fa hx px sx call s s'"
| network: "network_handle nev s = (r, s') \<Longrightarrow> daemon_step ext fa hx px sx call s s'"
| client: "accept_one (on_rpc_connection sx) stream s = (r, s') \<Longrightarrow> daemon_step ext fa hx px sx call s s'"
| session: "i < length (dm_sessions s) \<Longrightarrow> session_step ext fa call (session_view i s) v \<Longrightarrow>
    daemon_step ext fa hx px sx call s (put_session i v s)"
| hub: "hub_step ext fa hx px (dm_hub s) t \<Longrightarrow> daemon_step ext fa hx px sx call s (s\<lparr>dm_hub := t\<rparr>)"

end
