(* ===== verification/Server_App_Props.thy ===== *)
theory Server_App_Props
  imports Server_App
begin

section \<open>The invariant of the server\<close>

text \<open>
  The invariant of the whole server: the replicator's invariant and the invariant of every session, on the
  corestore they share.  Every step of \<open>daemon_step\<close> keeps it, because no step removes a feed or changes its
  key.
\<close>

subsection \<open>Sessions and the keys of feeds\<close>

text \<open>No request and no task of a session removes a feed or changes its key.\<close>

abbreviation session_keys :: "('w, 'f, 'st, 'h) cs_ext \<Rightarrow> 'f store \<Rightarrow> ('w, 'f) sv_state \<Rightarrow> bool" where
  "session_keys ext h s \<equiv> keys_le ext h (sv_heap s)"

lemma keeps_in_store:
  assumes "\<And>t r t'. m t = (r, t') \<Longrightarrow> keys_le ext (cs_heap t) (cs_heap t')"
  shows "keeps (session_keys ext h) (in_store m)"
  using assms by (intro keepsI) (auto simp: in_store_def split: prod.splits intro: keys_le_trans)

lemma keeps_feed_call: "keeps_keys ext fa m \<Longrightarrow> keeps (session_keys ext h) (in_store (with_feed q m))"
  by (rule keeps_in_store) (rule keys_le_call)

lemma keeps_world: "keeps (session_keys ext h) (in_store (in_world m))"
  by (rule keeps_in_store) (auto simp: in_world_def split: prod.splits)

lemma keeps_set_session: "keeps (session_keys ext h) (set_session g)"
  by (intro keepsI) (simp add: set_session_run)

lemma open_feed_keys: "InnerCorestore_open_feed ext key name t = (r, t') \<Longrightarrow> keys_le ext (cs_heap t) (cs_heap t')"
  by (erule open_feed_memory) (auto simp: same_memD keys_le_append)

lemma keeps_open_feed: "keeps (session_keys ext h) (in_store (InnerCorestore_open_feed ext key name))"
  by (rule keeps_in_store) (rule open_feed_keys)

lemma keeps_fail: "keeps J (rust_fail e)"
  by (intro keepsI) (simp add: rust_fail_apply)

lemma keeps_find_feed: "keeps (session_keys ext h) (Session_find_feed ext req)"
  unfolding Session_find_feed_def Corestore_get_by_name_def InnerCorestore_get_by_name_def Corestore_get_by_key_def InnerCorestore_get_by_key_def
  by (simp add: keeps_fail keeps_open_feed split: option.split)

lemma keeps_peek: "keeps (session_keys ext h) (in_store (peek_feed q g))"
  by (rule keeps_in_store) (auto dest: peek_feed_any)

lemma keeps_core: "keeps (session_keys ext h) (Session_core cid)"
  by (intro keepsI) (simp add: Session_core_run split: option.split)

lemma keeps_notify_event: "keeps (session_keys ext h) (notify_event fa call cid q ev)"
  unfolding notify_event_def call_client_def
  by (auto split: feed_event.split prod.split simp: keeps_pure intro!: keeps_bind keeps_peek keeps_world keeps_set_session)

lemma session_keys_run: "keeps (session_keys ext (sv_heap s)) m \<Longrightarrow> m s = (r, v) \<Longrightarrow> keys_le ext (sv_heap s) (sv_heap v)"
  using keepsD [of "session_keys ext (sv_heap s)" m s] by simp

lemma session_step_keys:
  assumes keys: "feed_keys_kept ext fa" and step: "session_step ext fa call s v"
  shows "keys_le ext (sv_heap s) (sv_heap v)"
proof -
  note kept = keys [unfolded feed_keys_kept_def]
  from step show ?thesis
  proof cases
    case (req_open oreq ores)
    have "keeps (session_keys ext (sv_heap s)) (Session_open ext fa oreq)"
      unfolding Session_open_def spawn_notify_def Let_def
      by (intro keeps_bind keeps_find_feed keeps_set_session keeps_peek keeps_pure)
    then show ?thesis using req_open(2) by (rule session_keys_run)
  next
    case (req_get greq gres)
    have "keeps (session_keys ext (sv_heap s)) (Session_get fa greq)"
      unfolding Session_get_def using kept by (intro keeps_bind keeps_core keeps_feed_call [of ext fa] keeps_pure) simp
    then show ?thesis using req_get by (rule session_keys_run)
  next
    case (req_append areq ares)
    have "keeps (session_keys ext (sv_heap s)) (Session_append fa areq)"
      unfolding Session_append_def using kept
      by (intro keeps_bind keeps_core keeps_feed_call [of ext fa] keeps_keys_bind keeps_keys_for keeps_keys_get) simp
    then show ?thesis using req_append by (rule session_keys_run)
  next
    case (start t u)
    have "keeps (session_keys ext (sv_heap s)) (task_start fa t)"
      unfolding task_start_def using kept by (intro keeps_bind keeps_feed_call [of ext fa] keeps_set_session keeps_pure) simp
    then show ?thesis using start(3) by (rule session_keys_run)
  next
    case (event t c ev u)
    have "keeps (session_keys ext (sv_heap s)) (task_event fa call t ev)"
      unfolding task_event_def by (intro keeps_bind keeps_notify_event keeps_pure)
    then show ?thesis using event(3) by (rule session_keys_run)
  qed
qed

subsection \<open>Everything together\<close>

definition daemon_inv :: "('w, 'f, 'st, 'h) cs_ext \<Rightarrow> ('w, 'f, 'bf) daemon \<Rightarrow> bool" where
  "daemon_inv ext s \<longleftrightarrow> hub_inv ext (dm_hub s) \<and> (\<forall>i < length (dm_sessions s). session_inv ext (session_view i s))"

lemma hub_inv_store: "hub_inv ext s \<Longrightarrow> cs_inv ext (hb_store s)"
  by (simp add: hub_inv_def)

text \<open>The replicator and the corestore have moved on, no feed is gone: the sessions are still right.\<close>

lemma daemon_hub_change:
  assumes inv: "daemon_inv ext s" and hub: "hub_inv ext t" and keys: "keys_le ext (hb_heap (dm_hub s)) (hb_heap t)"
  shows "daemon_inv ext (s\<lparr>dm_hub := t\<rparr>)"
proof -
  have "session_inv ext (session_view i (s\<lparr>dm_hub := t\<rparr>))" if "i < length (dm_sessions s)" for i
    using session_inv_store [of ext "session_view i s" "hb_store t"] inv that hub_inv_store [OF hub] keys_le_length [OF keys]
    by (simp add: daemon_inv_def session_view_def)
  with hub show ?thesis by (simp add: daemon_inv_def)
qed

lemma in_hub_inv:
  assumes inv: "daemon_inv ext s" and run: "in_hub m s = (r, s')"
    and m: "\<And>t. m (dm_hub s) = (r, t) \<Longrightarrow> hub_inv ext t \<and> keys_le ext (hb_heap (dm_hub s)) (hb_heap t)"
  shows "daemon_inv ext s'"
  using run m daemon_hub_change [OF inv] by (auto simp: in_hub_def split: prod.splits)

lemma add_feed_keys: "Replicator_add_feed ext hx q s = (r, s') \<Longrightarrow> keys_le ext (hb_heap s) (hb_heap s')"
  by (drule hub_grows_add_feed) (simp add: hub_grows_def)

lemma add_feed_any:
  assumes "hub_inv ext t \<and> keys_le ext h (hb_heap t)"
  shows "hub_inv ext (snd (Replicator_add_feed ext hx q t)) \<and> keys_le ext h (hb_heap (snd (Replicator_add_feed ext hx q t)))"
proof -
  obtain r t' where run: "Replicator_add_feed ext hx q t = (r, t')" by (rule prod.exhaust)
  have "hub_inv ext t'" using assms run by (blast intro: add_feed_inv)
  moreover have "keys_le ext h (hb_heap t')" using assms add_feed_keys [OF run] by (blast intro: keys_le_trans)
  ultimately show ?thesis by (simp add: run)
qed

lemma snapshot_any:
  assumes "hub_inv ext s" and "replicate_snapshot ext hx order s = (r, s')"
  shows "hub_inv ext s' \<and> keys_le ext (hb_heap s) (hb_heap s')"
proof -
  let ?J = "\<lambda>t. hub_inv ext t \<and> keys_le ext (hb_heap s) (hb_heap t)"
  have "keeps ?J (Replicator_add_feed ext hx q)" for q
    by (intro keepsI) (rule add_feed_any)
  then have "keeps ?J (replicate_snapshot ext hx order)"
    unfolding replicate_snapshot_def by (intro keeps_bind keeps_for keeps_pure)
  from keepsD [OF this, of s] assms show ?thesis by simp
qed

lemma hub_store_change:
  assumes inv: "hub_inv ext s" and "cs_inv ext t" and "keys_le ext (hb_heap s) (cs_heap t)"
  shows "hub_inv ext (s\<lparr>hb_store := t\<rparr>)"
  by (intro hub_inv_frame [OF inv]) (use assms in \<open>simp_all add: peer_ids_def hub_inv_def hub_bus_ok_def\<close>)

lemma store_step_hub_inv:
  assumes law: "feed_build_law ext" and inv: "hub_inv ext s" and step: "corestore_step ext (hb_store s) t"
  shows "hub_inv ext (s\<lparr>hb_store := t\<rparr>) \<and> keys_le ext (hb_heap s) (cs_heap t)"
proof -
  obtain fs where "cs_heap t = hb_heap s @ fs" using corestore_step_heap [OF step] by blast
  then have keys: "keys_le ext (hb_heap s) (cs_heap t)" by (simp add: keys_le_append)
  moreover have "cs_inv ext t" using corestore_step_inv [OF law step] inv by (simp add: hub_inv_def)
  ultimately have "hub_inv ext (s\<lparr>hb_store := t\<rparr>)" using inv by (blast intro: hub_store_change)
  with keys show ?thesis by simp
qed

lemma subscribe_any:
  assumes law: "feed_build_law ext" and inv: "hub_inv ext s" and run: "replicate_subscribe s = (r, s')"
  shows "hub_inv ext s' \<and> keys_le ext (hb_heap s) (hb_heap s')"
proof -
  let ?t = "snd (Corestore_subscribe (hb_store s))"
  have "corestore_step ext (hb_store s) ?t" by (rule corestore_step.subscribe) (simp add: Corestore_subscribe_run)
  from store_step_hub_inv [OF law inv this] have "hub_inv ext (snd (Replicator_subscribe (s\<lparr>hb_store := ?t\<rparr>)))"
    by (intro replicator_subscribe_inv) simp
  then show ?thesis
    using run by (auto simp: replicate_subscribe_def rust_bind_apply in_corestore_def Corestore_subscribe_run Replicator_subscribe_run
        rust_return_apply)
qed

lemma replicate_handle_any:
  assumes law: "feed_build_law ext" and inv: "hub_inv ext s" and room: "cs_room (hb_store s)"
    and run: "replicate_handle ext hx ev s = (r, s')"
  shows "hub_inv ext s' \<and> keys_le ext (hb_heap s) (hb_heap s')"
proof (cases ev)
  case (StoreEv e)
  obtain q where "e = CorestoreFeed q" by (cases e)
  with run StoreEv have "Replicator_add_feed ext hx q s = (r, s')" by (simp add: replicate_handle_def)
  then show ?thesis using add_feed_inv [OF inv] add_feed_keys by blast
next
  case (HubEv e)
  from replicate_hub_event [OF run [unfolded HubEv] room] show ?thesis
    using inv store_step_hub_inv [OF law inv] by auto
qed

lemma hub_step_any:
  assumes "feed_build_law ext" "feed_keys_kept ext fa" and "hub_inv ext s" and "hub_step ext fa hx px s s'"
  shows "hub_inv ext s' \<and> keys_le ext (hb_heap s) (hb_heap s')"
  using hub_step_inv [OF assms] hub_step_grows [OF assms(2,4)] store_step_hub_inv [OF assms(1,3)]
  by (auto simp: hub_grows_def)

lemma in_system_inv:
  assumes inv: "daemon_inv ext s" and run: "in_system m s = (r, s')"
  shows "daemon_inv ext s'" and "dm_sessions s' = dm_sessions s"
proof -
  have hub: "hub_inv ext t \<and> keys_le ext (hb_heap (dm_hub s)) (hb_heap t)" if "in_corestore (in_world m) (dm_hub s) = (r, t)" for t
    using view_inv [OF view_in_world that] preservesD [OF view_in_world that] inv by (auto simp: daemon_inv_def)
  show "daemon_inv ext s'"
    using inv run [unfolded in_system_def] hub by (rule in_hub_inv)
  show "dm_sessions s' = dm_sessions s"
    using run by (auto simp: in_system_def in_hub_def split: prod.splits)
qed

lemma daemon_new_session:
  assumes "daemon_inv ext s"
  shows "daemon_inv ext (s\<lparr>dm_sessions := dm_sessions s @ [Session_new]\<rparr>)"
proof -
  have "cs_inv ext (hb_store (dm_hub s))" using assms by (simp add: daemon_inv_def hub_inv_def)
  then have "session_inv ext \<lparr>sv_session = Session_new, sv_store = hb_store (dm_hub s)\<rparr>"
    by (simp add: session_inv_def cores_ok_def tasks_ok_def Session_new_def)
  with assms show ?thesis by (auto simp: daemon_inv_def session_view_def nth_append less_Suc_eq)
qed

lemma accept_one_inv:
  assumes inv: "daemon_inv ext s" and run: "accept_one (on_rpc_connection sx) stream s = (r, s')"
  shows "daemon_inv ext s'"
proof (cases stream)
  case (Inl e)
  with run inv show ?thesis by (simp add: accept_one_def rust_bind_apply rust_lift_apply)
next
  case (Inr c)
  obtain r1 s1 where s1: "in_system (sx_peer_addr sx c) s = (r1, s1)" by fastforce
  have "daemon_inv ext s1" using inv s1 by (rule in_system_inv)
  moreover have "s' = s1 \<or> s' = s1\<lparr>dm_sessions := dm_sessions s1 @ [Session_new]\<rparr>"
    using run s1 by (auto simp: accept_one_def Inr on_rpc_connection_def rust_bind_apply rust_lift_apply rust_unwrap_apply rust_modify_apply
        split: sum.splits)
  ultimately show ?thesis using daemon_new_session by blast
qed

lemma session_put_inv:
  assumes laws: "feed_build_law ext" "feed_keys_kept ext fa" and inv: "daemon_inv ext s" and i: "i < length (dm_sessions s)"
    and step: "session_step ext fa call (session_view i s) v"
  shows "daemon_inv ext (put_session i v s)"
proof -
  have v: "session_inv ext v"
    using session.inv_step [OF _ step] inv i laws by (simp add: daemon_inv_def)
  have keys: "keys_le ext (hb_heap (dm_hub s)) (sv_heap v)"
    using session_step_keys [OF laws(2) step] by (simp add: session_view_def)
  have "hub_inv ext (dm_hub s)" using inv by (simp add: daemon_inv_def)
  moreover have "cs_inv ext (sv_store v)" using v by (simp add: session_inv_def)
  ultimately have hub: "hub_inv ext ((dm_hub s)\<lparr>hb_store := sv_store v\<rparr>)" using keys by (rule hub_store_change)
  have others: "daemon_inv ext (s\<lparr>dm_hub := (dm_hub s)\<lparr>hb_store := sv_store v\<rparr>\<rparr>)"
    using inv hub keys by (intro daemon_hub_change) simp_all
  have "session_inv ext (session_view j (put_session i v s))" if j: "j < length (dm_sessions s)" for j
  proof (cases "j = i")
    case True
    then have "session_view j (put_session i v s) = v" using i by (simp add: session_view_def put_session_def)
    with v show ?thesis by simp
  next
    case False
    then have "session_view j (put_session i v s) = session_view j (s\<lparr>dm_hub := (dm_hub s)\<lparr>hb_store := sv_store v\<rparr>\<rparr>)"
      by (simp add: session_view_def put_session_def)
    with others j show ?thesis by (simp add: daemon_inv_def)
  qed
  with hub show ?thesis by (simp add: daemon_inv_def put_session_def)
qed

lemma daemon_step_inv:
  assumes laws: "feed_build_law ext" "feed_keys_kept ext fa" and inv: "daemon_inv ext s" and step: "daemon_step ext fa hx px sx call s s'"
  shows "daemon_inv ext s'"
proof -
  have hub: "hub_inv ext (dm_hub s)" using inv by (simp add: daemon_inv_def)
  from step show ?thesis
  proof cases
    case (snapshot order r)
    then show ?thesis using in_hub_inv [OF inv] snapshot_any [OF hub] by blast
  next
    case (follow rc)
    then show ?thesis using in_hub_inv [OF inv] subscribe_any [OF laws(1) hub] by blast
  next
    case (replicate ev r)
    then show ?thesis using in_hub_inv [OF inv] replicate_handle_any [OF laws(1) hub] by blast
  next
    case (network nev r)
    then consider ds where "s' = s\<lparr>dm_topics := ds\<rparr>" | "s' = s" | "in_hub Replicator_add_stream s = (r, s')"
      by (auto simp: network_handle_def rust_simps split: network_event.splits replicator_event.splits option.splits)
    then show ?thesis
    proof cases
      case 3
      have "hub_inv ext t \<and> keys_le ext (hb_heap (dm_hub s)) (hb_heap t)" if "Replicator_add_stream (dm_hub s) = (r, t)" for t
        using that hub hub_inv_view [of t "dm_hub s" ext]
        by (auto simp: Replicator_add_stream_def Replicator_run_peer_def rust_modify_apply)
      then show ?thesis using in_hub_inv [OF inv 3] by blast
    qed (use inv in \<open>auto simp: daemon_inv_def session_view_def\<close>)
  next
    case (client stream r)
    then show ?thesis using accept_one_inv [OF inv] by blast
  next
    case (session i v)
    then show ?thesis using session_put_inv [OF laws inv] by blast
  next
    case (hub t)
    have "hub_inv ext t \<and> keys_le ext (hb_heap (dm_hub s)) (hb_heap t)"
      using hub_step_any [OF laws _ hub(2)] inv by (simp add: daemon_inv_def)
    then show ?thesis using daemon_hub_change [OF inv] unfolding hub(1) by blast
  qed
qed

lemma listen_start_inv:
  assumes "listen_start ext home tmp opts w = (Inr (s, sock), w')"
  shows "daemon_inv ext s"
proof -
  obtain p c where c: "Corestore_open ext p w = (Inr c, w')" and s: "dm_hub s = Replicator_new c" "dm_sessions s = []"
    using assms by (auto simp: listen_start_def split: sum.splits prod.splits)
  have "corestore_init ext p c" using c by (auto simp: corestore_init_def)
  then have "cs_inv ext c" by (rule corestore_init_inv)
  then show ?thesis by (simp add: daemon_inv_def s hub_inv_new)
qed

interpretation daemon: transition_system "\<lambda>s. \<exists>home tmp opts w sock w'. listen_start ext home tmp opts w = (Inr (s, sock), w')"
  "daemon_step ext fa hx px sx call" "\<lambda>s. feed_build_law ext \<longrightarrow> feed_keys_kept ext fa \<longrightarrow> daemon_inv ext s"
  for ext :: "('w, 'f, 'st, 'h) cs_ext" and fa :: "('w, 'f, 'nd, 'sig) feed_api" and hx and px :: "('w, 'nd, 'sig, 'bf, 'sb) proto_ext"
    and sx :: "('w, 'c) sock_ext" and call
  by unfold_locales (blast intro: listen_start_inv daemon_step_inv)+

end
