(* ===== verification/Server_App_Theorems.thy ===== *)
theory Server_App_Theorems
  imports Server_App_Props Server_Theorems
begin

section \<open>Properties of the server\<close>

text \<open>
  The invariant in every reachable state of the server, and the behaviour of the task that accepts clients
  and of the network task, failures included.
\<close>

subsection \<open>All tasks together\<close>

text \<open>
  C1. After \<open>listen\<close> has opened the corestore, however the replication task, the network task, the clients'
  connections and requests, the forwarding tasks, the connections and the peers interleave: the corestore's
  indices are right, every id a client has open leads to a feed of this corestore that is forwarded by a
  task of its own, and the replicator files every feed under the discovery key of its own public key.
\<close>

theorem daemon_reachable_sound:
  fixes s :: "('w, 'f, 'bf) daemon"
  assumes "feed_build_law ext" and "feed_keys_kept ext fa"
    and "listen_start ext home_dir temp_dir opts w = (Inr (s0, sock), w')"
    and "(daemon_step ext fa hx px sx call)\<^sup>*\<^sup>* s0 s"
  shows "cs_inv ext (hb_store (dm_hub s))
    \<and> (\<forall>i cid st. i < length (dm_sessions s) \<longrightarrow> fmlookup (ss_cores (dm_sessions s ! i)) cid = Some st \<longrightarrow>
        (\<exists>f. deref (hb_heap (dm_hub s)) (fs_feed st) = Some f) \<and>
        (\<exists>task \<in> set (ss_tasks (dm_sessions s ! i)). nt_id task = ucast cid \<and> nt_feed task = fs_feed st))
    \<and> (\<forall>d pd. fmlookup (hb_feeds (dm_hub s)) d = Some pd \<longrightarrow>
        (\<exists>f. deref (hb_heap (dm_hub s)) (pd_feed pd) = Some f \<and> x_discovery_key ext (x_feed_public_key ext f) = d))"
proof -
  have "\<exists>home tmp opts w sock w'. listen_start ext home tmp opts w = (Inr (s0, sock), w')" using assms(3) by blast
  from daemon.inv_reachable [OF this assms(4)] assms(1,2) have inv: "daemon_inv ext s" by blast
  then have hub: "hub_inv ext (dm_hub s)" by (simp add: daemon_inv_def)
  have "(\<exists>f. deref (hb_heap (dm_hub s)) (fs_feed st) = Some f) \<and>
      (\<exists>task \<in> set (ss_tasks (dm_sessions s ! i)). nt_id task = ucast cid \<and> nt_feed task = fs_feed st)"
    if "i < length (dm_sessions s)" "fmlookup (ss_cores (dm_sessions s ! i)) cid = Some st" for i cid st
  proof -
    have "cores_ok (session_view i s)" using inv that(1) by (simp add: daemon_inv_def session_inv_def)
    with that(2) show ?thesis by (auto simp: cores_ok_def session_view_def deref_def) (metis nth_mem)
  qed
  moreover have "\<exists>f. deref (hb_heap (dm_hub s)) (pd_feed pd) = Some f \<and> x_discovery_key ext (x_feed_public_key ext f) = d"
    if "fmlookup (hb_feeds (dm_hub s)) d = Some pd" for d pd
  proof -
    have "peered_ok ext (hb_heap (dm_hub s)) (peer_ids (dm_hub s)) d pd" using hub that by (simp add: hub_inv_def)
    then show ?thesis by (auto simp: peered_ok_def cell_key_def)
  qed
  ultimately show ?thesis using hub_inv_store [OF hub] by blast
qed

definition sample_sock :: "(sample_files, unit) sock_ext" where
  "sample_sock = \<lparr>sx_bind = (\<lambda>p w. (Inr (), w)), sx_remove_file = (\<lambda>p w. (Inr (), w)), sx_peer_addr = (\<lambda>c w. (Inr (), w))\<rparr>"

definition sample_daemon :: "session list \<Rightarrow> (sample_files, sample_feed, u64 list) daemon" where
  "sample_daemon sessions = \<lparr>dm_hub = Replicator_new sample_opened, dm_sessions = sessions, dm_topics = []\<rparr>"

lemma sample_listen:
  "listen_start sample_ext None ''/tmp'' (Opts_default\<lparr>op_storage := Some [''store'']\<rparr>) (\<lambda>_. []) =
     (Inr (sample_daemon [], ''/tmp/hyperspace.sock''), cs_world sample_opened)"
  by (simp add: listen_start_def storage_path_def Opts_default_def sample_open sample_daemon_def socket_path_def path_join_def SOCKET_NAME_def)

lemma sample_accept: "accept_one (on_rpc_connection sample_sock) (Inr ()) (sample_daemon ss) = (Inr (), sample_daemon (ss @ [Session_new]))"
  by (simp add: accept_one_def on_rpc_connection_def rust_simps in_system_def in_hub_def in_corestore_def in_world_def sample_sock_def
      sample_daemon_def Replicator_new_def)

lemma sample_opened_get_by_key:
  "\<exists>t f. Corestore_get_by_key sample_ext (replicate 32 5) sample_opened = (Inr 0, t) \<and> deref (cs_heap t) 0 = Some f"
  by (simp add: corestore_run_simps rust_simps sample_ext_def sample_opened_def sample_store_def FeedMap_new_def Let_def deref_def)

theorem daemon_reachable_sound_witness:
  "\<exists>s st f. (daemon_step sample_ext sample_api sample_hub_ext sample_proto sample_sock (\<lambda>m w. (Inr (), w)))\<^sup>*\<^sup>* (sample_daemon []) s \<and>
     fmlookup (ss_cores (dm_sessions s ! 0)) 1 = Some st \<and> deref (hb_heap (dm_hub s)) (fs_feed st) = Some f"
proof -
  let ?step = "daemon_step sample_ext sample_api sample_hub_ext sample_proto sample_sock (\<lambda>m w. (Inr (), w))"
  let ?s = "sample_daemon [Session_new]"
  let ?v = "\<lparr>sv_session = Session_new, sv_store = sample_opened\<rparr>"
  let ?req = "\<lparr>or_id = 1, or_key = Some (replicate 32 5), or_name = None, or_weak = None\<rparr> :: open_request"
  have first: "?step (sample_daemon []) ?s" by (rule daemon_step.client [OF sample_accept [of "[]", simplified]])
  have view: "session_view 0 ?s = ?v" by (simp add: session_view_def sample_daemon_def Replicator_new_def)
  obtain t f where t: "Corestore_get_by_key sample_ext (replicate 32 5) sample_opened = (Inr 0, t)" "deref (cs_heap t) 0 = Some f"
    using sample_opened_get_by_key by blast
  then have "Session_find_feed sample_ext ?req ?v = (Inr 0, ?v\<lparr>sv_store := t\<rparr>)"
    by (simp add: Session_find_feed_def in_store_def)
  from Session_open_run [OF this, of f sample_api] t(2) obtain resp v where v: "Session_open sample_ext sample_api ?req ?v = (Inr resp, v)"
      "fmlookup (sv_cores v) 1 \<noteq> None" by (auto simp: with_core_def)
  have "cs_room (sv_store ?v)" using sample_room by (simp add: sample_opened_def)
  then have "session_step sample_ext sample_api (\<lambda>m w. (Inr (), w)) (session_view 0 ?s) v"
    unfolding view using v(1) by (rule session_step.req_open)
  then have "?step ?s (put_session 0 v ?s)" by (intro daemon_step.session) (simp_all add: sample_daemon_def)
  with first have run: "?step\<^sup>*\<^sup>* (sample_daemon []) (put_session 0 v ?s)" by (blast intro: rtranclp_trans)
  have core: "dm_sessions (put_session 0 v ?s) ! 0 = sv_session v" "0 < length (dm_sessions (put_session 0 v ?s))"
    by (simp_all add: put_session_def sample_daemon_def)
  from v(2) obtain st where "fmlookup (ss_cores (dm_sessions (put_session 0 v ?s) ! 0)) 1 = Some st" unfolding core by blast
  with daemon_reachable_sound [OF sample_feed_build_law sample_keys_kept sample_listen run] core(2) run show ?thesis by blast
qed

subsection \<open>Clients\<close>

lemma accept_all:
  assumes "\<forall>c \<in> set cs. \<forall>w. \<exists>w'. sx_peer_addr sx c w = (Inr (), w')"
  shows "\<exists>s'. rust_for (accept_one (on_rpc_connection sx)) (map Inr cs) s = (Inr (), s') \<and>
    rust_for (on_rpc_connection sx) cs s = (Inr (), s') \<and> dm_sessions s' = dm_sessions s @ replicate (length cs) Session_new \<and>
    hb_feeds (dm_hub s') = hb_feeds (dm_hub s) \<and> cs_inner (hb_store (dm_hub s')) = cs_inner (hb_store (dm_hub s))"
  using assms
proof (induction cs arbitrary: s)
  case Nil
  then show ?case by (simp add: rust_return_apply)
next
  case (Cons c cs)
  obtain w where w: "sx_peer_addr sx c (cs_world (hb_store (dm_hub s))) = (Inr (), w)"
    using Cons.prems by (metis list.set_intros(1))
  let ?hub = "(dm_hub s)\<lparr>hb_store := (hb_store (dm_hub s))\<lparr>cs_world := w\<rparr>\<rparr>"
  let ?s = "s\<lparr>dm_hub := ?hub, dm_sessions := dm_sessions s @ [Session_new]\<rparr>"
  have run: "on_rpc_connection sx c s = (Inr (), ?s)"
    using w by (simp add: on_rpc_connection_def rust_bind_apply rust_unwrap_apply rust_modify_apply in_system_def in_hub_def
        in_corestore_def in_world_def)
  moreover have "accept_one (on_rpc_connection sx) (Inr c) s = (Inr (), ?s)"
    using run by (simp add: accept_one_def rust_bind_apply rust_lift_apply)
  ultimately show ?case using Cons.IH [of ?s] Cons.prems by (auto simp: rust_bind_apply replicate_append_same [symmetric])
qed

text \<open>
  C29. Every client that connects gets a session of its own.  The first connection that fails ends \<open>accept\<close>
  with its error: clients that come later are not served, and the socket's file is left in place.
\<close>

theorem accept_ends_at_failure:
  assumes "socket_listener sx p s = (Inr (), s1)" and "\<forall>c \<in> set cs. \<forall>w. \<exists>w'. sx_peer_addr sx c w = (Inr (), w')"
  shows "\<exists>s'. run_rpc sx p (map Inr cs @ Inl e # rest) s = (Inl e, s') \<and> rust_for (on_rpc_connection sx) cs s1 = (Inr (), s') \<and>
    dm_sessions s' = dm_sessions s1 @ replicate (length cs) Session_new"
proof -
  obtain s' where "rust_for (accept_one (on_rpc_connection sx)) (map Inr cs) s1 = (Inr (), s')"
      "rust_for (on_rpc_connection sx) cs s1 = (Inr (), s')" "dm_sessions s' = dm_sessions s1 @ replicate (length cs) Session_new"
    using accept_all [OF assms(2), of s1] by blast
  then show ?thesis
    using assms(1) by (simp add: run_rpc_def socket_accept_def rust_bind_apply rust_for_append accept_one_def [of _ "Inl e"] rust_lift_apply)
qed

text \<open>A socket whose file was left by an earlier run: the first \<open>bind\<close> fails, the second one succeeds.\<close>

definition stale_sock :: "(sample_files, unit) sock_ext" where
  "stale_sock = sample_sock\<lparr>
     sx_bind := (\<lambda>p w. if w [p] = [] then (Inr (), w) else (Inl (IoError ''Address already in use''), w)),
     sx_remove_file := (\<lambda>p w. (Inr (), w([p] := [])))\<rparr>"

definition stale_daemon :: "(sample_files, sample_feed, u64 list) daemon" where
  "stale_daemon = \<lparr>dm_hub = Replicator_new (sample_store\<lparr>cs_world := (\<lambda>_. [])([''/tmp/hyperspace.sock''] := [1])\<rparr>), dm_sessions = [],
     dm_topics = []\<rparr>"

theorem accept_ends_at_failure_witness:
  "\<exists>s1 s'. socket_listener stale_sock ''/tmp/hyperspace.sock'' stale_daemon = (Inr (), s1) \<and>
     run_rpc stale_sock ''/tmp/hyperspace.sock'' [Inr (), Inr (), Inl (IoError ''aborted''), Inr ()] stale_daemon =
       (Inl (IoError ''aborted''), s') \<and> dm_sessions s' = [Session_new, Session_new]"
proof -
  have "\<exists>s1. socket_listener stale_sock ''/tmp/hyperspace.sock'' stale_daemon = (Inr (), s1) \<and> dm_sessions s1 = []"
    by (simp add: socket_listener_def rust_simps in_system_def in_hub_def in_corestore_def in_world_def stale_sock_def sample_sock_def
        stale_daemon_def Replicator_new_def sample_store_def)
  then obtain s1 where s1: "socket_listener stale_sock ''/tmp/hyperspace.sock'' stale_daemon = (Inr (), s1)" "dm_sessions s1 = []" by blast
  have "\<forall>c \<in> set [(), ()]. \<forall>w. \<exists>w'. sx_peer_addr stale_sock c w = (Inr (), w')" by (simp add: stale_sock_def sample_sock_def)
  from accept_ends_at_failure [OF s1(1) this, of "IoError ''aborted''" "[Inr ()]"] s1 show ?thesis by (auto simp: numeral_2_eq_2)
qed

subsection \<open>The swarm\<close>

fun topic_of :: "network_event \<Rightarrow> bytes option" where
  "topic_of (NetReplicator (ReplicatorFeed d)) = Some d"
| "topic_of _ = None"

lemma network_events:
  assumes "\<forall>ev \<in> set es. \<forall>e. ev \<noteq> NetSwarm (Some e)"
  shows "\<exists>s'. rust_for network_handle es s = (Inr (), s') \<and> dm_topics s' = dm_topics s @ List.map_filter topic_of es \<and>
    length (hb_tasks (dm_hub s')) = length (hb_tasks (dm_hub s)) + count_list es (NetSwarm None) \<and>
    hb_feeds (dm_hub s') = hb_feeds (dm_hub s) \<and> hb_store (dm_hub s') = hb_store (dm_hub s) \<and> dm_sessions s' = dm_sessions s"
  using assms
proof (induction es arbitrary: s)
  case Nil
  then show ?case by (simp add: rust_return_apply List.map_filter_simps)
next
  case (Cons ev es)
  obtain s1 where s1: "network_handle ev s = (Inr (), s1)" "dm_topics s1 = dm_topics s @ List.map_filter topic_of [ev]"
      "length (hb_tasks (dm_hub s1)) = length (hb_tasks (dm_hub s)) + count_list [ev] (NetSwarm None)"
      "hb_feeds (dm_hub s1) = hb_feeds (dm_hub s)" "hb_store (dm_hub s1) = hb_store (dm_hub s)" "dm_sessions s1 = dm_sessions s"
    using Cons.prems by (cases ev rule: topic_of.cases) (auto simp: network_handle_def rust_modify_apply rust_return_apply in_hub_def
        Replicator_add_stream_def Replicator_run_peer_def List.map_filter_simps)
  have "\<forall>ev \<in> set es. \<forall>e. ev \<noteq> NetSwarm (Some e)" using Cons.prems by simp
  then obtain s' where s': "rust_for network_handle es s1 = (Inr (), s')" "dm_topics s' = dm_topics s1 @ List.map_filter topic_of es"
      "length (hb_tasks (dm_hub s')) = length (hb_tasks (dm_hub s1)) + count_list es (NetSwarm None)"
      "hb_feeds (dm_hub s') = hb_feeds (dm_hub s1)" "hb_store (dm_hub s') = hb_store (dm_hub s1)" "dm_sessions s' = dm_sessions s1"
    by (rule exE [OF Cons.IH [of s1]]) (elim conjE)
  show ?case
    by (rule exI [of _ s']) (use s1 s' in \<open>simp add: rust_bind_apply List.map_filter_simps split: option.split\<close>)
qed

text \<open>
  C28. Once the swarm is bound, \<open>network::run\<close> announces exactly the feeds the replicator reports, in their
  order, and starts one connection for every stream of the swarm, changing nothing else.  The first
  stream that fails ends it with its error, and what was done before stays.
\<close>

theorem network_run_follows:
  fixes s :: "('w, 'f, 'bf) daemon"
  assumes "nx_bind nx (swarm_config_from_opts nx opts) (cs_world (hb_store (dm_hub s))) = (Inr (), w)"
    and "\<forall>ev \<in> set es. \<forall>e. ev \<noteq> NetSwarm (Some e)"
  shows "\<exists>s'. network_run nx opts es s = (Inr (), s') \<and> network_run nx opts (es @ NetSwarm (Some e) # rest) s = (Inl e, s') \<and>
    dm_topics s' = dm_topics s @ List.map_filter topic_of es \<and>
    length (hb_tasks (dm_hub s')) = length (hb_tasks (dm_hub s)) + count_list es (NetSwarm None) \<and>
    hb_feeds (dm_hub s') = hb_feeds (dm_hub s) \<and> hb_store (dm_hub s') = (hb_store (dm_hub s))\<lparr>cs_world := w\<rparr> \<and>
    dm_sessions s' = dm_sessions s"
proof -
  let ?bound = "s\<lparr>dm_hub := (dm_hub s)\<lparr>hb_store := (hb_store (dm_hub s))\<lparr>cs_world := w\<rparr>\<rparr>\<rparr>"
  let ?t = "?bound\<lparr>dm_hub := snd (Replicator_subscribe (dm_hub ?bound))\<rparr>"
  have start: "network_run nx opts events s = rust_for network_handle events ?t" for events
    using assms(1) by (simp add: network_run_def rust_bind_apply in_system_def in_hub_def in_corestore_def in_world_def
        Replicator_subscribe_run)
  obtain s' where s': "rust_for network_handle es ?t = (Inr (), s')" "dm_topics s' = dm_topics ?t @ List.map_filter topic_of es"
      "length (hb_tasks (dm_hub s')) = length (hb_tasks (dm_hub ?t)) + count_list es (NetSwarm None)"
      "hb_feeds (dm_hub s') = hb_feeds (dm_hub ?t)" "hb_store (dm_hub s') = hb_store (dm_hub ?t)" "dm_sessions s' = dm_sessions ?t"
    using network_events [OF assms(2), of ?t] by (elim exE conjE)
  have failed: "network_run nx opts (es @ NetSwarm (Some e) # rest) s = (Inl e, s')"
    unfolding start using s'(1) by (simp add: rust_for_append rust_bind_apply network_handle_def rust_fail_apply)
  show ?thesis
    by (rule exI [of _ s']) (use s' failed start in \<open>simp add: Replicator_subscribe_run\<close>)
qed

theorem network_run_follows_witness:
  "\<exists>s'. network_run \<lparr>nx_config_default = [], nx_set_bootstrap_nodes = (\<lambda>ns _. ns), nx_bind = (\<lambda>_ w. (Inr (), w))\<rparr>
      (Opts_default\<lparr>op_bootstrap := [''node'']\<rparr>)
      [NetReplicator (ReplicatorFeed [1]), NetSwarm None, NetReplicator (ReplicatorFeed [2]), NetSwarm (Some (IoError ''refused'')),
       NetReplicator (ReplicatorFeed [3])] (sample_daemon []) = (Inl (IoError ''refused''), s') \<and>
    dm_topics s' = [[1], [2]] \<and> length (hb_tasks (dm_hub s')) = 1"
proof -
  let ?nx = "\<lparr>nx_config_default = [], nx_set_bootstrap_nodes = (\<lambda>ns _. ns), nx_bind = (\<lambda>_ w. (Inr (), w))\<rparr> :: (sample_files, string list) net_ext"
  let ?es = "[NetReplicator (ReplicatorFeed [1]), NetSwarm None, NetReplicator (ReplicatorFeed [2])]"
  have "nx_bind ?nx (swarm_config_from_opts ?nx (Opts_default\<lparr>op_bootstrap := [''node'']\<rparr>)) w = (Inr (), w)" for w by simp
  moreover have "\<forall>ev \<in> set ?es. \<forall>e. ev \<noteq> NetSwarm (Some e)" by simp
  ultimately show ?thesis
    using network_run_follows [of ?nx "Opts_default\<lparr>op_bootstrap := [''node'']\<rparr>" "sample_daemon []" _ ?es "IoError ''refused''"
        "[NetReplicator (ReplicatorFeed [3])]"]
    by (auto simp: sample_daemon_def Replicator_new_def List.map_filter_simps)
qed

end
