(* ===== verification/Client_App.thy ===== *)
theory Client_App
  imports Remote_Core Streams Common_Paths
begin

section \<open>The command-line client (\<open>client/src/bin.rs\<close>, \<open>client/src/lib.rs\<close>)\<close>

text \<open>
  The client connects to the server's socket, opens a feed by key or name, and then copies the feed to its
  output or its input to the feed.  Connecting, \<open>hex::decode\<close> and \<open>io::copy\<close> are arguments.  The input is a
  state of any type \<open>'i\<close> with a function \<open>reader\<close>: \<open>reader n\<close> reads at most \<open>n\<close> bytes and returns them, none
  at the end of the input.  The loop in \<open>write\<close> has no exit but an error, so \<open>client_write\<close> is a partial
  function whose value \<open>None\<close> is a run that does not return.
\<close>

datatype command = CmdRead | CmdWrite

record client_opts =
  co_key :: "string option"
  co_name :: "string option"
  co_host :: "string option"
  co_command :: command

subsection \<open>Opening\<close>

definition open_corestore :: "(string \<Rightarrow> ('w, unit) rust) \<Rightarrow> string \<Rightarrow> string option \<Rightarrow> 'w \<Rightarrow> 'w cl_state result \<times> 'w" where
  "open_corestore connect temp_dir host w =
     (case connect (socket_path temp_dir host) w of
        (Inl e, w') \<Rightarrow> (Inl e, w')
      | (Inr _, w') \<Rightarrow> (Inr (RemoteCorestore_new w'), w'))"

definition client_core :: "'w cl_ext \<Rightarrow> (string \<Rightarrow> bytes option) \<Rightarrow> client_opts \<Rightarrow> ('w cl_state, ref) rust" where
  "client_core ext hex_decode opts =
     (case (co_key opts, co_name opts) of
        (Some key, _) \<Rightarrow>
          (case hex_decode key of
             None \<Rightarrow> rust_fail (IoError ''Invalid key'')
           | Some key \<Rightarrow>
               if length key \<noteq> 32 then
                 rust_fail (IoError (''Invalid key: Must be 32 bytes long, not '' @ decimal (length key) @ ''.''))
               else RemoteCorestore_open_by_key ext key)
      | (None, Some name) \<Rightarrow> RemoteCorestore_open_by_name ext name
      | (None, None) \<Rightarrow> rust_fail (IoError ''Either key or name is required''))"

subsection \<open>Reading and writing\<close>

type_synonym ('w, 'i) client_run = "(unit result \<times> 'w cl_state \<times> 'i) option"

definition client_read :: "(read_stream \<Rightarrow> 'w cl_state \<times> 'i \<Rightarrow> ('w, 'i) client_run) \<Rightarrow> ref \<Rightarrow> 'w cl_state \<times> 'i \<Rightarrow> ('w, 'i) client_run" where
  "client_read copy q x = copy (RemoteHypercore_to_stream q 0 None True) x"

definition WRITE_BUFFER :: nat where
  "WRITE_BUFFER = 1024 * 1024"

partial_function (option) client_write ::
  "'w cl_ext \<Rightarrow> (nat \<Rightarrow> ('i, bytes) rust) \<Rightarrow> ref \<Rightarrow> 'w cl_state \<times> 'i \<Rightarrow> ('w, 'i) client_run" where
  "client_write ext reader q x =
     (case reader WRITE_BUFFER (snd x) of
        (Inl e, i) \<Rightarrow> Some (Inl e, fst x, i)
      | (Inr chunk, i) \<Rightarrow>
          if length chunk > 0 then
            (case RemoteHypercore_append ext [chunk] q (fst x) of
               (Inl e, s) \<Rightarrow> Some (Inl e, s, i)
             | (Inr _, s) \<Rightarrow> client_write ext reader q (s, i))
          else client_write ext reader q (fst x, i))"

subsection \<open>The program\<close>

text \<open>
  \<open>async_main\<close>; its result comes with the world and the input it leaves.  The log line after opening reads
  the feed's key.
\<close>

definition async_main ::
  "'w cl_ext \<Rightarrow> (string \<Rightarrow> ('w, unit) rust) \<Rightarrow> (string \<Rightarrow> bytes option) \<Rightarrow>
   (read_stream \<Rightarrow> 'w cl_state \<times> 'i \<Rightarrow> ('w, 'i) client_run) \<Rightarrow> (nat \<Rightarrow> ('i, bytes) rust) \<Rightarrow> string \<Rightarrow> client_opts \<Rightarrow>
   'w \<Rightarrow> 'i \<Rightarrow> (unit result \<times> 'w \<times> 'i) option" where
  "async_main ext connect hex_decode copy reader temp_dir opts w i =
     (case open_corestore connect temp_dir (co_host opts) w of
        (Inl e, w) \<Rightarrow> Some (Inl e, w, i)
      | (Inr s, w) \<Rightarrow>
          (case rust_bind (client_core ext hex_decode opts) (\<lambda>core.
                rust_bind (RemoteHypercore_key core) (\<lambda>_. rust_return core)) s of
             (Inl e, s) \<Rightarrow> Some (Inl e, cl_world s, i)
           | (Inr core, s) \<Rightarrow>
               map_option (\<lambda>(r, s, i). (r, cl_world s, i))
                 (case co_command opts of
                    CmdRead \<Rightarrow> client_read copy core (s, i)
                  | CmdWrite \<Rightarrow> client_write ext reader core (s, i))))"

end
