(* ===== verification/Client_App_Theorems.thy ===== *)
theory Client_App_Theorems
  imports Client_App End_To_End
begin

section \<open>Properties of the command-line client\<close>

text \<open>
  How the command-line client treats its arguments, that its write loop stores the input chunk by chunk as
  blocks of the feed on the server, and that the loop does not return at the end of the input.
\<close>

subsection \<open>Arguments\<close>

text \<open>
  Whatever is wrong with the arguments is reported before the server is asked for anything: neither a
  key nor a name, a key that is not hexadecimal, a key that is not 32 bytes long.  A socket that cannot
  be reached is reported with the system's error, and a key takes precedence over a name.
\<close>

theorem async_main_refuses:
  fixes w w' :: 'w and i :: 'i
  assumes "connect (socket_path temp_dir (co_host opts)) w = (r, w')"
  shows "(\<forall>e. r = Inl e \<longrightarrow> async_main ext connect hex_decode copy reader temp_dir opts w i = Some (Inl e, w', i)) \<and>
    (r = Inr () \<longrightarrow>
      (co_key opts = None \<longrightarrow> co_name opts = None \<longrightarrow>
         async_main ext connect hex_decode copy reader temp_dir opts w i = Some (Inl (IoError ''Either key or name is required''), w', i)) \<and>
      (\<forall>k. co_key opts = Some k \<longrightarrow> hex_decode k = None \<longrightarrow>
         async_main ext connect hex_decode copy reader temp_dir opts w i = Some (Inl (IoError ''Invalid key''), w', i)) \<and>
      (\<forall>k b. co_key opts = Some k \<longrightarrow> hex_decode k = Some b \<longrightarrow> length b \<noteq> 32 \<longrightarrow>
         async_main ext connect hex_decode copy reader temp_dir opts w i =
           Some (Inl (IoError (''Invalid key: Must be 32 bytes long, not '' @ decimal (length b) @ ''.'')), w', i)) \<and>
      (\<forall>n. async_main ext connect hex_decode copy reader temp_dir opts w i =
         async_main ext connect hex_decode copy reader temp_dir (if co_key opts = None then opts else opts\<lparr>co_name := n\<rparr>) w i))"
proof -
  note simps = async_main_def open_corestore_def assms client_core_def rust_bind_apply rust_fail_apply RemoteCorestore_new_def
  have "async_main ext connect hex_decode copy reader temp_dir opts w i =
      async_main ext connect hex_decode copy reader temp_dir (opts\<lparr>co_name := n\<rparr>) w i" if "r = Inr ()" "co_key opts = Some k" for n k
    using that by (simp add: async_main_def open_corestore_def assms client_core_def cong: prod.case_cong sum.case_cong)
  then show ?thesis by (auto simp: simps)
qed

theorem async_main_refuses_witness:
  "async_main sample_rpc (\<lambda>p w. (Inr (), w)) (\<lambda>s. Some (map of_char s)) (\<lambda>rs x. None) (\<lambda>n i. (Inr [], i)) ''/tmp''
     \<lparr>co_key = Some ''ab'', co_name = Some ''n'', co_host = None, co_command = CmdRead\<rparr> [] () =
     Some (Inl (IoError ''Invalid key: Must be 32 bytes long, not 2.''), [], ())"
proof -
  let ?opts = "\<lparr>co_key = Some ''ab'', co_name = Some ''n'', co_host = None, co_command = CmdRead\<rparr> :: client_opts"
  have "decimal (Suc (Suc 0)) = ''2''" by code_simp
  with async_main_refuses [of "\<lambda>p w. (Inr (), w)" "''/tmp''" ?opts "[]" "Inr ()" "[]" sample_rpc "\<lambda>s. Some (map of_char s)"
      "\<lambda>rs x. None" "\<lambda>n i. (Inr [], i)" "()"] show ?thesis by simp
qed

subsection \<open>Writing\<close>

text \<open>The input returns the chunks \<open>cs\<close>, one per read, on its way from \<open>i\<close> to \<open>j\<close>.\<close>

fun yields :: "(nat \<Rightarrow> ('i, bytes) rust) \<Rightarrow> 'i \<Rightarrow> bytes list \<Rightarrow> 'i \<Rightarrow> bool" where
  "yields reader i [] j \<longleftrightarrow> i = j"
| "yields reader i (c # cs) j \<longleftrightarrow>
     (case reader WRITE_BUFFER i of (Inl e, k) \<Rightarrow> False | (Inr b, k) \<Rightarrow> b = c \<and> yields reader k cs j)"

abbreviation append_chunks :: "'w cl_ext \<Rightarrow> ref \<Rightarrow> bytes list \<Rightarrow> ('w cl_state, unit) rust" where
  "append_chunks ext q cs \<equiv> rust_for (\<lambda>c. RemoteHypercore_append ext [c] q) (filter (\<lambda>c. c \<noteq> []) cs)"

text \<open>The loop goes on from where the input has yielded \<open>cs\<close>.\<close>

lemma client_write_chunks:
  assumes "yields reader i cs j" and "append_chunks ext q cs s = (Inr (), s')"
  shows "client_write ext reader q (s, i) = client_write ext reader q (s', j)"
  using assms
proof (induction cs arbitrary: i s)
  case Nil
  then show ?case by (simp add: rust_return_apply)
next
  case (Cons c cs)
  obtain k where k: "reader WRITE_BUFFER i = (Inr c, k)" "yields reader k cs j"
    using Cons.prems(1) by (auto split: prod.splits sum.splits)
  show ?case
  proof (cases "c = []")
    case True
    have "client_write ext reader q (s, i) = client_write ext reader q (s, k)"
      using k(1) True by (subst client_write.simps) simp
    with Cons.IH [OF k(2)] Cons.prems(2) True show ?thesis by simp
  next
    case False
    then obtain s1 where s1: "RemoteHypercore_append ext [c] q s = (Inr (), s1)" "append_chunks ext q cs s1 = (Inr (), s')"
      using Cons.prems(2) by (auto elim!: rust_bind_InrE)
    have "client_write ext reader q (s, i) = client_write ext reader q (s1, k)"
      using k(1) s1(1) False by (subst client_write.simps) simp
    with Cons.IH [OF k(2) s1(2)] show ?thesis by simp
  qed
qed

lemma append_chunks_connected:
  assumes "feed_blocks fa block" and "connected fa block q bs s"
    and "append_chunks (session_rpc ext fa seek hex alive) q cs s = (Inr (), s')"
  shows "connected fa block q (bs @ filter (\<lambda>c. c \<noteq> []) cs) s'"
  using assms(2,3)
proof (induction cs arbitrary: bs s)
  case Nil
  then show ?case by (simp add: rust_return_apply)
next
  case (Cons c cs)
  show ?case
  proof (cases "c = []")
    case True
    with Cons show ?thesis by simp
  next
    case False
    then obtain s1 where s1: "RemoteHypercore_append (session_rpc ext fa seek hex alive) [c] q s = (Inr (), s1)"
        "append_chunks (session_rpc ext fa seek hex alive) q cs s1 = (Inr (), s')"
      using Cons.prems(2) by (auto elim!: rust_bind_InrE)
    from Cons.IH [OF connected_append [OF assms(1) Cons.prems(1) s1(1)] s1(2)] False show ?thesis by simp
  qed
qed

text \<open>
  C37. Until the input fails, \<open>write\<close> does the same as appending the chunks it reads one by one, empty reads
  left out: each non-empty chunk becomes one block of the feed on the server, in the order of the input,
  and the error of the input is returned.
\<close>

theorem client_write_stores:
  assumes "feed_blocks fa block" and "connected fa block q bs s" and "yields reader i cs j"
    and "reader WRITE_BUFFER j = (Inl e, j')" and "append_chunks (session_rpc ext fa seek hex alive) q cs s = (Inr (), s')"
  shows "client_write (session_rpc ext fa seek hex alive) reader q (s, i) = Some (Inl e, s', j') \<and>
    connected fa block q (bs @ filter (\<lambda>c. c \<noteq> []) cs) s'"
proof
  show "client_write (session_rpc ext fa seek hex alive) reader q (s, i) = Some (Inl e, s', j')"
    unfolding client_write_chunks [OF assms(3,5)] using assms(4) by (subst client_write.simps) simp
  show "connected fa block q (bs @ filter (\<lambda>c. c \<noteq> []) cs) s'"
    using assms(1,2,5) by (rule append_chunks_connected)
qed

text \<open>An input of given reads; after the last one it is at its end.\<close>

fun listed :: "nat \<Rightarrow> (fault + bytes) list \<Rightarrow> bytes result \<times> (fault + bytes) list" where
  "listed n [] = (Inr [], [])"
| "listed n (r # rs) = (r, rs)"

lemma listed_yields: "yields listed (map Inr cs @ rs) cs rs"
  by (induction cs) simp_all

lemma sample_append_chunks: "\<exists>s'. append_chunks sample_session_rpc 0 [[4], [], [5, 6]] sample_pair = (Inr (), s')"
  by (simp add: rust_bind_apply rust_return_apply RemoteHypercore_append_def read_core_def write_core_def on_server_def session_rpc_def
      sample_pair_def deref_def Session_append_def Session_core_run sample_sv_core in_store_def with_feed_def)
    (simp add: sample_api_def sample_bytes_def rust_get_apply rust_bind_apply rust_return_apply sample_sv_core)

theorem client_write_stores_witness:
  "\<exists>s'. client_write sample_session_rpc listed 0 (sample_pair, [Inr [4], Inr [], Inr [5, 6], Inl (IoError ''closed'')]) =
     Some (Inl (IoError ''closed''), s', []) \<and> connected sample_api sample_block 0 [[1, 2], [4], [5, 6]] s'"
proof -
  obtain s' where run: "append_chunks sample_session_rpc 0 [[4], [], [5, 6]] sample_pair = (Inr (), s')"
    using sample_append_chunks by blast
  have input: "yields listed [Inr [4], Inr [], Inr [5, 6], Inl (IoError ''closed'')] [[4], [], [5, 6]] [Inl (IoError ''closed'')]"
    using listed_yields [of "[[4], [], [5, 6]]"] by simp
  have "listed WRITE_BUFFER [Inl (IoError ''closed'')] = (Inl (IoError ''closed''), [])" by simp
  from client_write_stores [OF sample_feed_blocks sample_connected input this run] show ?thesis by auto
qed

subsection \<open>The end of the input\<close>

lemma client_write_only_fails:
  assumes "client_write ext reader q x = Some y"
  shows "(\<exists>e. fst y = Inl e) \<and> reader WRITE_BUFFER (snd x) \<noteq> (Inr [], snd x)"
proof (rule client_write.raw_induct [where P = "\<lambda>ext reader q x y. (\<exists>e. fst y = Inl e) \<and> reader WRITE_BUFFER (snd x) \<noteq> (Inr [], snd x)"
      and xa = "(((ext, reader), q), x)", unfolded prod.case, OF _ assms])
  fix f :: "'a cl_ext \<Rightarrow> (nat \<Rightarrow> ('b, bytes) rust) \<Rightarrow> ref \<Rightarrow> 'a cl_state \<times> 'b \<Rightarrow> ('a, 'b) client_run"
    and ext :: "'a cl_ext" and reader :: "nat \<Rightarrow> ('b, bytes) rust" and q x y
  assume IH: "\<And>ext reader q x y. f ext reader q x = Some y \<Longrightarrow>
      (\<exists>e. fst y = Inl e) \<and> reader WRITE_BUFFER (snd x) \<noteq> (Inr [], snd x)"
    and eq: "(case reader WRITE_BUFFER (snd x) of
        (Inl e, i) \<Rightarrow> Some (Inl e, fst x, i)
      | (Inr chunk, i) \<Rightarrow>
          if length chunk > 0 then
            (case RemoteHypercore_append ext [chunk] q (fst x) of
               (Inl e, s) \<Rightarrow> Some (Inl e, s, i)
             | (Inr _, s) \<Rightarrow> f ext reader q (s, i))
          else f ext reader q (fst x, i)) = Some y"
  show "(\<exists>e. fst y = Inl e) \<and> reader WRITE_BUFFER (snd x) \<noteq> (Inr [], snd x)"
    using eq by (auto split: prod.splits sum.splits if_splits dest: IH)
qed

text \<open>
  C38. \<open>write\<close> never succeeds: it returns only with an error.  At the end of the input, where every read
  returns no bytes, it does not return at all, also when everything before has been appended.
\<close>

theorem client_write_never_done:
  "(\<forall>r y. client_write ext reader q (s, i) = Some (r, y) \<longrightarrow> (\<exists>e. r = Inl e)) \<and>
   (yields reader i cs j \<longrightarrow> append_chunks ext q cs s = (Inr (), s') \<longrightarrow> reader WRITE_BUFFER j = (Inr [], j) \<longrightarrow>
      client_write ext reader q (s, i) = None)"
proof (intro conjI allI impI)
  fix r y
  assume "client_write ext reader q (s, i) = Some (r, y)"
  from client_write_only_fails [OF this] show "\<exists>e. r = Inl e" by simp
next
  assume run: "yields reader i cs j" "append_chunks ext q cs s = (Inr (), s')" and fin: "reader WRITE_BUFFER j = (Inr [], j)"
  have "client_write ext reader q (s', j) = None"
    using client_write_only_fails [of ext reader q "(s', j)"] fin by (cases "client_write ext reader q (s', j)") auto
  then show "client_write ext reader q (s, i) = None" by (simp add: client_write_chunks [OF run])
qed

theorem client_write_never_done_witness:
  "client_write sample_session_rpc listed 0 (sample_pair, [Inr [4], Inr [], Inr [5, 6]]) = None"
proof -
  obtain s' where run: "append_chunks sample_session_rpc 0 [[4], [], [5, 6]] sample_pair = (Inr (), s')"
    using sample_append_chunks by blast
  have input: "yields listed [Inr [4], Inr [], Inr [5, 6]] [[4], [], [5, 6]] []"
    using listed_yields [of "[[4], [], [5, 6]]" "[]"] by simp
  have "listed WRITE_BUFFER [] = (Inr [], [])" by simp
  with client_write_never_done [of sample_session_rpc listed 0 sample_pair "[Inr [4], Inr [], Inr [5, 6]]" "[[4], [], [5, 6]]" "[]" s']
    run input show ?thesis by blast
qed

end
