(* ===== verification/Live_Streams.thy ===== *)
theory Live_Streams
  imports Log_Refinement
begin

section \<open>Live streams\<close>

text \<open>
  A live \<open>ReadStream\<close> goes on after the last block: it waits for the feed to grow.  \<open>growing_log\<close> states what
  it needs of the remote hypercore, which the connected client and session provide.  The stream yields
  the blocks in order whatever happens in between; but it listens for new blocks only from the poll
  after the last block on, so it can miss one.
\<close>

subsection \<open>A log that grows\<close>

text \<open>\<open>holds bs m s\<close>: the feed holds the blocks \<open>bs\<close>, and the client knows of the first \<open>m\<close>.\<close>

locale growing_log =
  fixes ext :: "'w cl_ext" and core :: ref and holds :: "bytes list \<Rightarrow> nat \<Rightarrow> 'w cl_state \<Rightarrow> bool"
  assumes get_block: "holds bs m s \<Longrightarrow> unat i < length bs \<Longrightarrow>
      \<exists>s'. RemoteHypercore_get ext i core s = (Inr (Some (bs ! unat i)), s') \<and> holds bs m s'"
    and mirrored: "holds bs m s \<Longrightarrow> RemoteHypercore_len core s = (Inr (of_nat m), s)"
    and known: "holds bs m s \<Longrightarrow> m \<le> length bs \<and> length bs < 2 ^ 64"
    and client: "holds bs m s \<Longrightarrow> client_inv s"
    and listening: "holds bs m s \<Longrightarrow> RemoteHypercore_subscribe core s = (r, s') \<Longrightarrow> holds bs m s'"
begin

text \<open>The stream has yielded every block before block \<open>i\<close> and nothing else.\<close>

definition live_at :: "nat \<Rightarrow> nat \<Rightarrow> read_stream \<Rightarrow> 'w cl_state \<Rightarrow> bool" where
  "live_at i m rs s \<longleftrightarrow>
     i \<le> m \<and> rs_index rs = of_nat i \<and> rs_end rs = None \<and> rs_live rs \<and> \<not> rs_finished rs \<and>
     (case rs_future rs of
        GetAt q j \<Rightarrow> q = core \<and> j = of_nat i \<and> i < m
      | OnAppend q j \<Rightarrow> q = core \<and> j = of_nat i
      | Waiting q j c n \<Rightarrow> q = core \<and> j = of_nat i \<and> (awaited j (drop n (channel_events c s)) \<longrightarrow> i < m))"

lemma known_index: "holds bs m s \<Longrightarrow> i \<le> m \<Longrightarrow> unat (of_nat i :: u64) = i"
  using known [of bs m s] by (intro unat_of_nat_u64) simp

lemma core_cell:
  assumes "holds bs m s"
  obtains c where "deref (cl_cores s) core = Some c"
  using mirrored [OF assms] by (auto simp: RemoteHypercore_len_def read_core_def split: option.splits)

lemma get_known:
  assumes holds: "holds bs m s" and i: "i < m"
  obtains s' where "poll_get ext True core (of_nat i) s = (Inr (Ready (core, Inr (Some (bs ! i))), GetAt core (of_nat i)), s')"
    "holds bs m s'" "RemoteHypercore_len core s' = (Inr (of_nat m), s')" "u64_add (of_nat i) 1 = Inr (of_nat (Suc i))"
proof -
  have idx: "unat (of_nat i :: u64) = i" "unat (of_nat (Suc i) :: u64) = Suc i"
    using known_index [OF holds, of i] known_index [OF holds, of "Suc i"] i by simp_all
  then have "unat (of_nat i :: u64) < length bs" using known [OF holds] i by simp
  from get_block [OF holds this] obtain s' where s': "RemoteHypercore_get ext (of_nat i) core s = (Inr (Some (bs ! i)), s')" "holds bs m s'"
    by (auto simp: idx(1))
  moreover have "u64_add (of_nat i) 1 = Inr (of_nat (Suc i))" using idx by (simp only: u64_add_eq_Inr) simp
  ultimately show ?thesis
    using mirrored [OF s'(2)] by (intro that [of s']) (simp_all add: poll_get_def rust_bind_apply rust_result_def rust_return_apply)
qed

text \<open>A poll that has come to the request for block \<open>i\<close>.\<close>

lemma poll_live_get:
  assumes holds: "holds bs m s" and at: "live_at i m rs s0" and i: "i < m"
    and get: "poll_future ext a (rs_future rs) s0 = poll_get ext a core (of_nat i) s"
  shows "\<exists>p rs' s'. ReadStream_poll_next ext a rs s0 = (Inr (p, rs'), s') \<and> holds bs m s' \<and>
    (case p of Pending \<Rightarrow> live_at i m rs' s' | Ready x \<Rightarrow> i < m \<and> x = Some (Inr (bs ! i)) \<and> live_at (Suc i) m rs' s')"
proof (cases a)
  case False
  have "poll_get ext False core (of_nat i) s = (Inr (Pending, GetAt core (of_nat i)), s)" by (simp add: poll_get_def rust_return_apply)
  with at holds i get False show ?thesis
    by (auto simp: ReadStream_poll_next_def live_at_def rust_bind_apply rust_return_apply)
next
  case True
  obtain s' where s': "poll_get ext True core (of_nat i) s = (Inr (Ready (core, Inr (Some (bs ! i))), GetAt core (of_nat i)), s')"
    "holds bs m s'" "RemoteHypercore_len core s' = (Inr (of_nat m), s')" "u64_add (of_nat i) 1 = Inr (of_nat (Suc i))"
    by (rule get_known [OF holds i])
  have "unat (of_nat m :: u64) = m" "unat (of_nat (Suc i) :: u64) = Suc i"
    using known_index [OF holds, of m] known_index [OF holds, of "Suc i"] i by simp_all
  then have "of_nat m = (of_nat (Suc i) :: u64) \<longleftrightarrow> m = Suc i" by (metis (no_types))
  with at True get s' i show ?thesis
    by (auto simp: ReadStream_poll_next_def live_at_def rust_bind_apply rust_return_apply rust_lift_apply Let_def)
qed

lemma fresh_channel: "holds bs m s \<Longrightarrow> channel_events (cl_channels s) s = []"
  using client [of bs m s] by (auto simp: client_inv_def channels_ok_def channel_events_def filter_empty_conv)

text \<open>The first poll of \<open>onappend_get\<close> makes the stream listen.\<close>

lemma future_listens:
  assumes holds: "holds bs m s" and cell: "deref (cl_cores s) core = Some c0"
    and s': "s' = s\<lparr>cl_channels := Suc (cl_channels s), cl_cores := (cl_cores s)[core := c0\<lparr>ih_listeners := ih_listeners c0 @ [cl_channels s]\<rparr>]\<rparr>"
  shows "poll_future ext a (OnAppend core j) s = (Inr (Pending, Waiting core j (cl_channels s) 0), s')"
    and "holds bs m s'" and "channel_events (cl_channels s) s' = []"
proof -
  have sub: "RemoteHypercore_subscribe core s = (Inr (cl_channels s), s')"
    using subscribe_run [OF cell] by (simp add: RemoteHypercore_subscribe_def s')
  then show "holds bs m s'" by (rule listening [OF holds])
  show "channel_events (cl_channels s) s' = []" using fresh_channel [OF holds] by (simp add: channel_events_def s')
  with sub show "poll_future ext a (OnAppend core j) s = (Inr (Pending, Waiting core j (cl_channels s) 0), s')"
    by (simp add: poll_future_def rust_bind_apply poll_events_def rust_get_apply rust_return_apply)
qed

lemma poll_live:
  assumes holds: "holds bs m s" and at: "live_at i m rs s"
  shows "\<exists>p rs' s'. ReadStream_poll_next ext a rs s = (Inr (p, rs'), s') \<and> holds bs m s' \<and>
    (case p of Pending \<Rightarrow> live_at i m rs' s' | Ready x \<Rightarrow> i < m \<and> x = Some (Inr (bs ! i)) \<and> live_at (Suc i) m rs' s')"
proof (cases "rs_future rs")
  case (GetAt q j)
  then have "i < m" "poll_future ext a (rs_future rs) s = poll_get ext a core (of_nat i) s"
    using at by (simp_all add: live_at_def poll_future_def)
  then show ?thesis by (rule poll_live_get [OF holds at])
next
  case (OnAppend q j)
  have q: "q = core" "j = of_nat i" using at OnAppend by (simp_all add: live_at_def)
  obtain c0 where cell: "deref (cl_cores s) core = Some c0" by (rule core_cell [OF holds])
  note l = future_listens [OF holds cell refl]
  show ?thesis
    using at l(1) [of a j] l(2,3) by (auto simp: ReadStream_poll_next_def live_at_def rust_bind_apply rust_return_apply OnAppend q)
next
  case (Waiting q j c n)
  have q: "q = core" "j = of_nat i" using at Waiting by (simp_all add: live_at_def)
  show ?thesis
  proof (cases "awaited j (drop n (channel_events c s))")
    case True
    then have "i < m" "poll_future ext a (rs_future rs) s = poll_get ext a core (of_nat i) s"
      using at Waiting q by (simp_all add: live_at_def poll_future_def poll_events_def rust_get_bind_apply)
    then show ?thesis by (rule poll_live_get [OF holds at])
  next
    case False
    then have "poll_future ext a (rs_future rs) s = (Inr (Pending, Waiting core (of_nat i) c (length (channel_events c s))), s)"
      using q by (simp add: Waiting poll_future_def poll_events_def rust_get_bind_apply rust_return_apply)
    with at holds show ?thesis by (auto simp: ReadStream_poll_next_def live_at_def rust_bind_apply rust_return_apply)
  qed
qed

text \<open>Events that come with news, or no events, keep the stream where it is.\<close>

lemma live_at_news: "live_at i m rs s \<Longrightarrow> m < m' \<Longrightarrow> live_at i m' rs s'"
  by (auto simp: live_at_def split: get_future.splits)

lemma live_at_frame: "live_at i m rs s \<Longrightarrow> m \<le> m' \<Longrightarrow> (\<And>c. channel_events c s' = channel_events c s) \<Longrightarrow> live_at i m' rs s'"
  by (auto simp: live_at_def split: get_future.splits)

end

subsection \<open>The stream among everything else\<close>

text \<open>
  The state, the feed's log, the length the client knows, the stream and what it has yielded so far.  The
  stream is polled; a report from the server brings a greater length; or something else happens that sends
  no event to this feed's listeners: the feed grows on the server, an answer to an append of this client
  brings the new length, other feeds are used.
\<close>

type_synonym 'w live_state = "'w cl_state \<times> bytes list \<times> nat \<times> read_stream \<times> (string + bytes) option list"

inductive live_step :: "'w cl_ext \<Rightarrow> ref \<Rightarrow> (bytes list \<Rightarrow> nat \<Rightarrow> 'w cl_state \<Rightarrow> bool) \<Rightarrow> 'w live_state \<Rightarrow> 'w live_state \<Rightarrow> bool"
  for ext core holds where
  pending: "ReadStream_poll_next ext a rs s = (Inr (Pending, rs'), s') \<Longrightarrow> live_step ext core holds (s, bs, m, rs, ys) (s', bs, m, rs', ys)"
| yielded: "ReadStream_poll_next ext a rs s = (Inr (Ready x, rs'), s') \<Longrightarrow>
    live_step ext core holds (s, bs, m, rs, ys) (s', bs, m, rs', ys @ [x])"
| reported: "RemoteHypercore_on_append ext len bl core s = (Inr (), s') \<Longrightarrow> m < unat len \<Longrightarrow> holds bs (unat len) s' \<Longrightarrow>
    live_step ext core holds (s, bs, m, rs, ys) (s', bs, unat len, rs, ys)"
| unreported: "holds (bs @ new) m' s' \<Longrightarrow> m \<le> m' \<Longrightarrow> (\<And>c. channel_events c s' = channel_events c s) \<Longrightarrow>
    live_step ext core holds (s, bs, m, rs, ys) (s', bs @ new, m', rs, ys)"

inductive_cases live_stepE [consumes 1, case_names pending yielded reported unreported]: "live_step ext core holds (s, bs, m, rs, ys) y"

context growing_log
begin

definition live_inv :: "nat \<Rightarrow> 'w live_state \<Rightarrow> bool" where
  "live_inv start x \<longleftrightarrow>
     (case x of (s, bs, m, rs, ys) \<Rightarrow> holds bs m s \<and> live_at (start + length ys) m rs s \<and>
        ys = map (\<lambda>b. Some (Inr b)) (take (length ys) (drop start bs)))"

lemma live_step_inv:
  assumes inv: "live_inv start x" and step: "live_step ext core holds x y"
  shows "live_inv start y"
proof -
  obtain s bs m rs ys where x: "x = (s, bs, m, rs, ys)" by (cases x)
  have holds: "holds bs m s" and at: "live_at (start + length ys) m rs s"
    and ys: "ys = map (\<lambda>b. Some (Inr b)) (take (length ys) (drop start bs))"
    using inv by (simp_all add: live_inv_def x)
  have len: "start + length ys \<le> length bs" using at known [OF holds] by (simp add: live_at_def)
  from step [unfolded x] show ?thesis
  proof (cases rule: live_stepE)
    case (pending a rs' s')
    with poll_live [OF holds at, of a] holds ys show ?thesis by (simp add: live_inv_def)
  next
    case (yielded a z rs' s')
    with poll_live [OF holds at, of a] have z: "holds bs m s'" "start + length ys < m" "z = Some (Inr (bs ! (start + length ys)))"
        "live_at (Suc (start + length ys)) m rs' s'" by simp_all
    have "length ys < length (drop start bs)" using z(2) known [OF holds] by (simp add: less_diff_conv)
    then have "take (Suc (length ys)) (drop start bs) = take (length ys) (drop start bs) @ [bs ! (start + length ys)]"
      by (simp add: take_Suc_conv_app_nth)
    with z ys yielded(1) show ?thesis by (simp add: live_inv_def)
  next
    case (reported l bl s')
    with live_at_news [OF at, of "unat l" s'] ys show ?thesis by (simp add: live_inv_def)
  next
    case (unreported new m' s')
    with live_at_frame [OF at, of m' s'] len ys show ?thesis by (auto simp: live_inv_def)
  qed
qed

lemma live_run:
  assumes run: "(live_step ext core holds)\<^sup>*\<^sup>* (s, bs, m, RemoteHypercore_to_stream core (of_nat start) None True, []) y"
    and holds: "holds bs m s" and start: "start < m"
  shows "live_inv start y"
  using run
proof (induction rule: rtranclp_induct)
  case base
  show ?case
    using holds start by (simp add: live_inv_def live_at_def RemoteHypercore_to_stream_def ReadStream_new_def)
next
  case (step y z)
  show ?case by (rule live_step_inv [OF step.IH step.hyps(2)])
qed

lemma live_run_poll:
  assumes run: "(live_step ext core holds)\<^sup>*\<^sup>* (s, bs, m, RemoteHypercore_to_stream core (of_nat start) None True, []) (s', bs', m', rs, ys)"
    and holds: "holds bs m s" and start: "start < m"
  shows "ys = map (\<lambda>b. Some (Inr b)) (take (length ys) (drop start bs')) \<and> \<not> rs_finished rs \<and>
    (\<exists>p rs' t. ReadStream_poll_next ext a rs s' = (Inr (p, rs'), t) \<and>
       (p = Pending \<or> start + length ys < length bs' \<and> p = Ready (Some (Inr (bs' ! (start + length ys))))))"
proof -
  from live_run [OF assms] have inv: "holds bs' m' s'" "live_at (start + length ys) m' rs s'"
      "ys = map (\<lambda>b. Some (Inr b)) (take (length ys) (drop start bs'))"
    by (simp_all add: live_inv_def)
  moreover have "\<not> rs_finished rs" using inv(2) by (simp add: live_at_def)
  moreover obtain p rs' t where p: "ReadStream_poll_next ext a rs s' = (Inr (p, rs'), t)"
    "case p of Pending \<Rightarrow> live_at (start + length ys) m' rs' t
     | Ready x \<Rightarrow> start + length ys < m' \<and> x = Some (Inr (bs' ! (start + length ys))) \<and> live_at (Suc (start + length ys)) m' rs' t"
    using poll_live [OF inv(1,2), of a] by blast
  ultimately show ?thesis using known [OF inv(1)] by (cases p) auto
qed

subsection \<open>At the end of the log\<close>

text \<open>The stream has yielded \<open>i\<close> blocks, all it knows of, and has not been polled since.\<close>

definition at_end :: "nat \<Rightarrow> read_stream \<Rightarrow> bool" where
  "at_end i rs \<longleftrightarrow>
     rs_future rs = OnAppend core (of_nat i) \<and> rs_index rs = of_nat i \<and> rs_end rs = None \<and> rs_live rs \<and> \<not> rs_finished rs"

lemma poll_to_end:
  assumes "poll_get ext True core j s = (Inr (Ready (core, Inr (Some b)), fut), s')"
    and "u64_add j 1 = Inr k" and "RemoteHypercore_len core s' = (Inr k, s')"
  shows "ReadStream_poll_next ext True (RemoteHypercore_to_stream core j None True) s =
    (Inr (Ready (Some (Inr b)), \<lparr>rs_future = OnAppend core k, rs_index = k, rs_end = None, rs_live = True, rs_finished = False\<rparr>), s')"
  using assms by (simp add: ReadStream_poll_next_def RemoteHypercore_to_stream_def ReadStream_new_def poll_future_def rust_bind_apply
      rust_return_apply rust_lift_apply Let_def)

lemma poll_last:
  assumes holds: "holds bs (Suc i) s"
    and run: "ReadStream_poll_next ext True (RemoteHypercore_to_stream core (of_nat i) None True) s = (r, s')"
  shows "\<exists>rs. r = Inr (Ready (Some (Inr (bs ! i))), rs) \<and> holds bs (Suc i) s' \<and> at_end (Suc i) rs"
proof -
  have "i < Suc i" by simp
  from get_known [OF holds this] obtain s1 where
    s1: "poll_get ext True core (of_nat i) s = (Inr (Ready (core, Inr (Some (bs ! i))), GetAt core (of_nat i)), s1)"
    "holds bs (Suc i) s1" "RemoteHypercore_len core s1 = (Inr (of_nat (Suc i)), s1)" "u64_add (of_nat i) 1 = Inr (of_nat (Suc i))" .
  have "at_end (Suc i) \<lparr>rs_future = OnAppend core (of_nat (Suc i)), rs_index = of_nat (Suc i), rs_end = None,
      rs_live = True, rs_finished = False\<rparr>"
    by (simp add: at_end_def)
  then show ?thesis
    using run poll_to_end [OF s1(1) s1(4) s1(3)] s1(2) by (metis Pair_inject)
qed

lemma poll_listens:
  assumes holds: "holds bs m s" and at: "at_end i rs" and cell: "deref (cl_cores s) core = Some c0"
  shows "ReadStream_poll_next ext a rs s = (Inr (Pending, rs\<lparr>rs_future := Waiting core (of_nat i) (cl_channels s) 0\<rparr>),
       s\<lparr>cl_channels := Suc (cl_channels s), cl_cores := (cl_cores s)[core := c0\<lparr>ih_listeners := ih_listeners c0 @ [cl_channels s]\<rparr>]\<rparr>)"
  using at future_listens(1) [OF holds cell refl, of a "of_nat i"]
  by (simp add: ReadStream_poll_next_def at_end_def rust_bind_apply rust_return_apply)

text \<open>Without an event it awaits, a listening stream stays silent.\<close>

lemma waiting_silent:
  assumes "rs_future rs = Waiting core j c n" and "\<not> rs_finished rs" and "\<not> awaited j (drop n (channel_events c s))"
  shows "\<exists>rs'. drive_stream ext as rs s = (Inr ([], rs'), s)"
  using assms
proof (induction as arbitrary: rs n)
  case Nil
  then show ?case by (simp add: rust_return_apply)
next
  case (Cons a as)
  let ?rs = "rs\<lparr>rs_future := Waiting core j c (length (channel_events c s))\<rparr>"
  have "ReadStream_poll_next ext a rs s = (Inr (Pending, ?rs), s)"
    using Cons.prems by (simp add: ReadStream_poll_next_def poll_future_def poll_events_def rust_bind_apply rust_get_apply rust_return_apply)
  with Cons.IH [of ?rs "length (channel_events c s)"] Cons.prems(2) show ?case
    by (auto simp: rust_bind_apply rust_return_apply)
qed

lemma unheard_silent:
  assumes holds: "holds bs m s" and at: "at_end i rs"
  shows "\<exists>rs' s'. drive_stream ext as rs s = (Inr ([], rs'), s') \<and> holds bs m s'"
proof (cases "as")
  case Nil
  with holds show ?thesis by (simp add: rust_return_apply)
next
  case (Cons a as')
  obtain c0 where cell: "deref (cl_cores s) core = Some c0" by (rule core_cell [OF holds])
  note poll = poll_listens [OF holds at cell, of a] and l = future_listens [OF holds cell refl]
  have "\<not> awaited (of_nat i) (drop 0 (channel_events (cl_channels s) (snd (ReadStream_poll_next ext a rs s))))"
    by (simp only: poll snd_conv l(3) drop_Nil awaited.simps) simp
  then have "\<exists>rs'. drive_stream ext as' (rs\<lparr>rs_future := Waiting core (of_nat i) (cl_channels s) 0\<rparr>) (snd (ReadStream_poll_next ext a rs s)) =
      (Inr ([], rs'), snd (ReadStream_poll_next ext a rs s))"
    by (rule waiting_silent [rotated 2]) (use at in \<open>simp_all add: at_end_def\<close>)
  then show ?thesis using poll l(2) by (auto simp: Cons rust_bind_apply rust_return_apply)
qed

text \<open>
  A stream that listens is woken by the next report: the poll continues with the request for block \<open>i\<close>,
  whether the report brings news or not.
\<close>

lemma listening_stream:
  assumes holds: "holds bs m s" and at: "at_end i rs" and listen: "ReadStream_poll_next ext a rs s = (r, s')"
  obtains rs' c where "r = Inr (Pending, rs')" "rs_future rs' = Waiting core (of_nat i) (cl_channels s) 0" "rs_index rs' = of_nat i"
    "rs_end rs' = None" "rs_live rs'" "\<not> rs_finished rs'" "deref (cl_cores s') core = Some c" "cl_channels s \<in> set (ih_listeners c)"
    "filter (\<lambda>p. fst p = cl_channels s) (cl_events s') = []"
proof -
  obtain c0 where cell: "deref (cl_cores s) core = Some c0" by (rule core_cell [OF holds])
  have "filter (\<lambda>p. fst p = cl_channels s) (cl_events s) = []" using fresh_channel [OF holds] by (simp add: channel_events_def)
  then show ?thesis
    using listen poll_listens [OF holds at cell, of a] at cell
    by (intro that [of "rs\<lparr>rs_future := Waiting core (of_nat i) (cl_channels s) 0\<rparr>" "c0\<lparr>ih_listeners := ih_listeners c0 @ [cl_channels s]\<rparr>"])
      (auto simp: at_end_def deref_eq_Some)
qed

lemma report_wakes:
  assumes cell: "deref (cl_cores s) core = Some c" "ch \<in> set (ih_listeners c)" "filter (\<lambda>p. fst p = ch) (cl_events s) = []"
    and alive: "receiver_alive ext ch" and report: "RemoteHypercore_on_append ext len bl core s = (Inr (), t)"
  shows "poll_future ext True (Waiting core j ch 0) t = poll_get ext True core j t"
proof -
  note t = report [unfolded on_append_run [OF cell(1)]]
  have "HypercoreAppend \<in> set (channel_events ch t)" using t alive cell(2) by (auto simp: channel_events_def image_iff)
  moreover have "set (channel_events ch t) \<subseteq> {HypercoreAppend}" using t cell(3) by (auto simp: channel_events_def filter_empty_conv)
  ultimately have "awaited j (channel_events ch t)" by (cases "channel_events ch t") auto
  then show ?thesis by (simp add: poll_future_def poll_events_def rust_get_bind_apply)
qed

text \<open>
  The stream reads the last block the client knows of, \<open>i\<close>; it is polled again and listens; the world goes on and a
  report arrives.
\<close>

lemma poll_after_report:
  assumes holds: "holds bs (Suc i) s" and last: "ReadStream_poll_next ext True (RemoteHypercore_to_stream core (of_nat i) None True) s = (r1, s1)"
    and listen: "\<And>p rs. r1 = Inr (p, rs) \<Longrightarrow> ReadStream_poll_next ext a rs s1 = (r2, s2)" and alive: "receiver_alive ext (cl_channels s1)"
    and report: "RemoteHypercore_on_append ext len bl core (s2\<lparr>cl_world := w\<rparr>) = (Inr (), t)"
  obtains rs1 rs2 where "r1 = Inr (Ready (Some (Inr (bs ! i))), rs1)" "r2 = Inr (Pending, rs2)"
    "poll_future ext True (rs_future rs2) t = poll_get ext True core (of_nat (Suc i)) t" "rs_index rs2 = of_nat (Suc i)"
    "rs_end rs2 = None" "rs_live rs2" "\<not> rs_finished rs2"
proof -
  obtain rs1 where rs1: "r1 = Inr (Ready (Some (Inr (bs ! i))), rs1)" "holds bs (Suc i) s1" "at_end (Suc i) rs1"
    using poll_last [OF holds last] by blast
  note second = listening_stream [OF rs1(2,3) listen [OF rs1(1)]]
  obtain rs2 c where rs2: "r2 = Inr (Pending, rs2)" "rs_future rs2 = Waiting core (of_nat (Suc i)) (cl_channels s1) 0" "rs_index rs2 = of_nat (Suc i)"
    "rs_end rs2 = None" "rs_live rs2" "\<not> rs_finished rs2" "deref (cl_cores s2) core = Some c" "cl_channels s1 \<in> set (ih_listeners c)"
    "filter (\<lambda>p. fst p = cl_channels s1) (cl_events s2) = []"
    by (rule second)
  have "poll_future ext True (rs_future rs2) t = poll_get ext True core (of_nat (Suc i)) t"
    using report_wakes [OF _ rs2(8) _ alive report] rs2(2,7,9) by (simp del: of_nat_Suc)
  then show ?thesis using rs1(1) rs2(1-6) that by blast
qed

lemma live_wakes:
  assumes holds: "holds bs (Suc i) s" and last: "ReadStream_poll_next ext True (RemoteHypercore_to_stream core (of_nat i) None True) s = (Inr (p1, rs1), s1)"
    and listen: "ReadStream_poll_next ext a rs1 s1 = (Inr (p2, rs2), s2)" and alive: "receiver_alive ext (cl_channels s1)"
    and report: "RemoteHypercore_on_append ext len bl core (s2\<lparr>cl_world := w\<rparr>) = (Inr (), t)"
    and news: "holds bs' m' t" "Suc i < m'"
  shows "p1 = Ready (Some (Inr (bs ! i))) \<and> p2 = Pending \<and>
    (\<exists>rs3 t'. ReadStream_poll_next ext True rs2 t = (Inr (Ready (Some (Inr (bs' ! Suc i))), rs3), t') \<and> holds bs' m' t')"
proof -
  have woken: "p1 = Ready (Some (Inr (bs ! i)))" "p2 = Pending" "poll_future ext True (rs_future rs2) t = poll_get ext True core (of_nat (Suc i)) t"
      "rs_index rs2 = of_nat (Suc i)" "rs_end rs2 = None" "rs_live rs2" "\<not> rs_finished rs2"
    using poll_after_report [OF holds last _ alive report, of a "Inr (p2, rs2)"] listen by auto
  obtain t' where t': "poll_get ext True core (of_nat (Suc i)) t = (Inr (Ready (core, Inr (Some (bs' ! Suc i))), GetAt core (of_nat (Suc i))), t')"
      "holds bs' m' t'" "RemoteHypercore_len core t' = (Inr (of_nat m'), t')" "u64_add (of_nat (Suc i)) 1 = Inr (of_nat (Suc (Suc i)))"
    by (rule get_known [OF news])
  then show ?thesis
    using woken by (auto simp: ReadStream_poll_next_def rust_bind_apply rust_return_apply rust_lift_apply Let_def simp del: of_nat_Suc)
qed

lemma live_ends:
  assumes holds: "holds bs (Suc i) s" and last: "ReadStream_poll_next ext True (RemoteHypercore_to_stream core (of_nat i) None True) s = (Inr (p1, rs1), s1)"
    and listen: "ReadStream_poll_next ext a rs1 s1 = (Inr (p2, rs2), s2)" and alive: "receiver_alive ext (cl_channels s1)"
    and report: "RemoteHypercore_on_append ext len bl core (s2\<lparr>cl_world := w\<rparr>) = (Inr (), t)"
    and none: "RemoteHypercore_get ext (of_nat (Suc i)) core t = (Inr None, t')" "holds bs' m' t'" "Suc (Suc i) < 2 ^ 64"
  shows "\<exists>rs3. ReadStream_poll_next ext True rs2 t = (Inr (Ready None, rs3), t')"
proof -
  have woken: "poll_future ext True (rs_future rs2) t = poll_get ext True core (of_nat (Suc i)) t"
      "rs_index rs2 = of_nat (Suc i)" "rs_end rs2 = None" "rs_live rs2" "\<not> rs_finished rs2"
    using poll_after_report [OF holds last _ alive report, of a "Inr (p2, rs2)"] listen by auto
  have "unat (of_nat (Suc (Suc i)) :: u64) = unat (of_nat (Suc i) :: u64) + unat (1 :: u64)"
    using none(3) unat_of_nat_u64 [of "Suc i"] unat_of_nat_u64 [of "Suc (Suc i)"] by (simp del: of_nat_Suc)
  then have "u64_add (of_nat (Suc i)) 1 = Inr (of_nat (Suc (Suc i)))" by (simp only: u64_add_eq_Inr)
  with none(1) mirrored [OF none(2)] woken show ?thesis
    by (auto simp: ReadStream_poll_next_def poll_get_def rust_result_def rust_bind_apply rust_return_apply rust_lift_apply Let_def
        simp del: of_nat_Suc)
qed

end

subsection \<open>Streams of a connected client\<close>

text \<open>The client's handle is attached to a feed that holds \<open>bs\<close> and mirrors a length \<open>m\<close>, maybe an old one.\<close>

definition follows_log ::
  "('w, 'f, 'nd, 'sig) feed_api \<Rightarrow> ('f \<Rightarrow> u64 \<Rightarrow> bytes option) \<Rightarrow> ref \<Rightarrow> bytes list \<Rightarrow> nat \<Rightarrow> ('w, 'f) sv_state cl_state \<Rightarrow> bool" where
  "follows_log fa block q bs m s \<longleftrightarrow>
     feed_blocks fa block \<and> feed_reads fa block \<and> client_inv s \<and> attached fa block q bs s \<and> m \<le> length bs \<and> (\<exists>bl. mirrors q m bl s)"

lemma follows_subscribe:
  assumes "follows_log fa block q bs m s" and sub: "RemoteHypercore_subscribe q s = (r, s')"
  shows "follows_log fa block q bs m s'"
proof -
  obtain c where c: "deref (cl_cores s) q = Some c" using assms(1) by (auto simp: follows_log_def attached_def)
  have "s' = s\<lparr>cl_channels := Suc (cl_channels s), cl_cores := (cl_cores s)[q := c\<lparr>ih_listeners := ih_listeners c @ [cl_channels s]\<rparr>]\<rparr>"
    using sub subscribe_run [OF c] by (simp add: RemoteHypercore_subscribe_def)
  moreover have "client_inv s'"
    using sub assms(1) client_inv_subscribe by (auto simp: RemoteHypercore_subscribe_def follows_log_def)
  ultimately show ?thesis
    using assms(1) c by (auto simp: follows_log_def attached_def mirrors_def deref_eq_Some)
qed

text \<open>Another client appends on the server, and the report of it arrives.\<close>

lemma attached_append:
  assumes laws: "feed_blocks fa block" and att: "attached fa block q bs s" and cell: "deref (cl_cores s) q = Some c"
    and run: "Session_append fa req (cl_world s) = (Inr resp, w)" and req: "ar_id req = ucast (ih_id c)"
  shows "attached fa block q (bs @ ar_blocks req) (s\<lparr>cl_world := w\<rparr>)" and "unat (as_length resp) = length (bs @ ar_blocks req)"
    and "unat (as_byte_length resp) = length (concat (bs @ ar_blocks req))"
proof -
  obtain st f where c: "fmlookup (sv_cores (cl_world s)) (ar_id req) = Some st"
      "deref (sv_heap (cl_world s)) (fs_feed st) = Some f" "holds_log fa block bs f"
    using att cell req by (auto simp: attached_def)
  obtain f' where f': "deref (sv_heap w) (fs_feed st) = Some f'" "log_extended fa block (ar_blocks req) f f'"
      "sv_session w = sv_session (cl_world s)" "as_length resp = f_len fa f'" "as_byte_length resp = f_byte_len fa f'"
    using laws c(1,2) run by (rule Session_append_log) auto
  have log: "holds_log fa block (bs @ ar_blocks req) f'" using c(3) f'(2) by (rule holds_log_extended)
  with c cell f' req show "attached fa block q (bs @ ar_blocks req) (s\<lparr>cl_world := w\<rparr>)" by (auto simp: attached_def)
  show "unat (as_length resp) = length (bs @ ar_blocks req)" "unat (as_byte_length resp) = length (concat (bs @ ar_blocks req))"
    using log f'(4,5) by (simp_all add: holds_log_def)
qed

lemma follows_report:
  assumes follows: "follows_log fa block q bs m s" and att: "attached fa block q bs' (s\<lparr>cl_world := w\<rparr>)"
    and run: "RemoteHypercore_on_append ext len bl q (s\<lparr>cl_world := w\<rparr>) = (r, t)" and len: "unat len \<le> length bs'"
  shows "follows_log fa block q bs' (unat len) t" and "r = Inr ()" and "mirrors q (unat len) (unat bl) t"
proof -
  obtain c where c: "deref (cl_cores (s\<lparr>cl_world := w\<rparr>)) q = Some c" using follows by (auto simp: follows_log_def attached_def)
  note t = run [unfolded on_append_run [OF c]]
  then show r: "r = Inr ()" by simp
  have "client_inv (s\<lparr>cl_world := w\<rparr>)"
    using client_inv_view [of "s\<lparr>cl_world := w\<rparr>" s] follows by (simp add: follows_log_def cl_view_def)
  then have "client_inv t" using run r on_append_inv by blast
  moreover show m: "mirrors q (unat len) (unat bl) t" using c t by (auto simp: mirrors_def deref_eq_Some)
  moreover have "attached fa block q bs' t"
  proof -
    have "cl_world t = w" "deref (cl_cores t) q = Some (c\<lparr>ih_length := len, ih_byte_length := bl\<rparr>)"
      using c t by (auto simp: deref_eq_Some)
    with att c show ?thesis by (auto simp: attached_def)
  qed
  ultimately show "follows_log fa block q bs' (unat len) t" using follows len by (auto simp: follows_log_def)
qed

interpretation session_live: growing_log "session_rpc ext fa seek hex alive" q "follows_log fa block q"
  for ext fa seek hex alive q block
proof (unfold_locales, goal_cases)
  case (1 bs m s i)
  then obtain s' where s': "RemoteHypercore_get (session_rpc ext fa seek hex alive) i q s = (Inr (Some (bs ! unat i)), s')"
      "attached fa block q bs s'" "cl_cores s' = cl_cores s"
    using attached_get [of fa block q bs s i ext seek hex alive] by (auto simp: follows_log_def)
  with 1 client_inv_preserves [OF view_get _ s'(1)] show ?case by (auto simp: follows_log_def mirrors_def)
next
  case (2 bs m s)
  then obtain c where "deref (cl_cores s) q = Some c" "unat (ih_length c) = m" by (auto simp: follows_log_def mirrors_def)
  then show ?case by (auto simp: RemoteHypercore_len_def read_core_run)
next
  case (3 bs m s)
  then obtain f where "holds_log fa block bs f" by (auto simp: follows_log_def attached_def)
  with 3 holds_log_small [OF this] show ?case by (simp add: follows_log_def)
next
  case (4 bs m s)
  then show ?case by (simp add: follows_log_def)
next
  case (5 bs m s r s')
  then show ?case by (rule follows_subscribe)
qed

subsection \<open>What a live stream does\<close>

text \<open>
  C14. A live stream that starts at a block the client knows of and is polled at any time, while the log grows,
  reports come in that each bring a greater length than the client knew, and anything else happens that
  sends no event to the listeners of the feed, yields the blocks of the log from its start on in order,
  none missed or repeated; it has not reported an end, and every poll returns: with the next block, or
  with nothing yet.
\<close>

theorem live_stream_in_order:
  assumes "follows_log fa block q bs m s" and "start < m"
    and "(live_step (session_rpc ext fa seek hex alive) q (follows_log fa block q))\<^sup>*\<^sup>*
      (s, bs, m, RemoteHypercore_to_stream q (of_nat start) None True, []) (s', bs', m', rs, ys)"
  shows "ys = map (\<lambda>b. Some (Inr b)) (take (length ys) (drop start bs')) \<and> \<not> rs_finished rs \<and>
    (\<exists>p rs' t. ReadStream_poll_next (session_rpc ext fa seek hex alive) a rs s' = (Inr (p, rs'), t) \<and>
       (p = Pending \<or> start + length ys < length bs' \<and> p = Ready (Some (Inr (bs' ! (start + length ys))))))"
  using assms(3,1,2) by (rule session_live.live_run_poll)

lemma sample_follows: "follows_log sample_api sample_block 0 [[1, 2]] 1 sample_pair"
proof -
  have "client_inv sample_pair"
    using client_inv_new [of sample_sv]
    by (auto simp: client_inv_def sessions_ok_def channels_ok_def RemoteCorestore_new_def sample_pair_def InnerHypercore_default_def deref_def
        split: if_splits)
  moreover have "mirrors 0 1 2 sample_pair" using connectedD(2) [OF sample_connected] by (simp add: numeral_2_eq_2)
  ultimately show ?thesis
    using connectedD(1) [OF sample_connected] sample_feed_blocks sample_feed_reads by (auto simp: follows_log_def)
qed

theorem live_stream_in_order_witness:
  "\<exists>s' rs p rs' t. (live_step sample_session_rpc 0 (follows_log sample_api sample_block 0))\<^sup>*\<^sup>*
      (sample_pair, [[1, 2]], 1, RemoteHypercore_to_stream 0 (of_nat 0) None True, []) (s', [[1, 2]], 1, rs, [Some (Inr [1, 2])]) \<and>
     ReadStream_poll_next sample_session_rpc True rs s' = (Inr (Pending, rs'), t)"
proof -
  let ?rs = "RemoteHypercore_to_stream 0 (of_nat 0) None True"
  obtain r s' where run: "ReadStream_poll_next sample_session_rpc True ?rs sample_pair = (r, s')" by fastforce
  with session_live.poll_last [of sample_api sample_block 0 "[[1, 2]]" 0] sample_follows obtain rs where
    r: "r = Inr (Ready (Some (Inr [1, 2])), rs)" by fastforce
  have steps: "(live_step sample_session_rpc 0 (follows_log sample_api sample_block 0))\<^sup>*\<^sup>*
      (sample_pair, [[1, 2]], 1, ?rs, []) (s', [[1, 2]], 1, rs, [] @ [Some (Inr [1, 2])])"
    using run r by (intro r_into_rtranclp live_step.yielded) simp
  from live_stream_in_order [OF sample_follows _ steps, of True] steps show ?thesis by auto
qed

definition sample_listener :: "(sample_files, sample_feed) sv_state cl_state" where
  "sample_listener = sample_pair\<lparr>cl_resource_counter := 2, cl_channels := 1, cl_cores := map (\<lambda>c. c\<lparr>ih_listeners := [0]\<rparr>) (cl_cores sample_pair)\<rparr>"

definition sample_at_end :: read_stream where
  "sample_at_end = \<lparr>rs_future = OnAppend 0 1, rs_index = 1, rs_end = None, rs_live = True, rs_finished = False\<rparr>"

lemma sample_poll_last:
  "ReadStream_poll_next sample_session_rpc True (RemoteHypercore_to_stream 0 (of_nat 0) None True) sample_pair =
     (Inr (Ready (Some (Inr [1, 2])), sample_at_end), sample_pair\<lparr>cl_resource_counter := 2\<rparr>)"
proof -
  let ?req = "\<lparr>gr_id = 3, gr_seq = 0, gr_resource_id = 1, gr_wait = None, gr_if_available = None, gr_on_wait_id = None\<rparr> :: get_request"
  have "fmlookup (sv_cores sample_sv) (gr_id ?req) = Some \<lparr>fs_id = 3, fs_feed = 0, fs_notify_task = Some 0\<rparr>" by (simp add: sample_sv_core)
  from Session_get_run [OF this, of sample_api] have "Session_get sample_api ?req sample_sv = (Inr \<lparr>gs_block = Some [1, 2]\<rparr>, sample_sv)"
    by (simp add: with_feed_def sample_sv_core deref_def in_store_def rust_simps) (simp add: sample_api_def sample_block_def sample_sv_def)
  then show ?thesis
    by (simp add: ReadStream_poll_next_def RemoteHypercore_to_stream_def ReadStream_new_def poll_future_def poll_get_def rust_result_def
        RemoteHypercore_get_def RemoteHypercore_len_def read_core_def sample_pair_def deref_def on_server_def session_rpc_def u64_add_def
        sample_at_end_def rust_simps Let_def)
qed

lemma sample_poll_listens:
  "ReadStream_poll_next sample_session_rpc True sample_at_end (sample_pair\<lparr>cl_resource_counter := 2\<rparr>) =
     (Inr (Pending, sample_at_end\<lparr>rs_future := Waiting 0 1 0 0\<rparr>), sample_listener)"
  by (simp add: ReadStream_poll_next_def sample_at_end_def poll_future_def poll_events_def channel_events_def RemoteHypercore_subscribe_def
      InnerHypercore_subscribe_def write_core_def sample_pair_def sample_listener_def InnerHypercore_default_def deref_def rust_simps)

lemma sample_follows_on:
  "follows_log sample_api sample_block 0 [[1, 2]] 1 (sample_pair\<lparr>cl_resource_counter := 2\<rparr>)"
  "follows_log sample_api sample_block 0 [[1, 2]] 1 sample_listener"
proof -
  show f: "follows_log sample_api sample_block 0 [[1, 2]] 1 (sample_pair\<lparr>cl_resource_counter := 2\<rparr>)"
  proof -
    have "follows_log sample_api sample_block 0 [[1, 2]] (Suc 0) sample_pair" using sample_follows by simp
    from session_live.poll_last [OF this sample_poll_last] show ?thesis by (elim exE conjE) simp
  qed
  have "RemoteHypercore_subscribe 0 (sample_pair\<lparr>cl_resource_counter := 2\<rparr>) = (Inr 0, sample_listener)"
    by (simp add: RemoteHypercore_subscribe_def InnerHypercore_subscribe_def write_core_def sample_pair_def sample_listener_def
        InnerHypercore_default_def deref_def rust_simps)
  then show "follows_log sample_api sample_block 0 [[1, 2]] 1 sample_listener" by (rule follows_subscribe [OF f])
qed

text \<open>Two blocks are appended on the server and reported.\<close>

lemma sample_report:
  assumes "follows_log sample_api sample_block 0 [[1, 2]] 1 s" and "deref (cl_cores s) 0 = Some c" and "ih_id c = 3" and "cl_world s = sample_sv"
  obtains w t where "RemoteHypercore_on_append sample_session_rpc 3 5 0 (s\<lparr>cl_world := w\<rparr>) = (Inr (), t)"
    "follows_log sample_api sample_block 0 [[1, 2], [4], [5, 6]] (unat (3 :: u64)) t"
proof -
  obtain resp w where w: "Session_append sample_api \<lparr>ar_id = 3, ar_blocks = [[4], [5, 6]]\<rparr> (cl_world s) = (Inr resp, w)"
    using sample_append by (auto simp: assms(4))
  have "attached sample_api sample_block 0 [[1, 2]] s" using assms(1) by (simp add: follows_log_def)
  from attached_append(1) [OF sample_feed_blocks this assms(2) w] assms(3)
  have att: "attached sample_api sample_block 0 [[1, 2], [4], [5, 6]] (s\<lparr>cl_world := w\<rparr>)" by simp
  obtain r t where t: "RemoteHypercore_on_append sample_session_rpc 3 5 0 (s\<lparr>cl_world := w\<rparr>) = (r, t)" by fastforce
  with follows_report(1,2) [OF assms(1) att t] show ?thesis by (intro that [of w t]) simp_all
qed

lemma sample_listener_cell: "deref (cl_cores sample_listener) 0 = Some ((cl_cores sample_pair ! 0)\<lparr>ih_listeners := [0]\<rparr>)"
  "ih_id (cl_cores sample_pair ! 0) = 3" "cl_world sample_listener = sample_sv" "cl_world sample_pair = sample_sv" "deref (cl_cores sample_pair) 0 = Some (cl_cores sample_pair ! 0)"
  by (simp_all add: sample_listener_def sample_pair_def deref_def InnerHypercore_default_def)

text \<open>
  C32. A live stream that has caught up and is polled once more waits; when the server then reports new
  blocks, the next poll yields the first of them.
\<close>

theorem live_stream_wakes:
  assumes "follows_log fa block q bs (Suc i) s"
    and "ReadStream_poll_next (session_rpc ext fa seek hex alive) True (RemoteHypercore_to_stream q (of_nat i) None True) s = (Inr (p1, rs1), s1)"
    and "ReadStream_poll_next (session_rpc ext fa seek hex alive) a rs1 s1 = (Inr (p2, rs2), s2)" and "alive (cl_channels s1)"
    and "RemoteHypercore_on_append (session_rpc ext fa seek hex alive) len bl q (s2\<lparr>cl_world := w\<rparr>) = (Inr (), t)"
    and "follows_log fa block q bs' (unat len) t" and "Suc i < unat len"
  shows "p1 = Ready (Some (Inr (bs ! i))) \<and> p2 = Pending \<and>
    (\<exists>rs3 t'. ReadStream_poll_next (session_rpc ext fa seek hex alive) True rs2 t = (Inr (Ready (Some (Inr (bs' ! Suc i))), rs3), t') \<and>
       follows_log fa block q bs' (unat len) t')"
  using assms(1-3) _ assms(5-7) by (rule session_live.live_wakes) (simp add: assms(4) session_rpc_def)

theorem live_stream_wakes_witness:
  "\<exists>w t rs' t'. RemoteHypercore_on_append sample_session_rpc 3 5 0 (sample_listener\<lparr>cl_world := w\<rparr>) = (Inr (), t) \<and>
     follows_log sample_api sample_block 0 [[1, 2], [4], [5, 6]] 3 t \<and>
     ReadStream_poll_next sample_session_rpc True (sample_at_end\<lparr>rs_future := Waiting 0 1 0 0\<rparr>) t = (Inr (Ready (Some (Inr [4])), rs'), t')"
proof -
  obtain w t where t: "RemoteHypercore_on_append sample_session_rpc 3 5 0 (sample_listener\<lparr>cl_world := w\<rparr>) = (Inr (), t)"
      "follows_log sample_api sample_block 0 [[1, 2], [4], [5, 6]] (unat (3 :: u64)) t"
    by (rule sample_report [OF sample_follows_on(2) sample_listener_cell(1)]) (simp_all add: sample_listener_cell)
  have "follows_log sample_api sample_block 0 [[1, 2]] (Suc 0) sample_pair" using sample_follows by simp
  from live_stream_wakes [OF this sample_poll_last sample_poll_listens _ t] t show ?thesis by auto
qed

text \<open>
  C39. A report that arrives after a live stream has yielded the last block but before it is polled again is
  lost to the stream: the new block is there, yet however often the stream is polled it yields nothing
  until the next report.
\<close>

theorem live_stream_misses_report:
  assumes "follows_log fa block q bs (Suc i) s"
    and "ReadStream_poll_next (session_rpc ext fa seek hex alive) True (RemoteHypercore_to_stream q (of_nat i) None True) s = (Inr (p1, rs1), s1)"
    and "RemoteHypercore_on_append (session_rpc ext fa seek hex alive) len bl q (s1\<lparr>cl_world := w\<rparr>) = (Inr (), t)"
    and "follows_log fa block q bs' (unat len) t" and "Suc i < unat len"
  shows "\<exists>rs' t'. drive_stream (session_rpc ext fa seek hex alive) as rs1 t = (Inr ([], rs'), t') \<and>
    follows_log fa block q bs' (unat len) t' \<and> Suc i < length bs'"
proof -
  obtain rs' t' where "drive_stream (session_rpc ext fa seek hex alive) as rs1 t = (Inr ([], rs'), t')" "follows_log fa block q bs' (unat len) t'"
    using session_live.poll_last [OF assms(1,2)] session_live.unheard_silent [OF assms(4)] by blast
  moreover have "Suc i < length bs'" using assms(4,5) by (simp add: follows_log_def)
  ultimately show ?thesis by blast
qed

theorem live_stream_misses_report_witness:
  "\<exists>w t rs' t'. RemoteHypercore_on_append sample_session_rpc 3 5 0 (sample_pair\<lparr>cl_resource_counter := 2, cl_world := w\<rparr>) = (Inr (), t) \<and>
     drive_stream sample_session_rpc [True, True, True] sample_at_end t = (Inr ([], rs'), t') \<and>
     follows_log sample_api sample_block 0 [[1, 2], [4], [5, 6]] 3 t'"
proof -
  obtain w t where t: "RemoteHypercore_on_append sample_session_rpc 3 5 0 (sample_pair\<lparr>cl_resource_counter := 2, cl_world := w\<rparr>) = (Inr (), t)"
      "follows_log sample_api sample_block 0 [[1, 2], [4], [5, 6]] (unat (3 :: u64)) t"
    by (rule sample_report [OF sample_follows_on(1), of "cl_cores sample_pair ! 0"]) (simp_all add: sample_listener_cell)
  have "follows_log sample_api sample_block 0 [[1, 2]] (Suc 0) sample_pair" using sample_follows by simp
  from live_stream_misses_report [OF this sample_poll_last _ t(2), of 5 w "[True, True, True]"] t show ?thesis by auto
qed

text \<open>
  C40. A report that brings nothing new wakes a waiting live stream too: it asks for a block that does not
  exist and reports the end of the stream.  Appending several blocks at once causes such reports, since
  each block causes one and all of them carry the length at the time they are sent.
\<close>

theorem live_stream_ends_on_stale_report:
  assumes "follows_log fa block q bs (Suc i) s" and "length bs = Suc i" and "Suc (Suc i) < 2 ^ 64"
    and "ReadStream_poll_next (session_rpc ext fa seek hex alive) True (RemoteHypercore_to_stream q (of_nat i) None True) s = (Inr (p1, rs1), s1)"
    and "ReadStream_poll_next (session_rpc ext fa seek hex alive) a rs1 s1 = (Inr (p2, rs2), s2)" and "alive (cl_channels s1)"
    and "RemoteHypercore_on_append (session_rpc ext fa seek hex alive) len bl q s2 = (Inr (), t)" and "follows_log fa block q bs (unat len) t"
    and "RemoteHypercore_get (session_rpc ext fa seek hex alive) (of_nat (Suc i)) q t = (Inr b, t')"
  shows "\<exists>rs3. ReadStream_poll_next (session_rpc ext fa seek hex alive) True rs2 t = (Inr (Ready None, rs3), t')"
proof -
  have at: "feed_blocks fa block" "attached fa block q bs t" "client_inv t" using assms(8) by (simp_all add: follows_log_def)
  note got = attached_get_any [OF at(1,2) assms(9)]
  have "unat (of_nat (Suc i) :: u64) = Suc i" using assms(3) by (intro unat_of_nat_u64) simp
  then have "b = None" using got(1) assms(2) by (simp del: of_nat_Suc)
  moreover have "follows_log fa block q bs (unat len) t'"
    using assms(8) got(2,3) client_inv_preserves [OF view_get at(3) assms(9)] by (auto simp: follows_log_def mirrors_def)
  moreover have "RemoteHypercore_on_append (session_rpc ext fa seek hex alive) len bl q (s2\<lparr>cl_world := cl_world s2\<rparr>) = (Inr (), t)"
    using assms(7) by simp
  moreover have "receiver_alive (session_rpc ext fa seek hex alive) (cl_channels s1)" using assms(6) by (simp add: session_rpc_def)
  ultimately show ?thesis
    using session_live.live_ends [OF assms(1,4,5)] assms(3,9) by blast
qed

theorem live_stream_ends_on_stale_report_witness:
  "\<exists>t rs' t'. RemoteHypercore_on_append sample_session_rpc 1 2 0 sample_listener = (Inr (), t) \<and>
     ReadStream_poll_next sample_session_rpc True (sample_at_end\<lparr>rs_future := Waiting 0 1 0 0\<rparr>) t = (Inr (Ready None, rs'), t')"
proof -
  obtain r t where t: "RemoteHypercore_on_append sample_session_rpc 1 2 0 (sample_listener\<lparr>cl_world := cl_world sample_listener\<rparr>) = (r, t)" by fastforce
  have "attached sample_api sample_block 0 [[1, 2]] (sample_listener\<lparr>cl_world := cl_world sample_listener\<rparr>)"
    using sample_follows_on(2) by (simp add: follows_log_def)
  from follows_report(1,2) [OF sample_follows_on(2) this t] have
    t': "RemoteHypercore_on_append sample_session_rpc 1 2 0 sample_listener = (Inr (), t)" "follows_log sample_api sample_block 0 [[1, 2]] (unat (1 :: u64)) t"
    using t by simp_all
  have "\<exists>b t'. RemoteHypercore_get sample_session_rpc (of_nat (Suc 0)) 0 t = (Inr b, t')"
    using t'(2) by (intro sample_get [of _ "[[1, 2]]"]) (simp add: follows_log_def)
  then obtain b t'' where get: "RemoteHypercore_get sample_session_rpc (of_nat (Suc 0)) 0 t = (Inr b, t'')" by blast
  have "follows_log sample_api sample_block 0 [[1, 2]] (Suc 0) sample_pair" using sample_follows by simp
  from live_stream_ends_on_stale_report [OF this _ _ sample_poll_last sample_poll_listens _ t' get] t'(1) show ?thesis by auto
qed

end
