(* ===== verification/Live_Updates.thy ===== *)
theory Live_Updates
  imports Live_Streams Server_App_Theorems
begin

section \<open>One client's append reaches the others\<close>

text \<open>
  Two clients have the same feed open, each through a session of its own.  What one appends becomes the log
  the other's handle is connected to, once the other session's forwarding task has run and its message
  has arrived.
\<close>

lemma session_view_append:
  assumes "i < length (dm_sessions d)" and "j < length (dm_sessions d)" and "sv_session v = dm_sessions d ! i"
  shows "session_view j (put_session i v d) = \<lparr>sv_session = dm_sessions d ! j, sv_store = sv_store v\<rparr>"
  using assms by (simp add: session_view_def put_session_def nth_list_update)

text \<open>A forwarding task that hears of an append.\<close>

lemma task_event_append:
  assumes f: "deref (sv_heap s) (nt_feed (ss_tasks (sv_session s) ! t)) = Some f"
    and run: "task_event fa call t FeedAppend s = (Inr (), s')"
  shows "ss_sent (sv_session s') = ss_sent (sv_session s) @
      [client_event.OnAppend \<lparr>ae_id = nt_id (ss_tasks (sv_session s) ! t), ae_length = f_len fa f, ae_byte_length = f_byte_len fa f\<rparr>]"
    and "sv_heap s' = sv_heap s" and "sv_cores s' = sv_cores s"
proof -
  have m: "event_message fa (nt_id (ss_tasks (sv_session s) ! t)) f FeedAppend =
      Some (client_event.OnAppend \<lparr>ae_id = nt_id (ss_tasks (sv_session s) ! t), ae_length = f_len fa f, ae_byte_length = f_byte_len fa f\<rparr>)"
    by (simp add: event_message_def)
  have "notify_event fa call (nt_id (ss_tasks (sv_session s) ! t)) (nt_feed (ss_tasks (sv_session s) ! t)) FeedAppend s = (Inr (), s')"
    using run by (simp add: task_event_def rust_get_bind_apply)
  then have "call_client call (client_event.OnAppend \<lparr>ae_id = nt_id (ss_tasks (sv_session s) ! t), ae_length = f_len fa f,
      ae_byte_length = f_byte_len fa f\<rparr>) s = (Inr (), s')"
    by (simp add: notify_event_run [OF f] m)
  then show "ss_sent (sv_session s') = ss_sent (sv_session s) @
      [client_event.OnAppend \<lparr>ae_id = nt_id (ss_tasks (sv_session s) ! t), ae_length = f_len fa f, ae_byte_length = f_byte_len fa f\<rparr>]"
      "sv_heap s' = sv_heap s" "sv_cores s' = sv_cores s"
    by (auto simp: call_client_run split: prod.splits sum.splits)
qed

text \<open>
  C13. When two sessions of the server have the same feed open and one appends blocks to it, the forwarding
  task of the other sends its client one message; with it the handle of that client is connected to the
  old log followed by the new blocks: its length is right and every block can be read.
\<close>

theorem append_reaches_other_client:
  assumes laws: "feed_blocks fa block" and ok: "cores_ok (session_view j d)" and ids: "i < length (dm_sessions d)" "j < length (dm_sessions d)"
    and client: "connected fa block q bs s" "cl_world s = session_view j d" "deref (cl_cores s) q = Some c"
      "NamedMap_get (cl_sessions s) (ih_id c) = Some q" "unat (ih_id c) < 2 ^ 32"
    and shared: "fmlookup (ss_cores (dm_sessions d ! i)) (ar_id req) = Some st"
      "fmlookup (ss_cores (dm_sessions d ! j)) (ucast (ih_id c)) = Some st'" "fs_feed st' = fs_feed st" "fs_notify_task st' = Some t"
    and append: "Session_append fa req (session_view i d) = (Inr resp, v)"
    and forward: "task_event fa call t FeedAppend (session_view j (put_session i v d)) = (Inr (), v')"
  shows "\<exists>msg s'. ss_sent (sv_session v') = ss_sent (dm_sessions d ! j) @ [msg] \<and>
    RemoteCorestore_on_event (session_rpc ext fa seek hex alive) msg (s\<lparr>cl_world := v'\<rparr>) = (Inr (), s') \<and>
    connected fa block q (bs @ ar_blocks req) s'"
proof -
  let ?rpc = "session_rpc ext fa seek hex alive"
  obtain f where f: "deref (hb_heap (dm_hub d)) (fs_feed st) = Some f" "holds_log fa block bs f"
    using client(1-3) shared(2,3) by (auto simp: connected_def session_view_def)
  have core: "fmlookup (sv_cores (session_view i d)) (ar_id req) = Some st" "deref (sv_heap (session_view i d)) (fs_feed st) = Some f"
    using shared(1) f(1) by (simp_all add: session_view_def)
  obtain f' where f': "deref (sv_heap v) (fs_feed st) = Some f'" "log_extended fa block (ar_blocks req) f f'"
      "sv_session v = dm_sessions d ! i"
    using laws core append by (rule Session_append_log) (auto simp: session_view_def)
  have log: "holds_log fa block (bs @ ar_blocks req) f'" using f(2) f'(2) by (rule holds_log_extended)
  let ?w = "session_view j (put_session i v d)"
  have w: "?w = \<lparr>sv_session = dm_sessions d ! j, sv_store = sv_store v\<rparr>" using ids f'(3) by (rule session_view_append)
  have task: "nt_id (ss_tasks (sv_session ?w) ! t) = ih_id c" "nt_feed (ss_tasks (sv_session ?w) ! t) = fs_feed st"
  proof -
    have "nt_id (ss_tasks (dm_sessions d ! j) ! t) = ih_id c \<and> nt_feed (ss_tasks (dm_sessions d ! j) ! t) = fs_feed st"
      using ok [unfolded cores_ok_def, THEN spec, THEN spec, of "ucast (ih_id c)" st'] shared(2-4) u32_round_trip [OF client(5)]
      by (auto simp: session_view_def)
    then show "nt_id (ss_tasks (sv_session ?w) ! t) = ih_id c" "nt_feed (ss_tasks (sv_session ?w) ! t) = fs_feed st" by (simp_all add: w)
  qed
  let ?msg = "client_event.OnAppend \<lparr>ae_id = ih_id c, ae_length = f_len fa f', ae_byte_length = f_byte_len fa f'\<rparr> :: client_event"
  have "deref (sv_heap ?w) (nt_feed (ss_tasks (sv_session ?w) ! t)) = Some f'" using f'(1) by (simp only: task(2)) (simp add: w)
  note sent = task_event_append [OF this forward, unfolded task(1)]
  have cell: "deref (cl_cores (s\<lparr>cl_world := v'\<rparr>)) q = Some c" using client(3) by simp
  let ?s = "s\<lparr>cl_world := v', cl_cores := (cl_cores s)[q := c\<lparr>ih_length := f_len fa f', ih_byte_length := f_byte_len fa f'\<rparr>],
    cl_events := cl_events s @ map (\<lambda>c. (c, HypercoreAppend)) (filter (receiver_alive ?rpc) (ih_listeners c))\<rparr>"
  have "RemoteCorestore_on_event ?rpc ?msg (s\<lparr>cl_world := v'\<rparr>) = (Inr (), ?s)"
    using client(4) on_append_run [OF cell, of ?rpc]
    by (simp add: RemoteCorestore_on_event_def RemoteCorestore_on_append_def rust_get_bind_apply)
  moreover have "connected fa block q (bs @ ar_blocks req) ?s"
    unfolding connected_def using cell shared(2,3) f'(1) sent(2,3) log
    by (intro exI [of _ "c\<lparr>ih_length := f_len fa f', ih_byte_length := f_byte_len fa f'\<rparr>"] exI [of _ st'] exI [of _ f'])
      (simp add: w deref_eq_Some)
  moreover have "ss_sent (sv_session v') = ss_sent (dm_sessions d ! j) @ [?msg]" using sent(1) by (simp add: w)
  ultimately show ?thesis by blast
qed

text \<open>Two clients of the sample server, both with the feed open under the id 3.\<close>

definition sample_shared :: "(sample_files, sample_feed, u64 list) daemon" where
  "sample_shared = \<lparr>dm_hub = Replicator_new (sv_store sample_sv), dm_sessions = [sv_session sample_sv, sv_session sample_sv], dm_topics = []\<rparr>"

definition sample_other :: "(sample_files, sample_feed) sv_state cl_state" where
  "sample_other = sample_pair\<lparr>cl_sessions := NamedMap_new\<lparr>im_map := fmap_of_list [(1, 5), (2, 6), (3, 0)]\<rparr>\<rparr>"

lemma sample_shared_views: "session_view 0 sample_shared = sample_sv" "session_view 1 sample_shared = sample_sv" "session_view (Suc 0) sample_shared = sample_sv"
  by (simp_all add: session_view_def sample_shared_def Replicator_new_def)

theorem append_reaches_other_client_witness:
  "\<exists>resp v v' msg s'. Session_append sample_api \<lparr>ar_id = 3, ar_blocks = [[4], [5, 6]]\<rparr> (session_view 0 sample_shared) = (Inr resp, v) \<and>
     task_event sample_api (\<lambda>m w. (Inr (), w)) 0 FeedAppend (session_view 1 (put_session 0 v sample_shared)) = (Inr (), v') \<and>
     RemoteCorestore_on_event sample_session_rpc msg (sample_other\<lparr>cl_world := v'\<rparr>) = (Inr (), s') \<and>
     connected sample_api sample_block 0 [[1, 2], [4], [5, 6]] s'"
proof -
  let ?req = "\<lparr>ar_id = 3, ar_blocks = [[4], [5, 6]]\<rparr> :: append_request"
  let ?st = "\<lparr>fs_id = 3, fs_feed = 0, fs_notify_task = Some 0\<rparr>"
  let ?c = "InnerHypercore_default\<lparr>ih_id := 3, ih_key := Some [9], ih_open := True, ih_length := 1, ih_byte_length := 2\<rparr>"
  obtain resp v where v: "Session_append sample_api ?req (session_view 0 sample_shared) = (Inr resp, v)"
    using sample_append by (auto simp: sample_shared_views)
  have core: "fmlookup (sv_cores sample_sv) (ar_id ?req) = Some ?st" "deref (sv_heap sample_sv) (fs_feed ?st) \<noteq> None"
    by (simp_all add: sample_sv_core deref_def)
  obtain f' where f': "deref (sv_heap v) 0 = Some f'" "sv_session v = sv_session sample_sv"
  proof -
    obtain f where "deref (sv_heap sample_sv) (fs_feed ?st) = Some f" using core(2) by blast
    from Session_append_log [OF sample_feed_blocks core(1) this v [unfolded sample_shared_views]] that show ?thesis by auto
  qed
  have w: "session_view 1 (put_session 0 v sample_shared) = \<lparr>sv_session = sv_session sample_sv, sv_store = sv_store v\<rparr>"
    using f'(2) by (simp add: session_view_def put_session_def sample_shared_def)
  have task: "ss_tasks (sv_session sample_sv) ! 0 = \<lparr>nt_id = 3, nt_feed = 0, nt_events = None\<rparr>" by (simp add: sample_sv_def)
  obtain v' where v': "task_event sample_api (\<lambda>m w. (Inr (), w)) 0 FeedAppend (session_view 1 (put_session 0 v sample_shared)) = (Inr (), v')"
    using f'(1) unfolding w by (simp add: task task_event_def rust_get_bind_apply notify_event_run event_message_def call_client_run)
  have conn: "connected sample_api sample_block 0 [[1, 2]] sample_other"
    using sample_connected by (simp add: connected_def sample_other_def)
  have cell: "deref (cl_cores sample_other) 0 = Some ?c" "cl_world sample_other = session_view 1 sample_shared"
      "NamedMap_get (cl_sessions sample_other) (ih_id ?c) = Some 0" "unat (ih_id ?c) < 2 ^ 32"
    by (simp_all add: sample_other_def sample_pair_def deref_def sample_shared_views NamedMap_get_def NamedMap_new_def InnerMap_new_def)
  have cores: "cores_ok (session_view 1 sample_shared)" by (simp add: sample_shared_views cores_ok_def sample_sv_def)
  have shared: "fmlookup (ss_cores (dm_sessions sample_shared ! 0)) (ar_id ?req) = Some ?st"
      "fmlookup (ss_cores (dm_sessions sample_shared ! 1)) (ucast (ih_id ?c)) = Some ?st"
    using core(1) by (simp_all add: sample_shared_def)
  from append_reaches_other_client [OF sample_feed_blocks cores _ _ conn cell(2,1,3,4) shared refl _ v v', of sample_ext
      "\<lambda>req w. (Inl (IoError ''not implemented''), w)" "map (\<lambda>b. char_of (unat b))" "\<lambda>_. True"] v v' show ?thesis
    by (auto simp: sample_shared_def)
qed

end
