(* ===== verification/Key_Types.thy ===== *)
theory Key_Types
  imports Core_Store_Theorems Core_Store_Steps
begin

section \<open>Keys have 32 bytes\<close>

text \<open>
  The code's keys are arrays \<open>[u8; 32]\<close>, the model's are lists of bytes.  In every state a corestore can
  reach the lists have the arrays' length, so nothing the model does is excluded by the code's types.
\<close>

definition size_laws :: "('w, 'f, 'st, 'h) cs_ext \<Rightarrow> bool" where
  "size_laws ext \<longleftrightarrow>
     (\<forall>w b w'. x_random ext w = (Inr b, w') \<longrightarrow> length b = 32) \<and>
     (\<forall>k. length k = 32 \<longrightarrow> length (x_discovery_key ext k) = 32)"

definition keys_typed :: "('w, 'f, 'st, 'h) cs_ext \<Rightarrow> ('w, 'f) cs_state \<Rightarrow> bool" where
  "keys_typed ext s \<longleftrightarrow>
     length (ic_master_key (cs_inner s)) = 32 \<and> (\<forall>f \<in> set (cs_heap s). length (x_feed_public_key ext f) = 32)"

lemma typed_same_mem: "same_mem s s' \<Longrightarrow> keys_typed ext s' \<longleftrightarrow> keys_typed ext s"
  by (auto simp: same_mem_def keys_typed_def)

lemma typed_filed: "keys_typed ext s \<Longrightarrow> length (x_feed_public_key ext f) = 32 \<Longrightarrow> keys_typed ext (filed ext f gn k s)"
  by (simp add: keys_typed_def filed_def)

lemma typed_open_feed:
  assumes laws: "feed_build_law ext" "key_laws ext" and typed: "keys_typed ext s"
    and run: "InnerCorestore_open_feed ext key name s = (r, s')"
  shows "keys_typed ext s'"
  using run
proof (cases rule: open_feed_cases)
  case (opened pk sk gn s0 s1 f st w)
  have "length (x_feed_public_key ext f) = 32"
    using opened_name(1) [OF laws(1) opened(3-5)] keys_ok_length [OF laws(2) feed_keys_ok(1) [OF opened(3)]] by simp
  moreover have "keys_typed ext s1" using typed by (simp add: typed_same_mem [OF opened(4)])
  ultimately have filed: "keys_typed ext (filed ext f gn k s1)" for k by (intro typed_filed)
  from opened(6) show ?thesis by (cases rule: file_feed_cases) (simp_all add: filed)
qed (use typed typed_same_mem in auto)

lemma typed_master_key:
  fixes ext :: "('w, 'f, 'st, 'h) cs_ext"
  assumes sizes: "size_laws ext" and run: "InnerCorestore_open ext p w = (Inr ic, w')"
  shows "length (ic_master_key ic) = 32"
proof -
  have rand: "length key = 32" if "rust_unwrap (x_random ext) v = (Inr key, v')" for key v v'
    using that sizes by (auto simp: rust_unwrap_def size_laws_def split: prod.splits sum.splits)
  have disk: "length key' = 32" if "rust_unwrap (rust_lift (key_try_into key)) v = (Inr key', v')" for key key' and v v' :: 'w
    using that by (auto simp: rust_unwrap_def rust_lift_apply key_try_into_def split: if_splits)
  show ?thesis
    using run unfolding InnerCorestore_open_def InnerCorestore_with_storage_path_def generate_key_def
    by (auto simp: rust_return_apply split: option.splits elim!: rust_bind_InrE) (erule rand, erule disk)
qed

interpretation typed_store: transition_system "corestore_init ext p" "corestore_step ext"
  "\<lambda>s. feed_build_law ext \<longrightarrow> key_laws ext \<longrightarrow> size_laws ext \<longrightarrow> keys_typed ext s" for ext p
proof (unfold_locales, goal_cases)
  case (1 s)
  then show ?case
    by (auto simp: corestore_init_def keys_typed_def elim!: Corestore_open_ok dest: typed_master_key)
next
  case (2 s t)
  have typed: "keys_typed ext t" if "feed_build_law ext" "key_laws ext" "keys_typed ext s"
    using 2(2)
  proof cases
    case (by_key key r)
    then show ?thesis using typed_open_feed [OF that] by (simp add: Corestore_get_by_key_def InnerCorestore_get_by_key_def)
  next
    case (by_name name r)
    then show ?thesis using typed_open_feed [OF that] by (simp add: Corestore_get_by_name_def InnerCorestore_get_by_name_def)
  next
    case (by_dkey dkey r)
    then have "InnerCorestore_get_by_dkey ext dkey s = (r, t)" by (simp add: Corestore_get_by_dkey_def)
    then show ?thesis
    proof (cases rule: get_by_dkey_cases)
      case (on_disk key q s1 s2 r')
      have "keys_typed ext s2" using that(3) by (simp add: typed_same_mem [OF on_disk(3)])
      then show ?thesis using typed_open_feed [OF that(1,2)] on_disk(6) by (simp add: InnerCorestore_get_by_key_def)
    qed (use that(3) typed_same_mem in auto)
  next
    case (subscribe c)
    then show ?thesis using that(3) by (auto simp: Corestore_subscribe_run keys_typed_def)
  qed
  with 2(1) show ?case by blast
qed



end
