(* ===== verification/Peer_Append.thy ===== *)
theory Peer_Append
  imports Peer_Sync
begin

section \<open>Announcing appended blocks\<close>

text \<open>
  A peer that hears of an append to its feed announces the block at the end the feed has by then.  One
  block at a time reaches the other peer this way; of several blocks appended before the peer gets to its
  events only the last does.
\<close>

lemma feed_append_announced:
  assumes up: "channel_up px" and f: "deref (ps_heap a) (own_feed a) = Some f" and len: "0 < f_len fa f"
  obtains a' where "Peer_handle fa px (FeedEv FeedAppend) a = (Inr (), a')"
    "sent_only [HaveMsg \<lparr>h_start = f_len fa f - 1, h_length = None, h_bitfield = None, h_ack = None\<rparr>] a a'"
proof -
  let ?m = "HaveMsg \<lparr>h_start = f_len fa f - 1, h_length = None, h_bitfield = None, h_ack = None\<rparr>"
  obtain a' where a': "send_msg px ?m a = (Inr (), a')" "sent_only [?m] a a'" using up by (rule send_msg_up)
  have "unat (f_len fa f) = Suc (unat (f_len fa f - 1))" using len by (simp add: unat_minus_one word_gt_0 unat_gt_0)
  then have "u64_sub (f_len fa f) 1 = Inr (f_len fa f - 1)" by (simp add: u64_sub_eq_Inr)
  with own_feed_look [OF f, of "f_len fa"] a' show ?thesis
    by (intro that) (simp_all add: Peer_handle_def Peer_send_have_def rust_bind_apply rust_lift_apply)
qed

lemma feed_appends_announced:
  assumes up: "channel_up px" and f: "deref (ps_heap a) (own_feed a) = Some f" and len: "0 < f_len fa f"
  shows "\<exists>a'. rust_for (Peer_handle fa px) (replicate k (FeedEv FeedAppend)) a = (Inr (), a') \<and>
    sent_only (replicate k (HaveMsg \<lparr>h_start = f_len fa f - 1, h_length = None, h_bitfield = None, h_ack = None\<rparr>)) a a'"
  using f
proof (induction k arbitrary: a)
  case 0
  then show ?case by (simp add: rust_return_apply sent_only_Nil)
next
  case (Suc k)
  let ?m = "HaveMsg \<lparr>h_start = f_len fa f - 1, h_length = None, h_bitfield = None, h_ack = None\<rparr>"
  obtain a1 where a1: "Peer_handle fa px (FeedEv FeedAppend) a = (Inr (), a1)" "sent_only [?m] a a1"
    using up Suc.prems len by (rule feed_append_announced)
  have "deref (ps_heap a1) (own_feed a1) = Some f" using Suc.prems sent_only_heap [OF a1(2)] by simp
  from Suc.IH [OF this] obtain a' where "rust_for (Peer_handle fa px) (replicate k (FeedEv FeedAppend)) a1 = (Inr (), a')"
      "sent_only (replicate k ?m) a1 a'" by blast
  with a1(1) sent_only_trans [OF a1(2), of "replicate k ?m" a'] show ?case by (auto simp: rust_bind_apply)
qed

text \<open>The counters of a peer can take \<open>k\<close> copies of a block of \<open>n\<close> bytes.\<close>

definition room_for :: "nat \<Rightarrow> nat \<Rightarrow> stats \<Rightarrow> bool" where
  "room_for k n st \<longleftrightarrow>
     unat (st_uploaded_blocks st) + k < 2 ^ 64 \<and> unat (st_uploaded_bytes st) + k * n < 2 ^ 64 \<and>
     unat (st_downloaded_blocks st) + k < 2 ^ 64 \<and> unat (st_downloaded_bytes st) + k * n < 2 ^ 64"

text \<open>
  C21. A peer handles the events of \<open>k\<close> appends after all of them have happened, as it must when one request
  appends \<open>k\<close> blocks, since the feed is locked meanwhile.  Its announcements, the requests of a peer that
  lacks the last block, the answers and the storing of the answers are handled without an error;
  afterwards the other peer has the last of the appended blocks, and of the others it has no more than
  before: for \<open>k = 1\<close> everything has arrived, for \<open>k > 1\<close> the first \<open>k - 1\<close> blocks are not announced.
\<close>

theorem appends_announce_last_block:
  assumes laws: "feed_proofs fa block fkey valid" "codec_laws px" and up: "channel_up px"
    and a: "at_peer a fA stA" and s: "at_peer s f st" and key: "fkey f = fkey fA" and sent: "ps_sent a = []" "ps_sent s = []"
    and last: "0 < f_len fa fA" "block fA (f_len fa fA - 1) = Some b" "block f (f_len fa fA - 1) = None"
    and k: "0 < k" and room: "room_for k (length b) stA" "room_for k (length b) st"
  shows "\<exists>haves reqs ms a1 a2 s1 s2 f' st'.
    rust_for (Peer_handle fa px) (replicate k (FeedEv FeedAppend)) a = (Inr (), a1) \<and> ps_sent a1 = haves \<and>
    rust_for (Peer_handle fa px) (map MessageEv haves) s = (Inr (), s1) \<and> ps_sent s1 = reqs \<and>
    rust_for (Peer_handle fa px) (map MessageEv reqs) a1 = (Inr (), a2) \<and> ps_sent a2 = haves @ ms \<and>
    rust_for (Peer_handle fa px) (map MessageEv ms) s1 = (Inr (), s2) \<and> at_peer s2 f' st' \<and>
    block f' = (block f)(f_len fa fA - 1 \<mapsto> b)"
proof -
  let ?i = "f_len fa fA - 1"
  let ?h = "\<lparr>h_start = ?i, h_length = None, h_bitfield = None, h_ack = None\<rparr>"
  have cells: "deref (ps_heap a) (own_feed a) = Some fA" "deref (ps_heap s) (own_feed s) = Some f" using a s by (simp_all add: at_peer_def)
  obtain a1 where a1: "rust_for (Peer_handle fa px) (replicate k (FeedEv FeedAppend)) a = (Inr (), a1)" "sent_only (replicate k (HaveMsg ?h)) a a1"
    using feed_appends_announced [OF up cells(1) last(1)] by blast
  have "list_all2 (\<lambda>h idxs. announced px h = Inr idxs) (replicate k ?h) (replicate k [?i])"
    using announced_last [OF last(1), of px] by (simp add: list_all2_conv_all_nth)
  from on_haves_run [OF up this cells(2), of fa] obtain s1 where
    s1: "rust_for (Peer_handle fa px) (map (MessageEv \<circ> HaveMsg) (replicate k ?h)) s = (Inr (), s1)"
      "sent_only (map request_for (filter (\<lambda>i. \<not> f_has fa f i) (concat (replicate k [?i])))) s s1" by (elim exE conjE)
  have wanted: "filter (\<lambda>i. \<not> f_has fa f i) (concat (replicate k [?i])) = replicate k ?i"
    using last(3) has_block [OF laws(1)] by (simp add: concat_replicate_single)
  have at: "at_peer a1 fA stA" "at_peer s1 f st" using a s at_peer_sent [OF a1(2)] at_peer_sent [OF s1(2)] by simp_all
  have known: "\<forall>i \<in> set (replicate k ?i). block fA i \<noteq> None" using last(2) by simp
  obtain ms a2 s2 fA' f' stA' st' where x: "rust_for (Peer_handle fa px) (map (MessageEv \<circ> request_for) (replicate k ?i)) a1 = (Inr (), a2)"
      "ps_sent a2 = ps_sent a1 @ ms" "rust_for (Peer_handle fa px) (map MessageEv ms) s1 = (Inr (), s2)" "at_peer s2 f' st'"
      "\<forall>i. block f' i = (if i \<in> set (replicate k ?i) then block fA i else block f i)"
    by (rule exchange_run [OF laws up at key known]) (use room in \<open>simp_all add: last(2) sum_list_replicate room_for_def\<close>)
  have "block f' = (block f)(?i \<mapsto> b)" using x(5) k last(2) by (auto simp: fun_eq_iff)
  moreover have "ps_sent a1 = replicate k (HaveMsg ?h)" "ps_sent s1 = replicate k (request_for ?i)"
    using a1(2) s1(2) [unfolded wanted] sent by (simp_all add: sent_only_def)
  ultimately show ?thesis
    using a1(1) s1(1) x(1-4)
    by (intro exI [of _ "replicate k (HaveMsg ?h)"] exI [of _ "replicate k (request_for ?i)"] exI [of _ ms] exI [of _ a1] exI [of _ a2]
        exI [of _ s1] exI [of _ s2] exI [of _ f'] exI [of _ st']) simp
qed

theorem appends_announce_last_block_witness:
  "\<exists>haves reqs ms a1 a2 s1 s2 f' st'.
     rust_for (Peer_handle sample_api small_proto) [FeedEv FeedAppend, FeedEv FeedAppend] (sample_peer [Some [7], Some [8, 9]]) = (Inr (), a1) \<and>
     ps_sent a1 = haves \<and> rust_for (Peer_handle sample_api small_proto) (map MessageEv haves) (sample_peer []) = (Inr (), s1) \<and> ps_sent s1 = reqs \<and>
     rust_for (Peer_handle sample_api small_proto) (map MessageEv reqs) a1 = (Inr (), a2) \<and> ps_sent a2 = haves @ ms \<and>
     rust_for (Peer_handle sample_api small_proto) (map MessageEv ms) s1 = (Inr (), s2) \<and> at_peer s2 f' st' \<and>
     sample_block f' 1 = Some [8, 9] \<and> sample_block f' 0 = None"
proof -
  have none: "sample_block no_blocks i = None" for i by (simp add: sample_block_def)
  have sent: "ps_sent (sample_peer bs) = []" for bs by (simp add: sample_peer_def)
  have len: "f_len sample_api two_blocks = 2" by (simp add: sample_api_def)
  have last: "0 < f_len sample_api two_blocks" "sample_block two_blocks (f_len sample_api two_blocks - 1) = Some [8, 9]"
    by (simp_all add: len two_blocks_at)
  have room: "room_for 2 (length ([8, 9] :: bytes)) Stats_default" by (simp add: room_for_def Stats_default_def)
  have key: "sf_key no_blocks = sf_key two_blocks" by simp
  have two: "replicate 2 (FeedEv FeedAppend) = [FeedEv FeedAppend, FeedEv FeedAppend]" by (simp add: numeral_2_eq_2)
  have got: "sample_block f' 1 = Some [8, 9]" "sample_block f' 0 = None"
    if "sample_block f' = (sample_block no_blocks)(f_len sample_api two_blocks - 1 \<mapsto> [8, 9])" for f'
    using that none by (simp_all add: len)
  show ?thesis
    using appends_announce_last_block [OF sample_feed_proofs small_codec_laws small_proto_laws(1) sample_at_peer sample_at_peer key sent sent
        last none _ room room, unfolded two]
    by (elim exE conjE meta_impE, simp) (intro exI conjI, (assumption | rule got)+)
qed

end
