(* ===== verification/Hub_Sync.thy ===== *)
theory Hub_Sync
  imports Peer_Sync Replicator_Theorems
begin

section \<open>The tasks of the peers\<close>

text \<open>
  A peer's task works on its part of the replicator's state: \<open>task_view\<close> is this part, and what the handlers of
  a peer do to it, the task does to the replicator.  The event of an open channel attaches a peer.
\<close>

subsection \<open>The state of one peer's task\<close>

definition task_view :: "nat \<Rightarrow> ('w, 'f, 'bf) hub_state \<Rightarrow> ('w, 'f, 'bf) peer_state" where
  "task_view p s =
     \<lparr>ps_peer = pt_peer (hb_peers s ! p), ps_store = hb_store s, ps_stats = hb_stats s, ps_sent = pt_sent (hb_peers s ! p)\<rparr>"

lemma task_sent: "pt_sent (hb_peers s ! p) = ps_sent (task_view p s)"
  by (simp add: task_view_def)

lemma in_peer_run:
  assumes "p < length (hb_peers s)" and "m (task_view p s) = (Inr u, ps)"
  shows "\<exists>s'. in_peer p m s = (Inr u, s') \<and> task_view p s' = ps \<and> p < length (hb_peers s')"
  using assms by (simp add: in_peer_def task_view_def Let_def)

lemma peer_events_run:
  assumes "rust_for (Peer_handle fa px) evs (task_view p s) = (Inr (), ps)" and "p < length (hb_peers s)"
  shows "\<exists>s'. rust_for (peer_task_event fa px p) evs s = (Inr (), s') \<and> task_view p s' = ps \<and> p < length (hb_peers s')"
  using assms
proof (induction evs arbitrary: s)
  case Nil
  then show ?case by (simp add: rust_return_apply)
next
  case (Cons ev evs)
  from Cons.prems(1) obtain ps1 where ps1: "Peer_handle fa px ev (task_view p s) = (Inr (), ps1)"
      "rust_for (Peer_handle fa px) evs ps1 = (Inr (), ps)"
    by (auto elim!: rust_bind_InrE)
  obtain s1 where s1: "in_peer p (Peer_handle fa px ev) s = (Inr (), s1)" "task_view p s1 = ps1" "p < length (hb_peers s1)"
    using in_peer_run [where m = "Peer_handle fa px ev", OF Cons.prems(2) ps1(1)] by blast
  from Cons.IH [of s1] s1 ps1(2) show ?case by (auto simp: rust_bind_apply peer_task_event_def)
qed

subsection \<open>Starting a peer\<close>

text \<open>Subscribing to a feed succeeds and leaves its blocks alone.\<close>

definition subscribe_law :: "('w, 'f, 'nd, 'sig) feed_api \<Rightarrow> ('f \<Rightarrow> u64 \<Rightarrow> bytes option) \<Rightarrow> ('f \<Rightarrow> bytes) \<Rightarrow> bool" where
  "subscribe_law fa block fkey \<longleftrightarrow>
     (\<forall>f w. \<exists>c f' w'. f_subscribe fa (f, w) = (Inr c, f', w') \<and> block f' = block f \<and> fkey f' = fkey f \<and>
        f_len fa f' = f_len fa f \<and> f_compress fa f' = f_compress fa f)"

lemma peer_subscribed:
  assumes "subscribe_law fa block fkey" and at: "at_peer s f st"
  obtains n s' f' where "with_own_feed (f_subscribe fa) s = (Inr n, s')" "at_peer s' f' st" "ps_sent s' = ps_sent s"
    "block f' = block f" "fkey f' = fkey f" "f_len fa f' = f_len fa f" "f_compress fa f' = f_compress fa f"
proof -
  obtain n f' w' where f': "f_subscribe fa (f, cs_world (ps_store s)) = (Inr n, f', w')" "block f' = block f" "fkey f' = fkey f"
      "f_len fa f' = f_len fa f" "f_compress fa f' = f_compress fa f"
    using assms(1) unfolding subscribe_law_def by blast
  obtain s' where "with_own_feed (f_subscribe fa) s = (Inr n, s')" "at_peer s' f' st" "ps_sent s' = ps_sent s"
    using at f'(1) by (rule own_feed_step)
  with f' show ?thesis by (intro that [of n s' f'])
qed

lemma peer_start_run:
  assumes "with_own_feed (f_subscribe fa) s = (Inr n, s1)" and "Peer_on_open px s1 = (Inr (), s2)"
  shows "Peer_run fa px [] s = (Inr (), s2)"
  using assms by (simp add: Peer_run_def rust_bind_apply rust_return_apply)

lemma on_open_at_peer:
  assumes "channel_up px" and "at_peer s f st"
  obtains s' where "Peer_on_open px s = (Inr (), s')" "at_peer s' f st"
    "ps_sent s' = ps_sent s @ [WantMsg \<lparr>w_start = 0, w_length = Some (1024 * 1024)\<rparr>]" "pr_remote_ack (ps_peer s') = pr_remote_ack (ps_peer s)"
proof -
  let ?want = "WantMsg \<lparr>w_start = 0, w_length = Some (1024 * 1024)\<rparr>"
  let ?s = "s\<lparr>ps_peer := (ps_peer s)\<lparr>pr_want_bitfield := p_bf_set px 0 True (pr_want_bitfield (ps_peer s))\<rparr>\<rparr>"
  obtain s1 where s1: "send_msg px ?want ?s = (Inr (), s1)" "sent_only [?want] ?s s1" using assms(1) by (rule send_msg_up)
  have "at_peer ?s f st" using assms(2) by (simp add: at_peer_def)
  then show ?thesis
    using s1 at_peer_sent [OF s1(2)]
    by (intro that [of s1]) (simp_all add: Peer_on_open_def Peer_send_wants_def Let_def rust_bind_apply rust_modify_apply sent_only_def)
qed

text \<open>The remote side has opened the channel of a feed: a new peer is attached to it.\<close>

lemma channel_opened_run:
  assumes "fmlookup (hb_feeds s) d = Some pd" and "cn_remote_public_key (hb_tasks s ! c) = Some remote"
    and "deref (hb_heap s) (pd_feed pd) = Some f"
  shows "connection_event ext hx px order c (ProtocolEv (ChannelOpened d)) s = (Inr (), with_peer px remote d pd s)"
    and "at_peer (task_view (length (hb_peers s)) (with_peer px remote d pd s)) f (Stats_default\<lparr>st_id := remote\<rparr>)"
    and "pr_feed (ps_peer (task_view (length (hb_peers s)) (with_peer px remote d pd s))) = pd_feed pd"
    and "ps_sent (task_view (length (hb_peers s)) (with_peer px remote d pd s)) = []"
    and "length (hb_peers s) < length (hb_peers (with_peer px remote d pd s))"
    and "\<not> pr_remote_ack (ps_peer (task_view (length (hb_peers s)) (with_peer px remote d pd s)))"
  using assms
  by (simp_all add: connection_event_def connection_handle_def rust_bind_apply rust_get_apply add_peer_run rust_modify_apply with_peer_def
      task_view_def at_peer_def Peer_new_def deref_def)

subsection \<open>What the messages of a peer leave alone\<close>

lemma view_events: "preserves peer_view (rust_for (Peer_handle fa px) evs)"
  by (intro preserves_for view_handle)

lemma bitfield_law_cong:
  "bitfield_law fa px block n f \<Longrightarrow> block f' = block f \<Longrightarrow> f_compress fa f' = f_compress fa f \<Longrightarrow> bitfield_law fa px block n f'"
  by (simp add: bitfield_law_def)

end
