(* ===== verification/Peer_Merge.thy ===== *)
theory Peer_Merge
  imports Hub_Sync
begin

section \<open>Both directions at once\<close>

text \<open>
  Two peers that open a channel each ask for the other's blocks, so what they send is interleaved: each
  answers the other's \<open>Want\<close>, requests what it misses, serves and stores.  Here the messages reach the other
  side in the order in which they are sent, nothing is left out, and when the last one has been handled
  both feeds hold what any of them held.
\<close>

text \<open>\<open>blk\<close> are the blocks \<open>own\<close>, with gaps among the first \<open>2 ^ 20\<close> filled from the blocks \<open>other\<close>.\<close>

definition filled_from :: "(u64 \<Rightarrow> bytes option) \<Rightarrow> (u64 \<Rightarrow> bytes option) \<Rightarrow> (u64 \<Rightarrow> bytes option) \<Rightarrow> bool" where
  "filled_from other own blk \<longleftrightarrow>
     (\<forall>i. i < 1024 * 1024 \<longrightarrow> other i \<noteq> None \<longrightarrow> blk i \<noteq> None) \<and> (\<forall>i. blk i = own i \<or> own i = None \<and> blk i = other i)"

lemma filled_from_arrives:
  assumes "filled_from other own blk" and "i < 1024 * 1024" and "own i = None" and "other i = Some b"
  shows "blk i = Some b"
proof -
  have "blk i \<noteq> None" using assms(1,2,4) by (simp add: filled_from_def)
  moreover have "blk i = own i \<or> own i = None \<and> blk i = other i" using assms(1) by (simp add: filled_from_def)
  ultimately show ?thesis using assms(3,4) by auto
qed

abbreviation first_want :: message where
  "first_want \<equiv> WantMsg \<lparr>w_start = 0, w_length = Some (1024 * 1024)\<rparr>"

abbreviation lacking :: "('w, 'f, 'nd, 'sig) feed_api \<Rightarrow> 'f \<Rightarrow> u64 list \<Rightarrow> u64 list" where
  "lacking fa f \<equiv> filter (\<lambda>i. \<not> f_has fa f i)"

subsection \<open>One direction\<close>

text \<open>What a feed with the blocks \<open>blk\<close> announces when asked for its first \<open>2 ^ 20\<close> blocks.\<close>

definition offers :: "('w, 'nd, 'sig, 'bf, 'sb) proto_ext \<Rightarrow> (u64 \<Rightarrow> bytes option) \<Rightarrow> have_msg list \<Rightarrow> u64 list \<Rightarrow> bool" where
  "offers px blk hs idxs \<longleftrightarrow>
     (\<exists>iss is js. list_all2 (\<lambda>h idxs. announced px h = Inr idxs) hs iss \<and> concat iss = idxs \<and> idxs = is @ js \<and> distinct is \<and> distinct js \<and>
        (\<forall>i \<in> set is. blk i \<noteq> None) \<and> set js = {i. i < 1024 * 1024 \<and> blk i \<noteq> None})"

lemma want_offered:
  assumes "channel_up px" and "at_peer a f st" and "bitfield_law fa px block (1024 * 1024) f" and "bits_small px"
    and "0 < f_len fa f \<Longrightarrow> block f (f_len fa f - 1) \<noteq> None"
  obtains hs idxs a' where "Peer_handle fa px (MessageEv first_want) a = (Inr (), a')" "ps_sent a' = ps_sent a @ map HaveMsg hs"
    "at_peer a' f st" "offers px (block f) hs idxs"
proof -
  obtain hs iss "is" js a' where x: "Peer_handle fa px (MessageEv first_want) a = (Inr (), a')" "ps_sent a' = ps_sent a @ map HaveMsg hs"
      "at_peer a' f st" "list_all2 (\<lambda>h idxs. announced px h = Inr idxs) hs iss"
      "concat iss = is @ js" "distinct is" "distinct js" "\<forall>i \<in> set is. block f i \<noteq> None" "set js = {i. i < 1024 * 1024 \<and> block f i \<noteq> None}"
    using assms by (rule on_want_run)
  then have "offers px (block f) hs (is @ js)" unfolding offers_def by blast
  with x(1-3) show ?thesis by (rule that)
qed

lemma offer_requested:
  assumes "channel_up px" and offer: "offers px blk hs idxs" and at: "at_peer s f st"
  obtains s' where "rust_for (Peer_handle fa px) (map MessageEv (map HaveMsg hs)) s = (Inr (), s')"
    "ps_sent s' = ps_sent s @ map request_for (lacking fa f idxs)" "at_peer s' f st"
proof -
  obtain iss where iss: "list_all2 (\<lambda>h idxs. announced px h = Inr idxs) hs iss" "concat iss = idxs"
    using offer unfolding offers_def by blast
  obtain s' where s': "rust_for (Peer_handle fa px) (map (MessageEv \<circ> HaveMsg) hs) s = (Inr (), s')"
      "sent_only (map request_for (lacking fa f idxs)) s s'"
    using on_haves_run [OF assms(1) iss(1) conjunct1 [OF at [unfolded at_peer_def]], of fa] unfolding iss(2) by (elim exE conjE)
  moreover have "at_peer s' f st" using at at_peer_sent [OF s'(2)] by simp
  ultimately show ?thesis by (intro that) (simp_all add: sent_only_def)
qed

lemma offered_room:
  assumes "offers px blk hs idxs" and "stats_room blk st"
  shows "unat (st_uploaded_blocks st) + length (lacking fa f idxs) < 2 ^ 64"
    "unat (st_uploaded_bytes st) + block_bytes blk (lacking fa f idxs) < 2 ^ 64"
    "unat (st_downloaded_blocks st) + length (lacking fa f idxs) < 2 ^ 64"
    "unat (st_downloaded_bytes st) + block_bytes blk (lacking fa f idxs) < 2 ^ 64"
    "\<forall>i \<in> set (lacking fa f idxs). blk i \<noteq> None"
proof -
  obtain "is" js where x: "idxs = is @ js" "distinct is" "distinct js" "\<forall>i \<in> set is. blk i \<noteq> None" "set js = {i. i < 1024 * 1024 \<and> blk i \<noteq> None}"
    using assms(1) unfolding offers_def by blast
  have known: "\<forall>i \<in> set (lacking fa f is). blk i \<noteq> None" "\<forall>i \<in> set (lacking fa f js). blk i \<noteq> None" using x(4,5) by auto
  note room = stats_room_two [OF assms(2) distinct_filter [OF x(2)] distinct_filter [OF x(3)] known]
  show "unat (st_uploaded_blocks st) + length (lacking fa f idxs) < 2 ^ 64"
    "unat (st_uploaded_bytes st) + block_bytes blk (lacking fa f idxs) < 2 ^ 64"
    "unat (st_downloaded_blocks st) + length (lacking fa f idxs) < 2 ^ 64"
    "unat (st_downloaded_bytes st) + block_bytes blk (lacking fa f idxs) < 2 ^ 64"
    unfolding x(1) filter_append using room by simp_all
  show "\<forall>i \<in> set (lacking fa f idxs). blk i \<noteq> None" using known by (auto simp: x(1))
qed

lemma offer_fills:
  assumes "feed_proofs fa block fkey valid" and "offers px blk hs idxs"
    and "\<forall>i. blk' i = (if i \<in> set (lacking fa f idxs) then Some (the (blk i)) else block f i)"
  shows "filled_from blk (block f) blk'"
proof -
  obtain "is" js where x: "idxs = is @ js" "\<forall>i \<in> set is. blk i \<noteq> None" "set js = {i. i < 1024 * 1024 \<and> blk i \<noteq> None}"
    using assms(2) unfolding offers_def by blast
  show ?thesis
    using x(2,3) assms(3) has_block [OF assms(1)] by (auto simp: filled_from_def x(1))
qed

text \<open>Serving and storing one direction: the requests for \<open>idxs\<close> are answered, and the answers can be stored.\<close>

lemma offer_served:
  assumes laws: "feed_proofs fa block fkey valid" and up: "channel_up px" and at: "at_peer a fA stA"
    and offer: "offers px (block fA) hs idxs" and room: "stats_room (block fA) stA"
  obtains ms a' fA' stA' where "rust_for (Peer_handle fa px) (map MessageEv (map request_for (lacking fa f idxs))) a = (Inr (), a')"
    "ps_sent a' = ps_sent a @ ms" "at_peer a' fA' stA'" "block fA' = block fA" "fkey fA' = fkey fA"
    "st_downloaded_blocks stA' = st_downloaded_blocks stA" "st_downloaded_bytes stA' = st_downloaded_bytes stA"
    "list_all2 (\<lambda>i. carries px valid (fkey fA) i (the (block fA i))) (lacking fa f idxs) ms"
proof -
  note r = offered_room [OF offer room, of fa f]
  obtain ms a' fA' stA' where "rust_for (Peer_handle fa px) (map (MessageEv \<circ> request_for) (lacking fa f idxs)) a = (Inr (), a')"
      "ps_sent a' = ps_sent a @ ms" "at_peer a' fA' stA'" "block fA' = block fA" "fkey fA' = fkey fA"
      "st_downloaded_blocks stA' = st_downloaded_blocks stA" "st_downloaded_bytes stA' = st_downloaded_bytes stA"
      "list_all2 (\<lambda>i. carries px valid (fkey fA) i (the (block fA i))) (lacking fa f idxs) ms"
    using serve_all [OF laws up at r(5) r(1,2)] by (elim exE conjE)
  then show ?thesis by (intro that [of a' ms fA' stA']) simp_all
qed

lemma offer_stored:
  assumes laws: "feed_proofs fa block fkey valid" "codec_laws px" and up: "channel_up px" and at: "at_peer s f' st'"
    and offer: "offers px blk hs idxs" and room: "stats_room blk st" and f: "block f' = block f"
    and st: "st_downloaded_blocks st' = st_downloaded_blocks st" "st_downloaded_bytes st' = st_downloaded_bytes st"
    and ms: "list_all2 (\<lambda>i. carries px valid (fkey f') i (the (blk i))) (lacking fa f idxs) ms" and quiet: "\<not> pr_remote_ack (ps_peer s)"
  obtains s' f'' st'' where "rust_for (Peer_handle fa px) (map MessageEv ms) s = (Inr (), s')" "at_peer s' f'' st''"
    "ps_sent s' = ps_sent s" "filled_from blk (block f) (block f'')" "fkey f'' = fkey f'"
proof -
  note r = offered_room [OF offer room, of fa f]
  obtain s' f'' st'' where x: "rust_for (Peer_handle fa px) (map MessageEv ms) s = (Inr (), s')" "at_peer s' f'' st''"
      "\<forall>i. block f'' i = (if i \<in> set (lacking fa f idxs) then Some (the (blk i)) else block f' i)" "ps_sent s' = ps_sent s" "fkey f'' = fkey f'"
    using store_all [OF laws up ms at] r(3,4) quiet by (auto simp: st)
  have "filled_from blk (block f) (block f'')" using laws(1) offer x(3) unfolding f by (rule offer_fills)
  with x show ?thesis by (intro that)
qed

subsection \<open>The whole exchange\<close>

lemma handled_quiet:
  "rust_for (Peer_handle fa px) evs s = (r, s') \<Longrightarrow> \<not> pr_remote_ack (ps_peer s) \<Longrightarrow> \<not> pr_remote_ack (ps_peer s')"
  using preservesD [OF view_events] by fastforce

lemma peers_merge:
  assumes laws: "feed_proofs fa block fkey valid" "codec_laws px" and up: "channel_up px" and small: "bits_small px"
    and a: "at_peer a fA stA" and s: "at_peer s f st" and key: "fkey f = fkey fA"
    and quiet: "\<not> pr_remote_ack (ps_peer a)" "\<not> pr_remote_ack (ps_peer s)"
    and law: "bitfield_law fa px block (1024 * 1024) fA" "bitfield_law fa px block (1024 * 1024) f"
    and head: "0 < f_len fa fA \<Longrightarrow> block fA (f_len fa fA - 1) \<noteq> None" "0 < f_len fa f \<Longrightarrow> block f (f_len fa f - 1) \<noteq> None"
    and roomA: "stats_room (block fA) stA" "stats_room (block f) stA" and room: "stats_room (block fA) st" "stats_room (block f) st"
  obtains m1 m2 m3 m4 m5 s1 a1 s2 a2 s3 fA' stA' f' st' where
    "rust_for (Peer_handle fa px) (map MessageEv [first_want]) s = (Inr (), s1)" "ps_sent s1 = ps_sent s @ m1"
    "rust_for (Peer_handle fa px) (map MessageEv (first_want # m1)) a = (Inr (), a1)" "ps_sent a1 = ps_sent a @ m2"
    "rust_for (Peer_handle fa px) (map MessageEv m2) s1 = (Inr (), s2)" "ps_sent s2 = ps_sent s1 @ m3"
    "rust_for (Peer_handle fa px) (map MessageEv m3) a1 = (Inr (), a2)" "ps_sent a2 = ps_sent a1 @ m4"
    "rust_for (Peer_handle fa px) (map MessageEv m4) s2 = (Inr (), s3)" "ps_sent s3 = ps_sent s2"
    "at_peer a2 fA' stA'" "filled_from (block f) (block fA) (block fA')"
    "at_peer s3 f' st'" "filled_from (block fA) (block f) (block f')" "fkey f' = fkey fA'"
proof -
  obtain hB iB s1 where s1: "Peer_handle fa px (MessageEv first_want) s = (Inr (), s1)" "ps_sent s1 = ps_sent s @ map HaveMsg hB"
      "at_peer s1 f st" "offers px (block f) hB iB"
    using up s law(2) small head(2) by (rule want_offered)
  obtain hA iA a0 where a0: "Peer_handle fa px (MessageEv first_want) a = (Inr (), a0)" "ps_sent a0 = ps_sent a @ map HaveMsg hA"
      "at_peer a0 fA stA" "offers px (block fA) hA iA"
    using up a law(1) small head(1) by (rule want_offered)
  let ?rA = "map request_for (lacking fa fA iB)" and ?rB = "map request_for (lacking fa f iA)"
  obtain a1 where a1: "rust_for (Peer_handle fa px) (map MessageEv (map HaveMsg hB)) a0 = (Inr (), a1)" "ps_sent a1 = ps_sent a0 @ ?rA" "at_peer a1 fA stA"
    using up s1(4) a0(3) by (rule offer_requested)
  obtain s1' where s1': "rust_for (Peer_handle fa px) (map MessageEv (map HaveMsg hA)) s1 = (Inr (), s1')" "ps_sent s1' = ps_sent s1 @ ?rB" "at_peer s1' f st"
    using up a0(4) s1(3) by (rule offer_requested)
  obtain dB s2 f2 st2 where s2: "rust_for (Peer_handle fa px) (map MessageEv ?rA) s1' = (Inr (), s2)" "ps_sent s2 = ps_sent s1' @ dB" "at_peer s2 f2 st2"
      "block f2 = block f" "fkey f2 = fkey f" "st_downloaded_blocks st2 = st_downloaded_blocks st" "st_downloaded_bytes st2 = st_downloaded_bytes st"
      "list_all2 (\<lambda>i. carries px valid (fkey f) i (the (block f i))) (lacking fa fA iB) dB"
    using laws(1) up s1'(3) s1(4) room(2) by (rule offer_served)
  obtain dA a1' fA2 stA2 where a1': "rust_for (Peer_handle fa px) (map MessageEv ?rB) a1 = (Inr (), a1')" "ps_sent a1' = ps_sent a1 @ dA" "at_peer a1' fA2 stA2"
      "block fA2 = block fA" "fkey fA2 = fkey fA" "st_downloaded_blocks stA2 = st_downloaded_blocks stA" "st_downloaded_bytes stA2 = st_downloaded_bytes stA"
      "list_all2 (\<lambda>i. carries px valid (fkey fA) i (the (block fA i))) (lacking fa f iA) dA"
    using laws(1) up a1(3) a0(4) roomA(1) by (rule offer_served)
  have run_s2: "rust_for (Peer_handle fa px) (map MessageEv (map HaveMsg hA @ ?rA)) s1 = (Inr (), s2)"
    using s1'(1) s2(1) by (simp add: rust_for_append rust_bind_apply)
  have run_a1: "rust_for (Peer_handle fa px) (map MessageEv (first_want # map HaveMsg hB)) a = (Inr (), a1)"
    using a0(1) a1(1) by (simp add: rust_bind_apply)
  have run_s1: "rust_for (Peer_handle fa px) (map MessageEv [first_want]) s = (Inr (), s1)"
    using s1(1) by (simp add: rust_bind_apply rust_return_apply)
  have quiet': "\<not> pr_remote_ack (ps_peer a1')" "\<not> pr_remote_ack (ps_peer s2)"
    using handled_quiet [OF a1'(1)] handled_quiet [OF run_a1] handled_quiet [OF run_s2] handled_quiet [OF run_s1] quiet by blast+
  obtain a2 fA' stA' where a2: "rust_for (Peer_handle fa px) (map MessageEv dB) a1' = (Inr (), a2)" "at_peer a2 fA' stA'" "ps_sent a2 = ps_sent a1'"
      "filled_from (block f) (block fA) (block fA')" "fkey fA' = fkey fA2"
    using s2(8) unfolding key a1'(5) [symmetric]
    by (rule offer_stored [OF laws up a1'(3) s1(4) roomA(2) a1'(4,6,7) _ quiet'(1)])
  obtain s3 f' st' where s3: "rust_for (Peer_handle fa px) (map MessageEv dA) s2 = (Inr (), s3)" "at_peer s3 f' st'" "ps_sent s3 = ps_sent s2"
      "filled_from (block fA) (block f) (block f')" "fkey f' = fkey f2"
    using a1'(8) unfolding key [symmetric] s2(5) [symmetric]
    by (rule offer_stored [OF laws up s2(3) a0(4) room(1) s2(4,6,7) _ quiet'(2)])
  have run_a2: "rust_for (Peer_handle fa px) (map MessageEv (?rB @ dB)) a1 = (Inr (), a2)"
    using a1'(1) a2(1) by (simp add: rust_for_append rust_bind_apply)
  show ?thesis
    by (rule that [OF run_s1 s1(2) run_a1 _ run_s2 _ run_a2 _ s3(1,3) a2(2,4) s3(2,4)])
      (simp_all add: a1(2) a0(2) s2(2) s1'(2) a2(3) a1'(2) a2(5) s3(5) s2(5) a1'(5) key)
qed

end
