(* ===== verification/Link_Sync.thy ===== *)
theory Link_Sync
  imports Peer_Merge
begin

section \<open>Two connected replicators\<close>

text \<open>
  The connection of two replicators, for the channel of one feed: what the peer of one side sends, the peer
  of the other side handles in the same order.  \<open>link\<close> has both replicators and how many messages each side
  has heard; \<open>link_right\<close> and \<open>link_left\<close> deliver everything that is on its way in one direction.
  Messages are what is exchanged here; a peer's task also hears events of its own feed, one per stored
  block, which make it announce blocks the other side has and are left for later.
\<close>

record ('w, 'f, 'bf) link =
  ln_left :: "('w, 'f, 'bf) hub_state"
  ln_right :: "('w, 'f, 'bf) hub_state"
  ln_heard_right :: nat
  ln_heard_left :: nat

definition link_right ::
  "('w, 'f, 'nd, 'sig) feed_api \<Rightarrow> ('w, 'nd, 'sig, 'bf, 'sb) proto_ext \<Rightarrow> nat \<Rightarrow> nat \<Rightarrow> (('w, 'f, 'bf) link, unit) rust" where
  "link_right fa px p q = (\<lambda>l.
     let sent = pt_sent (hb_peers (ln_left l) ! p) in
     case rust_for (peer_task_event fa px q) (map MessageEv (drop (ln_heard_right l) sent)) (ln_right l) of
       (r, B) \<Rightarrow> (r, l\<lparr>ln_right := B, ln_heard_right := length sent\<rparr>))"

definition link_left ::
  "('w, 'f, 'nd, 'sig) feed_api \<Rightarrow> ('w, 'nd, 'sig, 'bf, 'sb) proto_ext \<Rightarrow> nat \<Rightarrow> nat \<Rightarrow> (('w, 'f, 'bf) link, unit) rust" where
  "link_left fa px p q = (\<lambda>l.
     let sent = pt_sent (hb_peers (ln_right l) ! q) in
     case rust_for (peer_task_event fa px p) (map MessageEv (drop (ln_heard_left l) sent)) (ln_left l) of
       (r, A) \<Rightarrow> (r, l\<lparr>ln_left := A, ln_heard_left := length sent\<rparr>))"

fun link_rounds ::
  "('w, 'f, 'nd, 'sig) feed_api \<Rightarrow> ('w, 'nd, 'sig, 'bf, 'sb) proto_ext \<Rightarrow> nat \<Rightarrow> nat \<Rightarrow> nat \<Rightarrow> (('w, 'f, 'bf) link, unit) rust" where
  "link_rounds fa px p q 0 = rust_return ()"
| "link_rounds fa px p q (Suc n) =
     rust_bind (link_right fa px p q) (\<lambda>_. rust_bind (link_left fa px p q) (\<lambda>_. link_rounds fa px p q n))"

text \<open>No message is on its way.\<close>

definition link_idle :: "nat \<Rightarrow> nat \<Rightarrow> ('w, 'f, 'bf) link \<Rightarrow> bool" where
  "link_idle p q l \<longleftrightarrow>
     ln_heard_right l = length (pt_sent (hb_peers (ln_left l) ! p)) \<and> ln_heard_left l = length (pt_sent (hb_peers (ln_right l) ! q))"

text \<open>
  The peers \<open>p\<close> and \<open>q\<close> are up, their feeds and statistics are the given ones, the feeds have the same key, and
  no message is on its way.
\<close>

definition linked ::
  "('f \<Rightarrow> bytes) \<Rightarrow> nat \<Rightarrow> nat \<Rightarrow> ('w, 'f, 'bf) link \<Rightarrow> 'f \<Rightarrow> stats \<Rightarrow> 'f \<Rightarrow> stats \<Rightarrow> bool" where
  "linked fkey p q l fA stA f st \<longleftrightarrow>
     link_idle p q l \<and> p < length (hb_peers (ln_left l)) \<and> q < length (hb_peers (ln_right l)) \<and> fkey f = fkey fA \<and>
     at_peer (task_view p (ln_left l)) fA stA \<and> \<not> pr_remote_ack (pt_peer (hb_peers (ln_left l) ! p)) \<and>
     at_peer (task_view q (ln_right l)) f st \<and> \<not> pr_remote_ack (pt_peer (hb_peers (ln_right l) ! q))"

lemma task_peer: "pt_peer (hb_peers s ! p) = ps_peer (task_view p s)"
  by (simp add: task_view_def)

subsection \<open>Delivering\<close>

lemma link_right_run:
  assumes "q < length (hb_peers (ln_right l))" and "drop (ln_heard_right l) (ps_sent (task_view p (ln_left l))) = ms"
    and "rust_for (Peer_handle fa px) (map MessageEv ms) (task_view q (ln_right l)) = (Inr (), ps)"
  obtains B where "link_right fa px p q l = (Inr (), l\<lparr>ln_right := B, ln_heard_right := length (ps_sent (task_view p (ln_left l)))\<rparr>)"
    "task_view q B = ps" "q < length (hb_peers B)"
  using peer_events_run [OF assms(3,1)] assms(2) that by (auto simp: link_right_def task_sent)

lemma link_left_run:
  assumes "p < length (hb_peers (ln_left l))" and "drop (ln_heard_left l) (ps_sent (task_view q (ln_right l))) = ms"
    and "rust_for (Peer_handle fa px) (map MessageEv ms) (task_view p (ln_left l)) = (Inr (), ps)"
  obtains A where "link_left fa px p q l = (Inr (), l\<lparr>ln_left := A, ln_heard_left := length (ps_sent (task_view q (ln_right l)))\<rparr>)"
    "task_view p A = ps" "p < length (hb_peers A)"
  using peer_events_run [OF assms(3,1)] assms(2) that by (auto simp: link_left_def task_sent)

text \<open>The start of a peer's task.\<close>

lemma task_started:
  assumes "subscribe_law fa block fkey" and up: "channel_up px" and p: "p < length (hb_peers A)" and at: "at_peer (task_view p A) f st"
  obtains A' f' where "peer_task_start fa px p A = (Inr (), A')" "at_peer (task_view p A') f' st" "p < length (hb_peers A')"
    "ps_sent (task_view p A') = ps_sent (task_view p A) @ [first_want]" "own_feed (task_view p A') = own_feed (task_view p A)"
    "pr_remote_ack (ps_peer (task_view p A')) = pr_remote_ack (ps_peer (task_view p A))"
    "block f' = block f" "fkey f' = fkey f" "f_len fa f' = f_len fa f" "f_compress fa f' = f_compress fa f"
proof -
  obtain n a0 f' where a0: "with_own_feed (f_subscribe fa) (task_view p A) = (Inr n, a0)" "at_peer a0 f' st" "ps_sent a0 = ps_sent (task_view p A)"
      "block f' = block f" "fkey f' = fkey f" "f_len fa f' = f_len fa f" "f_compress fa f' = f_compress fa f"
    using assms(1) at by (rule peer_subscribed)
  obtain a1 where a1: "Peer_on_open px a0 = (Inr (), a1)" "at_peer a1 f' st" "ps_sent a1 = ps_sent a0 @ [first_want]"
    using up a0(2) by (rule on_open_at_peer)
  note start = peer_start_run [OF a0(1) a1(1)]
  obtain A' where A': "peer_task_start fa px p A = (Inr (), A')" "task_view p A' = a1" "p < length (hb_peers A')"
    using in_peer_run [where m = "Peer_run fa px []", OF p start] by (auto simp: peer_task_start_def)
  show ?thesis
    by (rule that [OF A'(1), of f']) (use a0 a1 A' preservesD [OF view_run start] in simp_all)
qed

subsection \<open>Synchronising\<close>

lemma rounds_run:
  assumes A: "p < length (hb_peers A)" "task_view p A = a" "ps_sent a = [wA]"
    and B: "q < length (hb_peers B)" "task_view q B = s" "ps_sent s = [wB]"
    and s1: "rust_for (Peer_handle fa px) (map MessageEv [wA]) s = (Inr (), s1)" "ps_sent s1 = ps_sent s @ m1"
    and a1: "rust_for (Peer_handle fa px) (map MessageEv (wB # m1)) a = (Inr (), a1)" "ps_sent a1 = ps_sent a @ m2"
    and s2: "rust_for (Peer_handle fa px) (map MessageEv m2) s1 = (Inr (), s2)" "ps_sent s2 = ps_sent s1 @ m3"
    and a2: "rust_for (Peer_handle fa px) (map MessageEv m3) a1 = (Inr (), a2)" "ps_sent a2 = ps_sent a1 @ m4"
    and s3: "rust_for (Peer_handle fa px) (map MessageEv m4) s2 = (Inr (), s3)" "ps_sent s3 = ps_sent s2"
  obtains l where "link_rounds fa px p q 3 \<lparr>ln_left = A, ln_right = B, ln_heard_right = 0, ln_heard_left = 0\<rparr> = (Inr (), l)"
    "task_view p (ln_left l) = a2" "task_view q (ln_right l) = s3" "link_idle p q l"
    "p < length (hb_peers (ln_left l))" "q < length (hb_peers (ln_right l))"
proof -
  let ?l0 = "\<lparr>ln_left = A, ln_right = B, ln_heard_right = 0, ln_heard_left = 0\<rparr>"
  obtain B1 where B1: "link_right fa px p q ?l0 = (Inr (), ?l0\<lparr>ln_right := B1, ln_heard_right := 1\<rparr>)" "task_view q B1 = s1" "q < length (hb_peers B1)"
    using link_right_run [of q ?l0 p "[wA]" fa px s1] s1(1) A B by auto
  let ?l1 = "?l0\<lparr>ln_right := B1, ln_heard_right := 1\<rparr>"
  obtain A1 where A1: "link_left fa px p q ?l1 = (Inr (), ?l1\<lparr>ln_left := A1, ln_heard_left := Suc (length m1)\<rparr>)" "task_view p A1 = a1" "p < length (hb_peers A1)"
    using link_left_run [of p ?l1 q "wB # m1" fa px a1] a1(1) A B s1(2) B1 by auto
  let ?l2 = "?l1\<lparr>ln_left := A1, ln_heard_left := Suc (length m1)\<rparr>"
  obtain B2 where B2: "link_right fa px p q ?l2 = (Inr (), ?l2\<lparr>ln_right := B2, ln_heard_right := Suc (length m2)\<rparr>)" "task_view q B2 = s2" "q < length (hb_peers B2)"
    using link_right_run [of q ?l2 p m2 fa px s2] s2(1) A(3) a1(2) A1 B1 by auto
  let ?l3 = "?l2\<lparr>ln_right := B2, ln_heard_right := Suc (length m2)\<rparr>"
  obtain A2 where A2: "link_left fa px p q ?l3 = (Inr (), ?l3\<lparr>ln_left := A2, ln_heard_left := Suc (length m1 + length m3)\<rparr>)"
      "task_view p A2 = a2" "p < length (hb_peers A2)"
    using link_left_run [of p ?l3 q m3 fa px a2] a2(1) B(3) s1(2) s2(2) A1 B2 by auto
  let ?l4 = "?l3\<lparr>ln_left := A2, ln_heard_left := Suc (length m1 + length m3)\<rparr>"
  obtain B3 where B3: "link_right fa px p q ?l4 = (Inr (), ?l4\<lparr>ln_right := B3, ln_heard_right := Suc (length m2 + length m4)\<rparr>)"
      "task_view q B3 = s3" "q < length (hb_peers B3)"
    using link_right_run [of q ?l4 p m4 fa px s3] s3(1) A(3) a1(2) a2(2) A2 B2 by auto
  let ?l5 = "?l4\<lparr>ln_right := B3, ln_heard_right := Suc (length m2 + length m4)\<rparr>"
  have sent: "pt_sent (hb_peers A2 ! p) = wA # m2 @ m4" "pt_sent (hb_peers B3 ! q) = wB # m1 @ m3"
    unfolding task_sent A2(2) B3(2) using A(3) B(3) s1(2) a1(2) s2(2) a2(2) s3(2) by simp_all
  have "link_left fa px p q ?l5 = (Inr (), ?l5)" by (simp add: link_left_def sent rust_return_apply)
  then have "link_rounds fa px p q 3 ?l0 = (Inr (), ?l5)"
    using B1(1) A1(1) B2(1) A2(1) B3(1) by (simp add: numeral_3_eq_3 rust_bind_apply rust_return_apply)
  then show ?thesis by (rule that) (simp_all add: A2(2,3) B3(2,3) link_idle_def sent)
qed

lemma linked_merge:
  assumes laws: "feed_proofs fa block fkey valid" "codec_laws px" "subscribe_law fa block fkey" and up: "channel_up px" and small: "bits_small px"
    and A: "p < length (hb_peers A)" "at_peer (task_view p A) fA stA" "ps_sent (task_view p A) = []" "\<not> pr_remote_ack (ps_peer (task_view p A))"
    and B: "q < length (hb_peers B)" "at_peer (task_view q B) f st" "ps_sent (task_view q B) = []" "\<not> pr_remote_ack (ps_peer (task_view q B))"
    and key: "fkey f = fkey fA" and law: "bitfield_law fa px block (1024 * 1024) fA" "bitfield_law fa px block (1024 * 1024) f"
    and head: "0 < f_len fa fA \<Longrightarrow> block fA (f_len fa fA - 1) \<noteq> None" "0 < f_len fa f \<Longrightarrow> block f (f_len fa f - 1) \<noteq> None"
    and roomA: "stats_room (block fA) stA" "stats_room (block f) stA" and room: "stats_room (block fA) st" "stats_room (block f) st"
  obtains A' B' l fA' stA' f' st' where "peer_task_start fa px p A = (Inr (), A')" "peer_task_start fa px q B = (Inr (), B')"
    "link_rounds fa px p q 3 \<lparr>ln_left = A', ln_right = B', ln_heard_right = 0, ln_heard_left = 0\<rparr> = (Inr (), l)" "linked fkey p q l fA' stA' f' st'"
    "own_feed (task_view p (ln_left l)) = own_feed (task_view p A)" "own_feed (task_view q (ln_right l)) = own_feed (task_view q B)"
    "filled_from (block f) (block fA) (block fA')" "filled_from (block fA) (block f) (block f')"
proof -
  obtain A1 fA1 where A1: "peer_task_start fa px p A = (Inr (), A1)" "at_peer (task_view p A1) fA1 stA" "p < length (hb_peers A1)"
      "ps_sent (task_view p A1) = ps_sent (task_view p A) @ [first_want]" "own_feed (task_view p A1) = own_feed (task_view p A)"
      "pr_remote_ack (ps_peer (task_view p A1)) = pr_remote_ack (ps_peer (task_view p A))"
      "block fA1 = block fA" "fkey fA1 = fkey fA" "f_len fa fA1 = f_len fa fA" "f_compress fa fA1 = f_compress fa fA"
    using laws(3) up A(1,2) by (rule task_started)
  obtain B1 f1 where B1: "peer_task_start fa px q B = (Inr (), B1)" "at_peer (task_view q B1) f1 st" "q < length (hb_peers B1)"
      "ps_sent (task_view q B1) = ps_sent (task_view q B) @ [first_want]" "own_feed (task_view q B1) = own_feed (task_view q B)"
      "pr_remote_ack (ps_peer (task_view q B1)) = pr_remote_ack (ps_peer (task_view q B))"
      "block f1 = block f" "fkey f1 = fkey f" "f_len fa f1 = f_len fa f" "f_compress fa f1 = f_compress fa f"
    using laws(3) up B(1,2) by (rule task_started)
  have key1: "fkey f1 = fkey fA1" using key A1(8) B1(8) by simp
  have quiet: "\<not> pr_remote_ack (ps_peer (task_view p A1))" "\<not> pr_remote_ack (ps_peer (task_view q B1))"
    using A(4) B(4) A1(6) B1(6) by simp_all
  note law1 = bitfield_law_cong [OF law(1) A1(7,10)] bitfield_law_cong [OF law(2) B1(7,10)]
  have head1: "0 < f_len fa fA1 \<Longrightarrow> block fA1 (f_len fa fA1 - 1) \<noteq> None" "0 < f_len fa f1 \<Longrightarrow> block f1 (f_len fa f1 - 1) \<noteq> None"
    using head by (simp_all add: A1(7,9) B1(7,9))
  have room1: "stats_room (block fA1) stA" "stats_room (block f1) stA" "stats_room (block fA1) st" "stats_room (block f1) st"
    using roomA room by (simp_all add: A1(7) B1(7))
  note merge = peers_merge [OF laws(1,2) up small A1(2) B1(2) key1 quiet law1 head1 room1, unfolded A1(7) B1(7)]
  obtain m1 m2 m3 m4 s1 a1 s2 a2 s3 fA' stA' f' st' where x:
    "rust_for (Peer_handle fa px) (map MessageEv [first_want]) (task_view q B1) = (Inr (), s1)" "ps_sent s1 = ps_sent (task_view q B1) @ m1"
    "rust_for (Peer_handle fa px) (map MessageEv (first_want # m1)) (task_view p A1) = (Inr (), a1)" "ps_sent a1 = ps_sent (task_view p A1) @ m2"
    "rust_for (Peer_handle fa px) (map MessageEv m2) s1 = (Inr (), s2)" "ps_sent s2 = ps_sent s1 @ m3"
    "rust_for (Peer_handle fa px) (map MessageEv m3) a1 = (Inr (), a2)" "ps_sent a2 = ps_sent a1 @ m4"
    "rust_for (Peer_handle fa px) (map MessageEv m4) s2 = (Inr (), s3)" "ps_sent s3 = ps_sent s2"
    "at_peer a2 fA' stA'" "filled_from (block f) (block fA) (block fA')"
    "at_peer s3 f' st'" "filled_from (block fA) (block f) (block f')" "fkey f' = fkey fA'"
    by (rule merge)
  have sent: "ps_sent (task_view p A1) = [first_want]" "ps_sent (task_view q B1) = [first_want]" using A(3) B(3) A1(4) B1(4) by simp_all
  obtain l where l: "link_rounds fa px p q 3 \<lparr>ln_left = A1, ln_right = B1, ln_heard_right = 0, ln_heard_left = 0\<rparr> = (Inr (), l)"
    "task_view p (ln_left l) = a2" "task_view q (ln_right l) = s3" "link_idle p q l"
    "p < length (hb_peers (ln_left l))" "q < length (hb_peers (ln_right l))"
    by (rule rounds_run [OF A1(3) refl sent(1) B1(3) refl sent(2) x(1-10)])
  have own: "own_feed a2 = own_feed (task_view p A)" "own_feed s3 = own_feed (task_view q B)"
    using preservesD [OF view_events x(1)] preservesD [OF view_events x(3)] preservesD [OF view_events x(5)]
      preservesD [OF view_events x(7)] preservesD [OF view_events x(9)] A1(5) B1(5) by simp_all
  have "\<not> pr_remote_ack (ps_peer a2)" "\<not> pr_remote_ack (ps_peer s3)"
    using handled_quiet [OF x(1)] handled_quiet [OF x(3)] handled_quiet [OF x(5)] handled_quiet [OF x(7)] handled_quiet [OF x(9)] quiet by blast+
  then have "linked fkey p q l fA' stA' f' st'" using l x(11,13,15) by (simp add: linked_def task_peer)
  then show ?thesis by (rule that [OF A1(1) B1(1) l(1)]) (unfold l(2,3), (fact x(12,14) own)+)
qed

text \<open>
  From the event of the open channel on: both connections attach a peer, the peers' tasks start and exchange
  messages.
\<close>

lemma channels_merge:
  assumes laws: "feed_proofs fa block (x_feed_public_key ext) valid" "codec_laws px" "subscribe_law fa block (x_feed_public_key ext)"
    and up: "channel_up px" and small: "bits_small px"
    and A: "fmlookup (hb_feeds A) d = Some pdA" "cn_remote_public_key (hb_tasks A ! c) = Some kB" "deref (hb_heap A) (pd_feed pdA) = Some fA"
    and B: "fmlookup (hb_feeds B) d = Some pdB" "cn_remote_public_key (hb_tasks B ! c') = Some kA" "deref (hb_heap B) (pd_feed pdB) = Some f"
    and key: "x_feed_public_key ext f = x_feed_public_key ext fA"
    and law: "bitfield_law fa px block (1024 * 1024) fA" "bitfield_law fa px block (1024 * 1024) f"
    and head: "0 < f_len fa fA \<Longrightarrow> block fA (f_len fa fA - 1) \<noteq> None" "0 < f_len fa f \<Longrightarrow> block f (f_len fa f - 1) \<noteq> None"
    and room: "stats_room (block fA) Stats_default" "stats_room (block f) Stats_default"
    and pq: "p = length (hb_peers A)" "q = length (hb_peers B)"
  obtains A1 A2 B1 B2 l fA' stA' f' st' where
    "connection_event ext hx px order c (ProtocolEv (ChannelOpened d)) A = (Inr (), A1)"
    "connection_event ext hx px order' c' (ProtocolEv (ChannelOpened d)) B = (Inr (), B1)"
    "peer_task_start fa px p A1 = (Inr (), A2)" "peer_task_start fa px q B1 = (Inr (), B2)"
    "link_rounds fa px p q 3 \<lparr>ln_left = A2, ln_right = B2, ln_heard_right = 0, ln_heard_left = 0\<rparr> = (Inr (), l)"
    "linked (x_feed_public_key ext) p q l fA' stA' f' st'" "deref (hb_heap (ln_left l)) (pd_feed pdA) = Some fA'" "filled_from (block f) (block fA) (block fA')"
    "deref (hb_heap (ln_right l)) (pd_feed pdB) = Some f'" "filled_from (block fA) (block f) (block f')"
proof -
  let ?A = "with_peer px kB d pdA A" and ?B = "with_peer px kA d pdB B"
  note openA = channel_opened_run [OF A, where px = px, folded pq] and openB = channel_opened_run [OF B, where px = px, folded pq]
  have room': "stats_room (block fA) (Stats_default\<lparr>st_id := k\<rparr>)" "stats_room (block f) (Stats_default\<lparr>st_id := k\<rparr>)" for k
    using room by (simp_all add: stats_room_def)
  obtain A' B' l fA' stA' f' st' where x: "peer_task_start fa px p ?A = (Inr (), A')" "peer_task_start fa px q ?B = (Inr (), B')"
    "link_rounds fa px p q 3 \<lparr>ln_left = A', ln_right = B', ln_heard_right = 0, ln_heard_left = 0\<rparr> = (Inr (), l)" "linked (x_feed_public_key ext) p q l fA' stA' f' st'"
    "own_feed (task_view p (ln_left l)) = own_feed (task_view p ?A)" "own_feed (task_view q (ln_right l)) = own_feed (task_view q ?B)"
    "filled_from (block f) (block fA) (block fA')" "filled_from (block fA) (block f) (block f')"
    by (rule linked_merge [OF laws up small openA(5,2,4,6) openB(5,2,4,6) key law head room' room'])
  have "deref (hb_heap (ln_left l)) (pd_feed pdA) = Some fA'" "deref (hb_heap (ln_right l)) (pd_feed pdB) = Some f'"
    using x(4) unfolding linked_def at_peer_def x(5,6) openA(3) openB(3) by (simp_all add: task_view_def)
  with openA(1) [of ext hx order] openB(1) [of ext hx order'] x(1-4,7,8) show ?thesis
    by (intro that [of ?A ?B A' B' l fA' stA' f' st'])
qed

text \<open>
  C3. Two replicators that are connected and both have a feed with the same public key: when the channel of
  the feed is open, each attaches a peer; the peers' tasks start, and everything they send reaches the
  other side in order and is handled without an error.  After three rounds no message is on its way, and
  each feed has kept what it had, has every block among the first \<open>2 ^ 20\<close> that the other had, and holds
  nothing that neither of them had.
\<close>

theorem connected_replicators_merge:
  assumes "feed_proofs fa block (x_feed_public_key ext) valid" and "codec_laws px" and "subscribe_law fa block (x_feed_public_key ext)"
    and "channel_up px" and "bits_small px"
    and "fmlookup (hb_feeds A) d = Some pdA" and "cn_remote_public_key (hb_tasks A ! c) = Some kB" and "deref (hb_heap A) (pd_feed pdA) = Some fA"
    and "fmlookup (hb_feeds B) d = Some pdB" and "cn_remote_public_key (hb_tasks B ! c') = Some kA" and "deref (hb_heap B) (pd_feed pdB) = Some f"
    and "x_feed_public_key ext f = x_feed_public_key ext fA"
    and "bitfield_law fa px block (1024 * 1024) fA" and "bitfield_law fa px block (1024 * 1024) f"
    and "0 < f_len fa fA \<Longrightarrow> block fA (f_len fa fA - 1) \<noteq> None" and "0 < f_len fa f \<Longrightarrow> block f (f_len fa f - 1) \<noteq> None"
    and "stats_room (block fA) Stats_default" and "stats_room (block f) Stats_default"
    and "p = length (hb_peers A)" and "q = length (hb_peers B)"
  shows "\<exists>A1 A2 B1 B2 l fA' stA' f' st'.
    connection_event ext hx px order c (ProtocolEv (ChannelOpened d)) A = (Inr (), A1) \<and>
    connection_event ext hx px order' c' (ProtocolEv (ChannelOpened d)) B = (Inr (), B1) \<and>
    peer_task_start fa px p A1 = (Inr (), A2) \<and> peer_task_start fa px q B1 = (Inr (), B2) \<and>
    link_rounds fa px p q 3 \<lparr>ln_left = A2, ln_right = B2, ln_heard_right = 0, ln_heard_left = 0\<rparr> = (Inr (), l) \<and> linked (x_feed_public_key ext) p q l fA' stA' f' st' \<and>
    deref (hb_heap (ln_left l)) (pd_feed pdA) = Some fA' \<and> filled_from (block f) (block fA) (block fA') \<and>
    deref (hb_heap (ln_right l)) (pd_feed pdB) = Some f' \<and> filled_from (block fA) (block f) (block f')"
  by (rule channels_merge [OF assms, of hx order order']) (assumption | (intro exI conjI, assumption+))+

text \<open>Two replicators with one feed, of which each side has one of two blocks.\<close>

definition hub_with :: "bytes \<Rightarrow> bytes option list \<Rightarrow> (sample_files, sample_feed, u64 list) hub_state" where
  "hub_with remote bs = (sample_hub (Some remote))\<lparr>hb_store := sample_hub_store\<lparr>cs_heap := [\<lparr>sf_key = [9], sf_secret = None, sf_blocks = bs\<rparr>]\<rparr>\<rparr>"

abbreviation left_feed :: sample_feed where
  "left_feed \<equiv> \<lparr>sf_key = [9], sf_secret = None, sf_blocks = [Some [7]]\<rparr>"

abbreviation right_feed :: sample_feed where
  "right_feed \<equiv> \<lparr>sf_key = [9], sf_secret = None, sf_blocks = [None, Some [8, 9]]\<rparr>"

lemma halves_at:
  "sample_block left_feed i = (if i = 0 then Some [7] else None)"
  "sample_block right_feed i = (if i = 1 then Some [8, 9] else None)"
proof -
  have "unat i < 2 \<longleftrightarrow> unat i = unat (0 :: u64) \<or> unat i = unat (1 :: u64)" "unat i < 1 \<longleftrightarrow> unat i = unat (0 :: u64)" by auto
  then show "sample_block left_feed i = (if i = 0 then Some [7] else None)" "sample_block right_feed i = (if i = 1 then Some [8, 9] else None)"
    by (auto simp: sample_block_def word_unat_eq_iff)
qed

lemma halves_room: "stats_room (sample_block left_feed) Stats_default" "stats_room (sample_block right_feed) Stats_default"
  by (simp_all add: stats_room_def feed_count_def feed_bytes_def Stats_default_def halves_at)

lemma hub_with_at:
  "fmlookup (hb_feeds (hub_with remote bs)) [9] = Some (PeeredFeed_new 0)" "cn_remote_public_key (hb_tasks (hub_with remote bs) ! 0) = Some remote"
  "deref (hb_heap (hub_with remote bs)) (pd_feed (PeeredFeed_new 0)) = Some \<lparr>sf_key = [9], sf_secret = None, sf_blocks = bs\<rparr>"
  "0 = length (hb_peers (hub_with remote bs))"
  by (simp_all add: hub_with_def sample_hub_def Replicator_new_def PeeredFeed_new_def deref_def)

lemma sample_merge_laws:
  "feed_proofs sample_api sample_block (x_feed_public_key sample_ext) sample_valid"
  "subscribe_law sample_api sample_block (x_feed_public_key sample_ext)"
proof -
  have pk: "x_feed_public_key sample_ext = sf_key" by (simp add: sample_ext_def)
  show "feed_proofs sample_api sample_block (x_feed_public_key sample_ext) sample_valid"
    "subscribe_law sample_api sample_block (x_feed_public_key sample_ext)"
    unfolding pk by (rule sample_feed_proofs) (simp add: subscribe_law_def sample_api_def)
qed

theorem connected_replicators_merge_witness:
  "\<exists>A2 B2 l fA' f'. link_rounds sample_api small_proto 0 0 3 \<lparr>ln_left = A2, ln_right = B2, ln_heard_right = 0, ln_heard_left = 0\<rparr> = (Inr (), l) \<and>
     link_idle 0 0 l \<and> deref (hb_heap (ln_left l)) 0 = Some fA' \<and> sample_block fA' 0 = Some [7] \<and> sample_block fA' 1 = Some [8, 9] \<and>
     deref (hb_heap (ln_right l)) 0 = Some f' \<and> sample_block f' 0 = Some [7] \<and> sample_block f' 1 = Some [8, 9]"
proof -
  let ?A = "hub_with [2] [Some [7]]" and ?B = "hub_with [1] [None, Some [8, 9]]"
  have key: "x_feed_public_key sample_ext right_feed = x_feed_public_key sample_ext left_feed" by (simp add: sample_ext_def)
  have bits: "bitfield_law sample_api small_proto sample_block (1024 * 1024) left_feed"
      "bitfield_law sample_api small_proto sample_block (1024 * 1024) right_feed" by (rule sample_bitfield, simp)+
  have head: "sample_block left_feed (f_len sample_api left_feed - 1) \<noteq> None" "sample_block right_feed (f_len sample_api right_feed - 1) \<noteq> None"
    by (simp_all add: sample_api_def halves_at)
  have idle: "link_idle 0 0 l" if "linked (x_feed_public_key sample_ext) 0 0 l fA' stA' f' st'"
    for l :: "(sample_files, sample_feed, u64 list) link" and fA' stA' f' st'
    using that by (simp add: linked_def)
  have feed: "pd_feed (PeeredFeed_new 0) = 0" by (simp add: PeeredFeed_new_def)
  have small: "(0 :: u64) < 1024 * 1024" "(1 :: u64) < 1024 * 1024" by simp_all
  have got: "sample_block g 0 = Some [7]" "sample_block g 1 = Some [8, 9]"
    if "filled_from (sample_block right_feed) (sample_block left_feed) (sample_block g) \<or>
      filled_from (sample_block left_feed) (sample_block right_feed) (sample_block g)" for g
    using that small unfolding filled_from_def halves_at by (metis option.distinct(1) zero_neq_one)+
  show ?thesis
    using connected_replicators_merge [OF sample_merge_laws(1) small_codec_laws sample_merge_laws(2) small_proto_laws
        hub_with_at(1-3) [of "[2]" "[Some [7]]"] hub_with_at(1-3) [of "[1]" "[None, Some [8, 9]]"] key bits head halves_room
        hub_with_at(4) hub_with_at(4), where hx = sample_hub_ext and order = "[]" and order' = "[]", unfolded feed]
    by (elim exE conjE, intro exI conjI) (assumption | erule idle | rule got, blast)+
qed

end
