(* ===== verification/Link_Append.thy ===== *)
theory Link_Append
  imports Link_Sync Peer_Append
begin

section \<open>Appending while connected\<close>

text \<open>
  Two replicators whose peers have exchanged everything: a block appended to the feed on one side is
  announced, requested, sent and stored, and the peers are in the same situation again, with one more block.
\<close>

definition in_left :: "(('w, 'f, 'bf) hub_state, 'a) rust \<Rightarrow> (('w, 'f, 'bf) link, 'a) rust" where
  "in_left m = (\<lambda>l. case m (ln_left l) of (r, A) \<Rightarrow> (r, l\<lparr>ln_left := A\<rparr>))"

subsection \<open>The peers\<close>

lemma append_exchange:
  assumes laws: "feed_proofs fa block fkey valid" "codec_laws px" and up: "channel_up px"
    and a: "at_peer a fA stA" and s: "at_peer s f st" and key: "fkey f = fkey fA" and quiet: "\<not> pr_remote_ack (ps_peer s)"
    and last: "0 < f_len fa fA" "block fA (f_len fa fA - 1) = Some b" "block f (f_len fa fA - 1) = None"
    and room: "room_for 1 (length b) stA" "room_for 1 (length b) st"
  obtains h r m a1 s1 a2 s2 fA' stA' f' st' where
    "Peer_handle fa px (FeedEv FeedAppend) a = (Inr (), a1)" "ps_sent a1 = ps_sent a @ [h]"
    "rust_for (Peer_handle fa px) (map MessageEv [h]) s = (Inr (), s1)" "ps_sent s1 = ps_sent s @ [r]"
    "rust_for (Peer_handle fa px) (map MessageEv [r]) a1 = (Inr (), a2)" "ps_sent a2 = ps_sent a1 @ [m]"
    "rust_for (Peer_handle fa px) (map MessageEv [m]) s1 = (Inr (), s2)" "ps_sent s2 = ps_sent s1"
    "at_peer a2 fA' stA'" "block fA' = block fA" "at_peer s2 f' st'" "block f' = (block f)(f_len fa fA - 1 \<mapsto> b)" "fkey f' = fkey fA'"
proof -
  let ?i = "f_len fa fA - 1"
  let ?h = "\<lparr>h_start = ?i, h_length = None, h_bitfield = None, h_ack = None\<rparr>"
  let ?req = "\<lparr>rq_index = ?i, rq_bytes = None, rq_hash = None, rq_nodes = None\<rparr>"
  have cells: "deref (ps_heap a) (own_feed a) = Some fA" "deref (ps_heap s) (own_feed s) = Some f" using a s by (simp_all add: at_peer_def)
  obtain a1 where a1: "Peer_handle fa px (FeedEv FeedAppend) a = (Inr (), a1)" "sent_only [HaveMsg ?h] a a1"
    using up cells(1) last(1) by (rule feed_append_announced)
  have wanted: "map request_for (filter (\<lambda>i. \<not> f_has fa f i) [?i]) = [RequestMsg ?req]"
    using last(3) has_block [OF laws(1)] by (simp add: request_for_def)
  obtain s1 where s1: "Peer_on_have fa px ?h s = (Inr (), s1)" "sent_only [RequestMsg ?req] s s1"
    using on_have_run [OF up announced_last [OF last(1)] cells(2), of fa, unfolded wanted] by blast
  have at: "at_peer a1 fA stA" "at_peer s1 f st" using a s at_peer_sent [OF a1(2)] at_peer_sent [OF s1(2)] by simp_all
  obtain m a2 fA' stA' where a2: "Peer_on_request fa px ?req a1 = (Inr (), a2)" "at_peer a2 fA' stA'" "block fA' = block fA" "fkey fA' = fkey fA"
      "ps_sent a2 = ps_sent a1 @ [m]" "carries px valid (fkey fA) (rq_index ?req) b m"
    by (rule on_request_run [OF laws(1) up at(1), of ?req b]) (use last(2) room(1) in \<open>simp_all add: room_for_def\<close>)
  have m: "carries px valid (fkey f) ?i b m" using a2(6) key by simp
  have quiet1: "\<not> pr_remote_ack (ps_peer s1)" using quiet s1(2) by (simp add: sent_only_def)
  obtain s2 f' st' where s2: "Peer_handle fa px (MessageEv m) s1 = (Inr (), s2)" "at_peer s2 f' st'" "block f' = (block f)(?i \<mapsto> b)" "fkey f' = fkey f"
      "ps_sent s2 = ps_sent s1"
    by (rule on_data_run [OF laws up at(2) m]) (use room(2) quiet1 in \<open>simp_all add: room_for_def\<close>)
  have runs: "Peer_handle fa px (MessageEv (HaveMsg ?h)) s = (Inr (), s1)" "Peer_handle fa px (MessageEv (RequestMsg ?req)) a1 = (Inr (), a2)"
    using s1(1) a2(1) by (simp_all add: Peer_handle_def)
  show ?thesis
    by (rule that [of a1 "HaveMsg ?h" s1 "RequestMsg ?req" a2 m s2 fA' stA' f' st'])
      (use a1 s1(2) a2(2-5) s2 key runs in \<open>simp_all add: sent_only_def rust_bind_apply rust_return_apply\<close>)
qed

subsection \<open>The link\<close>

lemma append_rounds_run:
  assumes l: "p < length (hb_peers (ln_left l))" "q < length (hb_peers (ln_right l))"
      "ln_heard_right l = length xs" "ln_heard_left l = length (ps_sent (task_view q (ln_right l)))"
    and a1: "ps_sent (task_view p (ln_left l)) = xs @ [h]"
    and s1: "rust_for (Peer_handle fa px) (map MessageEv [h]) (task_view q (ln_right l)) = (Inr (), s1)" "ps_sent s1 = ps_sent (task_view q (ln_right l)) @ [r]"
    and a2: "rust_for (Peer_handle fa px) (map MessageEv [r]) (task_view p (ln_left l)) = (Inr (), a2)" "ps_sent a2 = xs @ [h, m]"
    and s2: "rust_for (Peer_handle fa px) (map MessageEv [m]) s1 = (Inr (), s2)" "ps_sent s2 = ps_sent s1"
  obtains l' where "link_rounds fa px p q 2 l = (Inr (), l')" "task_view p (ln_left l') = a2" "task_view q (ln_right l') = s2" "link_idle p q l'"
    "p < length (hb_peers (ln_left l'))" "q < length (hb_peers (ln_right l'))"
proof -
  let ?n = "length xs" and ?k = "length (ps_sent (task_view q (ln_right l)))"
  obtain B1 where B1: "link_right fa px p q l = (Inr (), l\<lparr>ln_right := B1, ln_heard_right := Suc ?n\<rparr>)" "task_view q B1 = s1" "q < length (hb_peers B1)"
    using link_right_run [of q l p "[h]" fa px s1] l a1 s1(1) by auto
  let ?l1 = "l\<lparr>ln_right := B1, ln_heard_right := Suc ?n\<rparr>"
  obtain A1 where A1: "link_left fa px p q ?l1 = (Inr (), ?l1\<lparr>ln_left := A1, ln_heard_left := Suc ?k\<rparr>)" "task_view p A1 = a2" "p < length (hb_peers A1)"
    using link_left_run [of p ?l1 q "[r]" fa px a2] l a2(1) s1(2) B1 by auto
  let ?l2 = "?l1\<lparr>ln_left := A1, ln_heard_left := Suc ?k\<rparr>"
  obtain B2 where B2: "link_right fa px p q ?l2 = (Inr (), ?l2\<lparr>ln_right := B2, ln_heard_right := Suc (Suc ?n)\<rparr>)" "task_view q B2 = s2" "q < length (hb_peers B2)"
    using link_right_run [of q ?l2 p "[m]" fa px s2] a2(2) s2(1) A1 B1 by auto
  let ?l3 = "?l2\<lparr>ln_right := B2, ln_heard_right := Suc (Suc ?n)\<rparr>"
  have sent: "pt_sent (hb_peers A1 ! p) = xs @ [h, m]" "pt_sent (hb_peers B2 ! q) = ps_sent (task_view q (ln_right l)) @ [r]"
    unfolding task_sent A1(2) B2(2) using a2(2) s1(2) s2(2) by simp_all
  have "link_left fa px p q ?l3 = (Inr (), ?l3)" by (simp add: link_left_def sent rust_return_apply)
  then have "link_rounds fa px p q 2 l = (Inr (), ?l3)"
    using B1(1) A1(1) B2(1) by (simp add: numeral_2_eq_2 rust_bind_apply rust_return_apply)
  then show ?thesis by (rule that) (simp_all add: A1(2,3) B2(2,3) link_idle_def sent)
qed

lemma append_in_task:
  assumes "at_peer (task_view p A) f st" and "in_corestore (with_feed (pr_feed (pt_peer (hb_peers A ! p))) m) A = (Inr u, A')"
  obtains f' w' where "m (f, cs_world (hb_store A)) = (Inr u, f', w')" "at_peer (task_view p A') f' st" "hb_peers A' = hb_peers A"
proof -
  let ?q = "pr_feed (pt_peer (hb_peers A ! p))"
  have cell: "deref (cs_heap (hb_store A)) ?q = Some f" using assms(1) by (simp add: at_peer_def task_view_def)
  obtain t where t: "with_feed ?q m (hb_store A) = (Inr u, t)" "A' = A\<lparr>hb_store := t\<rparr>"
    using assms(2) by (auto simp: in_corestore_def split: prod.splits)
  obtain f' w' where "m (f, cs_world (hb_store A)) = (Inr u, f', w')" "t = (hb_store A)\<lparr>cs_heap := (cs_heap (hb_store A))[?q := f'], cs_world := w'\<rparr>"
    using t(1) cell by (rule with_feedE)
  with assms(1) t(2) cell show ?thesis
    by (intro that [of f' w']) (auto simp: at_peer_def task_view_def deref_eq_Some)
qed

lemma linkedD:
  assumes "linked fkey p q l fA stA f st"
  shows "ln_heard_right l = length (ps_sent (task_view p (ln_left l)))" "ln_heard_left l = length (ps_sent (task_view q (ln_right l)))"
    "p < length (hb_peers (ln_left l))" "q < length (hb_peers (ln_right l))" "fkey f = fkey fA"
    "at_peer (task_view p (ln_left l)) fA stA" "\<not> pr_remote_ack (ps_peer (task_view p (ln_left l)))"
    "at_peer (task_view q (ln_right l)) f st" "\<not> pr_remote_ack (ps_peer (task_view q (ln_right l)))"
  using assms by (simp_all add: linked_def link_idle_def task_peer task_sent)

text \<open>
  C12. Between two connected replicators that have exchanged everything, a block appended to the feed of one
  side, when the peer's task hears of it, is announced, requested, sent and stored without an error within
  two rounds.  Afterwards both feeds have the block at the end the first one had, every other block is as
  before, and the connection is again as it was: no message is on its way and both peers are up.
\<close>

theorem append_reaches_peer:
  assumes laws: "feed_blocks fa block" "feed_keys_kept ext fa" "feed_proofs fa block (x_feed_public_key ext) valid" "codec_laws px" "channel_up px"
    and linked: "linked (x_feed_public_key ext) p q l fA stA f st" and lacks: "block f (f_len fa fA) = None"
    and append: "in_left (in_corestore (with_feed (pr_feed (pt_peer (hb_peers (ln_left l) ! p))) (f_append fa b))) l = (Inr (), l1)"
    and room: "room_for 1 (length b) stA" "room_for 1 (length b) st"
  shows "\<exists>l2 l3 fA' stA' f' st'. in_left (peer_task_event fa px p (FeedEv FeedAppend)) l1 = (Inr (), l2) \<and>
    link_rounds fa px p q 2 l2 = (Inr (), l3) \<and> linked (x_feed_public_key ext) p q l3 fA' stA' f' st' \<and>
    block fA' = (block fA)(f_len fa fA \<mapsto> b) \<and> block f' = (block f)(f_len fa fA \<mapsto> b)"
proof -
  let ?key = "x_feed_public_key ext" and ?B = "ln_right l"
  note ln = linkedD [OF linked]
  obtain A1 where A1: "in_corestore (with_feed (pr_feed (pt_peer (hb_peers (ln_left l) ! p))) (f_append fa b)) (ln_left l) = (Inr (), A1)" "l1 = l\<lparr>ln_left := A1\<rparr>"
    using append by (auto simp: in_left_def split: prod.splits)
  obtain g w where g: "f_append fa b (fA, cs_world (hb_store (ln_left l))) = (Inr (), g, w)" "at_peer (task_view p A1) g stA" "hb_peers A1 = hb_peers (ln_left l)"
    using ln(6) A1(1) by (rule append_in_task)
  have "keeps_keys ext fa (f_append fa b)" using laws(2) by (simp add: feed_keys_kept_def)
  then have key: "?key g = ?key fA" using g(1) unfolding keeps_keys_def by blast
  have app: "appended fa block b fA g" using laws(1) g(1) by (rule feed_append_appended)
  note last = appended_last [OF app]
  have lacks': "block f (f_len fa g - 1) = None" using lacks last(2) by simp
  have key': "?key f = ?key g" using ln(5) key by simp
  obtain h r m a1 s1 a2 s2 fA' stA' f' st' where x:
    "Peer_handle fa px (FeedEv FeedAppend) (task_view p A1) = (Inr (), a1)" "ps_sent a1 = ps_sent (task_view p A1) @ [h]"
    "rust_for (Peer_handle fa px) (map MessageEv [h]) (task_view q ?B) = (Inr (), s1)" "ps_sent s1 = ps_sent (task_view q ?B) @ [r]"
    "rust_for (Peer_handle fa px) (map MessageEv [r]) a1 = (Inr (), a2)" "ps_sent a2 = ps_sent a1 @ [m]"
    "rust_for (Peer_handle fa px) (map MessageEv [m]) s1 = (Inr (), s2)" "ps_sent s2 = ps_sent s1"
    "at_peer a2 fA' stA'" "block fA' = block g" "at_peer s2 f' st'" "block f' = (block f)(f_len fa g - 1 \<mapsto> b)" "?key f' = ?key fA'"
    by (rule append_exchange [OF laws(3-5) g(2) ln(8) key' ln(9) last(1,3) lacks' room])
  have p1: "p < length (hb_peers A1)" using g(3) ln(3) by simp
  have same: "ps_sent (task_view p A1) = ps_sent (task_view p (ln_left l))" "ps_peer (task_view p A1) = ps_peer (task_view p (ln_left l))"
    by (simp_all add: task_view_def g(3))
  obtain A2 where A2: "peer_task_event fa px p (FeedEv FeedAppend) A1 = (Inr (), A2)" "task_view p A2 = a1" "p < length (hb_peers A2)"
    using in_peer_run [where m = "Peer_handle fa px (FeedEv FeedAppend)", OF p1 x(1)] by (auto simp: peer_task_event_def)
  let ?l2 = "l\<lparr>ln_left := A2\<rparr>"
  obtain l3 where l3: "link_rounds fa px p q 2 ?l2 = (Inr (), l3)" "task_view p (ln_left l3) = a2" "task_view q (ln_right l3) = s2" "link_idle p q l3"
      "p < length (hb_peers (ln_left l3))" "q < length (hb_peers (ln_right l3))"
    by (rule append_rounds_run [of p ?l2 q "ps_sent (task_view p A1)" h fa px s1 r a2 m s2]) (use A2(2,3) ln x(2-8) same(1) in simp_all)
  have "\<not> pr_remote_ack (ps_peer a2)"
    using preservesD [OF view_handle x(1)] handled_quiet [OF x(5)] ln(7) same(2) by simp
  moreover have "\<not> pr_remote_ack (ps_peer s2)" using handled_quiet [OF x(3)] handled_quiet [OF x(7)] ln(9) by blast
  ultimately have "linked ?key p q l3 fA' stA' f' st'" using l3 x(9,11,13) by (simp add: linked_def task_peer)
  moreover have "in_left (peer_task_event fa px p (FeedEv FeedAppend)) l1 = (Inr (), ?l2)" using A2(1) by (simp add: in_left_def A1(2))
  moreover have "block fA' = (block fA)(f_len fa fA \<mapsto> b)" "block f' = (block f)(f_len fa fA \<mapsto> b)"
    using app x(10,12) last(2) by (simp_all add: appended_def)
  ultimately show ?thesis using l3(1) by (intro exI conjI)
qed

definition sample_side :: "bytes \<Rightarrow> (sample_files, sample_feed, u64 list) hub_state" where
  "sample_side remote = (hub_with remote [Some [7]])
     \<lparr>hb_peers := [\<lparr>pt_peer = Peer_new small_proto 0 0, pt_sent = [], pt_ended = False\<rparr>], hb_stats := [Stats_default]\<rparr>"

definition sample_link :: "(sample_files, sample_feed, u64 list) link" where
  "sample_link = \<lparr>ln_left = sample_side [2], ln_right = sample_side [1], ln_heard_right = 0, ln_heard_left = 0\<rparr>"

lemma sample_side_at: "at_peer (task_view 0 (sample_side remote)) left_feed Stats_default"
  by (simp add: at_peer_def task_view_def sample_side_def hub_with_def Peer_new_def deref_def)

lemma sample_linked: "linked (x_feed_public_key sample_ext) 0 0 sample_link left_feed Stats_default left_feed Stats_default"
  using sample_side_at by (simp add: linked_def link_idle_def sample_link_def) (simp add: sample_side_def Peer_new_def)

theorem append_reaches_peer_witness:
  "\<exists>l1 l2 l3 fA' stA' f' st'. in_left (in_corestore (with_feed 0 (f_append sample_api [8, 9]))) sample_link = (Inr (), l1) \<and>
     in_left (peer_task_event sample_api small_proto 0 (FeedEv FeedAppend)) l1 = (Inr (), l2) \<and> link_rounds sample_api small_proto 0 0 2 l2 = (Inr (), l3) \<and>
     linked (x_feed_public_key sample_ext) 0 0 l3 fA' stA' f' st' \<and> sample_block f' 1 = Some [8, 9]"
proof -
  have feed: "pr_feed (pt_peer (hb_peers (ln_left sample_link) ! 0)) = 0" by (simp add: sample_link_def sample_side_def Peer_new_def)
  obtain l1 where l1: "in_left (in_corestore (with_feed 0 (f_append sample_api [8, 9]))) sample_link = (Inr (), l1)"
    by (simp add: in_left_def in_corestore_def with_feed_def sample_link_def sample_side_def hub_with_def deref_def sample_api_def sample_bytes_def)
  have len: "f_len sample_api left_feed = 1" by (simp add: sample_api_def)
  have lacks: "sample_block left_feed (f_len sample_api left_feed) = None" unfolding len by (simp add: halves_at)
  have room: "room_for 1 (length ([8, 9] :: bytes)) Stats_default" by (simp add: room_for_def Stats_default_def)
  have got: "sample_block f' 1 = Some [8, 9]" if "sample_block f' = (sample_block left_feed)(f_len sample_api left_feed \<mapsto> [8, 9])" for f'
    using that by (simp add: len)
  show ?thesis
    using append_reaches_peer [OF sample_feed_blocks sample_keys_kept sample_merge_laws(1) small_codec_laws small_proto_laws(1) sample_linked lacks,
        unfolded feed, OF l1 room room] l1
    by (elim exE conjE, intro exI conjI) (assumption | erule got)+
qed

end
