(* ===== verification/Store_Sync.thy ===== *)
theory Store_Sync
  imports Link_Sync Replicate_Store Core_Store_Theorems
begin

section \<open>Two corestores share a feed\<close>

text \<open>
  Everything between opening two corestores and the arrival of a block, as in the test of
  \<open>corestore/src/replicate.rs\<close>: the first corestore has a feed by name and appends to it, the second opens it
  by key, both replicate over one connection.  The definitions are the test's own steps; the theorem is
  about the schedule in which both sides have told their replicators about the feed before the handshake
  arrives, since a feed that comes later is not opened (\<open>late_feed_opened_by_discovery_key\<close>).
\<close>

subsection \<open>The steps of the test\<close>

text \<open>The first corestore: \<open>get_by_name\<close>, \<open>append\<close>, and the key of the feed.\<close>

definition share_feed ::
  "('w, 'f, 'st, 'h) cs_ext \<Rightarrow> ('w, 'f, 'nd, 'sig) feed_api \<Rightarrow> bytes \<Rightarrow> bytes \<Rightarrow> (('w, 'f) cs_state, ref \<times> bytes) rust" where
  "share_feed ext fa name block =
     rust_bind (Corestore_get_by_name ext name) (\<lambda>feed1.
     rust_bind (with_feed feed1 (f_append fa block)) (\<lambda>_.
     rust_bind (peek_feed feed1 (x_feed_public_key ext)) (\<lambda>key1.
     rust_return (feed1, key1))))"

text \<open>
  One side: \<open>add_io\<close> spawns the connection's task, \<open>replicate_corestore\<close> is spawned; the former subscribes, the
  latter tells the replicator about the feeds and subscribes, and the handshake arrives.
\<close>

definition replicate_side ::
  "('w, 'f, 'st, 'h) cs_ext \<Rightarrow> 'w hub_ext \<Rightarrow> ('w, 'nd, 'sig, 'bf, 'sb) proto_ext \<Rightarrow> u64 list \<Rightarrow> bytes list \<Rightarrow> bytes \<Rightarrow>
   (('w, 'f, 'bf) hub_state, unit) rust" where
  "replicate_side ext hx px order channels remote =
     rust_bind Replicator_add_io (\<lambda>_.
     rust_bind (connection_start 0) (\<lambda>_.
     rust_bind (replicate_snapshot ext hx order) (\<lambda>_.
     rust_bind replicate_subscribe (\<lambda>_.
     connection_event ext hx px channels 0 (ProtocolEv (Handshake remote))))))"

subsection \<open>A corestore with one feed\<close>

definition only_feed :: "('w, 'f, 'st, 'h) cs_ext \<Rightarrow> 'f \<Rightarrow> ('w, 'f) cs_state \<Rightarrow> bool" where
  "only_feed ext f s \<longleftrightarrow> cs_heap s = [f] \<and> fm_feeds (cs_feeds s) = fmupd 0 0 fmempty"

lemma first_feed:
  assumes "Corestore_open ext p w = (Inr s, w')" and "InnerCorestore_open_feed ext key name s = (Inr q, s')" and "deref (cs_heap s') q = Some f"
  shows "only_feed ext f s'" and "q = 0"
proof -
  obtain mk where s: "s = \<lparr>cs_inner = \<lparr>ic_master_key = mk, ic_feeds = FeedMap_new, ic_name = ''default'',
      ic_storage_path = p, ic_subscribers = []\<rparr>, cs_world = w', cs_heap = [], cs_sent = []\<rparr>"
    using assms(1) by (rule Corestore_open_ok)
  have "only_feed ext f s' \<and> q = 0"
    using assms(2)
  proof (cases rule: open_feed_memory)
    case same
    then show ?thesis using assms(3) same_memD [OF same] by (simp add: s deref_def)
  next
    case (new g gn k s1)
    have "cs_heap s1 = []" "cs_feeds s1 = FeedMap_new" using same_memD [OF new(1)] by (simp_all add: s)
    then show ?thesis
      using assms(3) by (auto simp: new(2) only_feed_def filed_def FeedMap_link_def FeedMap_new_def deref_def Let_def hm_len_def split: if_splits option.splits)
  qed
  then show "only_feed ext f s'" "q = 0" by simp_all
qed

lemma side_run:
  fixes s :: "('w, 'f) cs_state" and px :: "('w, 'nd, 'sig, 'bf, 'sb) proto_ext" and ext :: "('w, 'f, 'st, 'h) cs_ext"
  assumes "only_feed ext f s" and up: "\<And>k w. \<exists>w'. hx_open hx 0 k w = (Inr (), w')"
  defines "d \<equiv> x_discovery_key ext (x_feed_public_key ext f)"
  obtains A where "replicate_side ext hx px [0] [d] remote (Replicator_new s) = (Inr (), A)" "fmlookup (hb_feeds A) d = Some (PeeredFeed_new 0)"
    "cn_remote_public_key (hb_tasks A ! 0) = Some remote" "cn_opened (hb_tasks A ! 0) = [x_feed_public_key ext f]"
    "deref (hb_heap A) 0 = Some f" "hb_peers A = []"
proof -
  have s: "cs_heap s = [f]" "fm_feeds (cs_feeds s) = fmupd 0 0 fmempty" using assms(1) by (simp_all add: only_feed_def)
  have feeds: "Corestore_feeds [0] s = [0]"
    by (simp add: Corestore_feeds_def InnerCorestore_feeds_def FeedMap_iter_def hm_values_def s List.map_filter_simps)
  have cell: "deref (cs_heap s) 0 = Some f" by (simp add: s deref_def)
  let ?cn = "\<lparr>cn_events = Some 0, cn_remote_public_key = None, cn_opened = [], cn_ended = False\<rparr>"
  obtain s2 :: "('w, 'f, 'bf) hub_state" where s2: "rust_bind Replicator_add_io (\<lambda>_. connection_start 0) (Replicator_new s) = (Inr (), s2)"
      "hb_store s2 = s" "hb_feeds s2 = fmempty" "hb_peers s2 = []" "hb_tasks s2 = [?cn]"
    by (simp add: rust_bind_apply Replicator_add_io_def Replicator_run_peer_def rust_modify_apply connection_start_def Replicator_subscribe_run
        set_connection_def Replicator_new_def)
  obtain s3 where s3: "replicate_snapshot ext hx [0] s2 = (Inr (), s3)" "hb_store s3 = s" "hb_feeds s3 = fmupd d (PeeredFeed_new 0) fmempty"
      "hb_peers s3 = []" "hb_tasks s3 = [?cn]"
    using s2(2-5) cell
    by (simp add: replicate_snapshot_def rust_get_apply feeds rust_bind_apply rust_return_apply add_feed_run Let_def d_def)
  obtain c s4 where s4: "replicate_subscribe s3 = (Inr c, s4)" "hb_heap s4 = [f]" "hb_feeds s4 = fmupd d (PeeredFeed_new 0) fmempty"
      "hb_peers s4 = []" "hb_tasks s4 = [?cn]"
    using s3(2-5) s(1)
    by (simp add: replicate_subscribe_def rust_bind_apply in_corestore_def Corestore_subscribe_run Replicator_subscribe_run rust_return_apply)
  let ?s5 = "s4\<lparr>hb_tasks := [?cn\<lparr>cn_remote_public_key := Some remote\<rparr>]\<rparr>"
  obtain A where A: "open_channel hx 0 (x_feed_public_key ext f) ?s5 = (Inr (), A)" "hub_view A = hub_view ?s5"
      "hb_tasks A = [?cn\<lparr>cn_remote_public_key := Some remote, cn_opened := [x_feed_public_key ext f]\<rparr>]"
    using open_channel_run [where s = ?s5 and k = "x_feed_public_key ext f", OF up] by auto
  have "deref (hb_heap ?s5) 0 = Some f" using s4(2) by (simp add: deref_def)
  then have "connection_event ext hx px [d] 0 (ProtocolEv (Handshake remote)) s4 = (Inr (), A)"
    using A(1) s4
    by (simp add: connection_event_def connection_handle_def set_connection_def rust_bind_apply rust_modify_apply rust_get_apply hm_values_def
        List.map_filter_simps open_feed_channel_def in_corestore_peek rust_return_apply PeeredFeed_new_def)
  then have "replicate_side ext hx px [0] [d] remote (Replicator_new s) = (Inr (), A)"
    using s2(1) s3(1) s4(1) unfolding replicate_side_def rust_bind_assoc [symmetric] by (simp add: rust_bind_apply)
  then show ?thesis by (rule that) (use A(2,3) s4(2-4) in \<open>simp_all add: deref_def\<close>)
qed

subsection \<open>The feed that is shared\<close>

lemma share_feed_run:
  assumes laws: "feed_build_law ext" "feed_keys_kept ext fa" "feed_blocks fa block" "key_laws ext"
    and opened: "Corestore_open ext p w = (Inr s, w')" and share: "share_feed ext fa name b s = (Inr (q, key), t)"
  obtains f where "q = 0" "only_feed ext f t" "key = x_feed_public_key ext f" "length key = 32"
    "0 < f_len fa f" "block f (f_len fa f - 1) = Some b"
proof -
  obtain s1 t1 where s1: "Corestore_get_by_name ext name s = (Inr q, s1)" "with_feed q (f_append fa b) s1 = (Inr (), t1)"
      "peek_feed q (x_feed_public_key ext) t1 = (Inr key, t)"
    using share by (auto simp: share_feed_def rust_return_apply elim!: rust_bind_InrE)
  have inv: "cs_inv ext s" using opened by (intro corestore_init_inv) (auto simp: corestore_init_def)
  have room: "cs_room s" using opened by (rule Corestore_open_ok) (simp add: FeedMap_new_def)
  obtain f0 sk where f0: "deref (cs_heap s1) q = Some f0" "name_key_pair ext (cs_inner s) name = Inr (x_feed_public_key ext f0, sk)"
    using get_by_name_feed [OF laws(1) inv room s1(1)] by blast
  have only: "only_feed ext f0 s1" "q = 0"
    using first_feed [OF opened _ f0(1)] s1(1) by (simp_all add: Corestore_get_by_name_def InnerCorestore_get_by_name_def)
  obtain f w1 where f: "f_append fa b (f0, cs_world s1) = (Inr (), f, w1)" "t1 = s1\<lparr>cs_heap := (cs_heap s1)[q := f], cs_world := w1\<rparr>"
    using s1(2) f0(1) by (rule with_feedE)
  have key: "x_feed_public_key ext f = x_feed_public_key ext f0"
  proof -
    have "keeps_keys ext fa (f_append fa b)" using laws(2) by (simp add: feed_keys_kept_def)
    then show ?thesis using f(1) unfolding keeps_keys_def by blast
  qed
  have app: "appended fa block b f0 f" using laws(3) f(1) by (rule feed_append_appended)
  note last = appended_last [OF app]
  have "only_feed ext f t1" using only by (simp add: f(2) only_feed_def)
  moreover have "key = x_feed_public_key ext f" "t = t1"
    using s1(3) peek_feed_run [of t1 q f] only by (simp_all add: f(2) only_feed_def deref_def)
  ultimately show ?thesis
    using only(2) last(1,3) key name_key_length [OF f0(2) laws(4)] by (intro that [of f]) simp_all
qed

text \<open>Both corestores have the feed, and both sides have asked for its channel.\<close>

lemma shared_sides:
  assumes laws: "feed_build_law ext" "feed_keys_kept ext fa" "feed_blocks fa block" "key_laws ext" "naming_laws ext" "disk_laws ext content dir"
    and up: "\<And>k w. \<exists>w'. hx_open hx 0 k w = (Inr (), w')"
    and opened: "Corestore_open ext p1 w1 = (Inr s1, w1')" "Corestore_open ext p2 w2 = (Inr s2, w2')"
    and disk: "disk_ok ext content (cs_inner s2) (cs_world s2)"
    and run: "share_feed ext fa name b s1 = (Inr (q1, key), t1)" "Corestore_get_by_key ext key s2 = (Inr q2, t2)"
    and cells: "deref (cs_heap t1) q1 = Some fA" "deref (cs_heap t2) q2 = Some f" and d: "d = x_discovery_key ext key"
  obtains A B where "q1 = 0" "q2 = 0" "x_feed_public_key ext f = x_feed_public_key ext fA" "block fA (f_len fa fA - 1) = Some b"
    "replicate_side ext hx px [0] [d] k2 (Replicator_new t1) = (Inr (), A)" "fmlookup (hb_feeds A) d = Some (PeeredFeed_new 0)"
    "cn_remote_public_key (hb_tasks A ! 0) = Some k2" "cn_opened (hb_tasks A ! 0) = [key]" "deref (hb_heap A) 0 = Some fA" "hb_peers A = []"
    "replicate_side ext hx px [0] [d] k1 (Replicator_new t2) = (Inr (), B)" "fmlookup (hb_feeds B) d = Some (PeeredFeed_new 0)"
    "cn_remote_public_key (hb_tasks B ! 0) = Some k1" "cn_opened (hb_tasks B ! 0) = [key]" "deref (hb_heap B) 0 = Some f" "hb_peers B = []"
proof -
  obtain g where g: "q1 = 0" "only_feed ext g t1" "key = x_feed_public_key ext g" "length key = 32" "block g (f_len fa g - 1) = Some b"
    using laws(1-4) opened(1) run(1) by (rule share_feed_run)
  have fA: "g = fA" using g(1,2) cells(1) by (simp add: only_feed_def deref_def)
  have inv: "cs_inv ext s2" using opened(2) by (intro corestore_init_inv) (auto simp: corestore_init_def)
  have room: "cs_room s2" using opened(2) by (rule Corestore_open_ok) (simp add: FeedMap_new_def)
  have inner: "InnerCorestore_get_by_key ext key s2 = (Inr q2, t2)" using run(2) by (simp add: Corestore_get_by_key_def)
  have f: "x_feed_public_key ext f = key" using get_by_key_feed [OF laws(1,4,5,6) inv disk room g(4) inner] cells(2) by auto
  have only: "only_feed ext f t2" "q2 = 0" using first_feed [OF opened(2) _ cells(2)] inner by (simp_all add: InnerCorestore_get_by_key_def)
  have d': "d = x_discovery_key ext (x_feed_public_key ext fA)" "d = x_discovery_key ext (x_feed_public_key ext f)" using d g(3) f fA by simp_all
  obtain A where A: "replicate_side ext hx px [0] [d] k2 (Replicator_new t1) = (Inr (), A)" "fmlookup (hb_feeds A) d = Some (PeeredFeed_new 0)"
      "cn_remote_public_key (hb_tasks A ! 0) = Some k2" "cn_opened (hb_tasks A ! 0) = [x_feed_public_key ext fA]" "deref (hb_heap A) 0 = Some fA" "hb_peers A = []"
    unfolding d'(1) using g(2) [unfolded fA] up by (rule side_run)
  obtain B where B: "replicate_side ext hx px [0] [d] k1 (Replicator_new t2) = (Inr (), B)" "fmlookup (hb_feeds B) d = Some (PeeredFeed_new 0)"
      "cn_remote_public_key (hb_tasks B ! 0) = Some k1" "cn_opened (hb_tasks B ! 0) = [x_feed_public_key ext f]" "deref (hb_heap B) 0 = Some f" "hb_peers B = []"
    unfolding d'(2) using only(1) up by (rule side_run)
  show ?thesis by (rule that [of A B]) (use A B f g(1,3,5) fA only(2) in simp_all)
qed


subsection \<open>A concrete pair of corestores\<close>

lemma sample_opened_disk_ok: "disk_ok sample_ext (\<lambda>w. w) (cs_inner sample_opened) (cs_world sample_opened)"
  by (auto simp: disk_ok_def sample_opened_def sample_store_def InnerCorestore_feed_path_def Let_def)

lemma sample_opened_named:
  "\<exists>s' sk. Corestore_get_by_name sample_ext [1] sample_opened = (Inr 0, s') \<and>
     cs_heap s' = [\<lparr>sf_key = sample_name_key, sf_secret = sk, sf_blocks = []\<rparr>]"
  by (simp add: corestore_run_simps rust_simps sample_ext_def sample_opened_def sample_store_def FeedMap_new_def sample_name_key_def NAMESPACE_def Let_def)

lemma sample_opened_keyed:
  "\<exists>s' sk. Corestore_get_by_key sample_ext sample_name_key sample_opened = (Inr 0, s') \<and>
     cs_heap s' = [\<lparr>sf_key = sample_name_key, sf_secret = sk, sf_blocks = []\<rparr>]"
  by (simp add: corestore_run_simps rust_simps sample_ext_def sample_opened_def sample_store_def FeedMap_new_def sample_name_key_def NAMESPACE_def Let_def)

lemma sample_share:
  "\<exists>t1 sk. share_feed sample_ext sample_api [1] [7] sample_opened = (Inr (0, sample_name_key), t1) \<and>
     deref (cs_heap t1) 0 = Some \<lparr>sf_key = sample_name_key, sf_secret = sk, sf_blocks = [Some [7]]\<rparr>"
proof -
  obtain s' sk where s': "Corestore_get_by_name sample_ext [1] sample_opened = (Inr 0, s')"
      "cs_heap s' = [\<lparr>sf_key = sample_name_key, sf_secret = sk, sf_blocks = []\<rparr>]"
    using sample_opened_named by blast
  then show ?thesis
    by (simp add: share_feed_def rust_bind_apply with_feed_def deref_def sample_api_def sample_bytes_def rust_return_apply
        rust_get_apply sample_ext_def)
qed

lemma one_block_room: "sf_blocks f = [Some [7]] \<Longrightarrow> stats_room (sample_block f) Stats_default"
proof -
  assume "sf_blocks f = [Some [7]]"
  then have "sample_block f = sample_block left_feed" by (simp add: fun_eq_iff sample_block_def)
  then show ?thesis using halves_room(1) by simp
qed

lemma empty_room: "sf_blocks f = [] \<Longrightarrow> stats_room (sample_block f) Stats_default"
  by (simp add: stats_room_def feed_count_def feed_bytes_def Stats_default_def sample_block_def)


end
