(* ===== verification/Store_Locking.thy ===== *)
theory Store_Locking
  imports HS_Interfaces
begin

section \<open>Tasks that wait for the corestore\<close>

text \<open>
  In the other theories an operation of the corestore is one step.  Here it is taken apart where it waits:
  every call of \<open>Corestore\<close> waits for the write lock and keeps it to its end, and a call that has opened a
  new feed ends with \<open>emit\<close>, which waits until the channel of the subscriber has room.  The subscriber is
  the task \<open>replicate_corestore\<close>, which takes the events one by one and itself calls \<open>get_by_dkey\<close> for the
  discovery keys that remote peers announce.  The capacity of the channel is a parameter (the code's
  channels are \<open>mpsc::channel(100)\<close>).

  A call is \<open>Locking\<close> while it waits for the lock, \<open>Inside\<close> while it holds it and has not opened a new feed,
  and \<open>Emitting\<close> once the new feed is filed and its event is being sent.
\<close>

datatype phase = Outside | Locking | Inside | Emitting

record lock_state =
  lk_callers :: "phase list"
  lk_follower :: phase
  lk_queue :: nat

definition locks_init :: "nat \<Rightarrow> lock_state" where
  "locks_init n = \<lparr>lk_callers = replicate n Outside, lk_follower = Outside, lk_queue = 0\<rparr>"

definition holding :: "phase \<Rightarrow> bool" where
  "holding p \<longleftrightarrow> p = Inside \<or> p = Emitting"

definition locked :: "lock_state \<Rightarrow> bool" where
  "locked s \<longleftrightarrow> (\<exists>p \<in> set (lk_follower s # lk_callers s). holding p)"

text \<open>One task and the length of the queue: a call begins, gets the lock, returns, or files a feed and sends its event.\<close>

inductive call_step :: "nat \<Rightarrow> bool \<Rightarrow> phase \<times> nat \<Rightarrow> phase \<times> nat \<Rightarrow> bool" for cap free where
  call: "call_step cap free (Outside, q) (Locking, q)"
| lock: "free \<Longrightarrow> call_step cap free (Locking, q) (Inside, q)"
| return: "call_step cap free (Inside, q) (Outside, q)"
| new_feed: "call_step cap free (Inside, q) (Emitting, q)"
| send: "q < cap \<Longrightarrow> call_step cap free (Emitting, q) (Outside, Suc q)"

inductive_simps call_step_simps: "call_step cap free (p, q) (p', q')"

inductive lock_step :: "nat \<Rightarrow> lock_state \<Rightarrow> lock_state \<Rightarrow> bool" for cap where
  caller: "i < length (lk_callers s) \<Longrightarrow> call_step cap (\<not> locked s) (lk_callers s ! i, lk_queue s) (p, q) \<Longrightarrow>
    lock_step cap s (s\<lparr>lk_callers := (lk_callers s)[i := p], lk_queue := q\<rparr>)"
| follower: "call_step cap (\<not> locked s) (lk_follower s, lk_queue s) (p, q) \<Longrightarrow>
    lock_step cap s (s\<lparr>lk_follower := p, lk_queue := q\<rparr>)"
| take: "lk_follower s = Outside \<Longrightarrow> 0 < lk_queue s \<Longrightarrow> lock_step cap s (s\<lparr>lk_queue := lk_queue s - 1\<rparr>)"

subsection \<open>One holder\<close>

definition exclusive :: "nat \<Rightarrow> lock_state \<Rightarrow> bool" where
  "exclusive cap s \<longleftrightarrow>
     lk_queue s \<le> cap \<and> (holding (lk_follower s) \<longrightarrow> (\<forall>i < length (lk_callers s). \<not> holding (lk_callers s ! i))) \<and>
     (\<forall>i < length (lk_callers s). \<forall>j < length (lk_callers s).
        holding (lk_callers s ! i) \<longrightarrow> holding (lk_callers s ! j) \<longrightarrow> i = j)"

lemma not_locked: "\<not> locked s \<longleftrightarrow> \<not> holding (lk_follower s) \<and> (\<forall>i < length (lk_callers s). \<not> holding (lk_callers s ! i))"
  by (simp add: locked_def all_set_conv_all_nth)

lemma call_step_holding:
  "call_step cap free (p, q) (p', q') \<Longrightarrow> q \<le> cap \<Longrightarrow> q' \<le> cap \<and> (holding p' \<longrightarrow> holding p \<or> free)"
  by (auto simp: call_step_simps holding_def)

interpretation store_lock: transition_system "\<lambda>s. \<exists>n. s = locks_init n" "lock_step cap" "exclusive cap" for cap
proof (unfold_locales, goal_cases)
  case (1 s)
  then show ?case by (auto simp: locks_init_def exclusive_def holding_def)
next
  case (2 s t)
  from 2(2) show ?case
  proof cases
    case (caller i p q)
    have "q \<le> cap" "holding p \<Longrightarrow> holding (lk_callers s ! i) \<or> \<not> locked s"
      using call_step_holding [OF caller(3)] 2(1) by (auto simp: exclusive_def)
    with 2(1) caller(1,2) show ?thesis by (auto simp: exclusive_def not_locked nth_list_update)
  next
    case (follower p q)
    have "q \<le> cap" "holding p \<Longrightarrow> holding (lk_follower s) \<or> \<not> locked s"
      using call_step_holding [OF follower(2)] 2(1) by (auto simp: exclusive_def)
    with 2(1) follower(1) show ?thesis by (auto simp: exclusive_def not_locked)
  next
    case take
    with 2(1) show ?thesis by (auto simp: exclusive_def)
  qed
qed

subsection \<open>Waiting for each other\<close>

text \<open>
  The channel is full, a task waits to send, and the follower, which alone could make room, waits for the
  lock or is itself the sender.
\<close>

definition deadlocked :: "nat \<Rightarrow> lock_state \<Rightarrow> bool" where
  "deadlocked cap s \<longleftrightarrow>
     lk_queue s = cap \<and> (lk_follower s = Emitting \<or> lk_follower s = Locking \<and> Emitting \<in> set (lk_callers s))"

lemma deadlocked_locked: "deadlocked cap s \<Longrightarrow> locked s"
  by (auto simp: deadlocked_def locked_def holding_def)

lemma deadlocked_step:
  assumes dead: "deadlocked cap s" and excl: "exclusive cap s" and step: "lock_step cap s t"
  shows "deadlocked cap t" and "i < length (lk_callers s) \<Longrightarrow> lk_callers s ! i = Locking \<Longrightarrow> lk_callers t ! i = Locking"
proof -
  have no_inside: "lk_callers s ! i \<noteq> Inside" if "i < length (lk_callers s)" for i
    using dead excl that by (auto simp: deadlocked_def exclusive_def holding_def in_set_conv_nth)
  note locked = deadlocked_locked [OF dead]
  have "deadlocked cap t \<and> (i < length (lk_callers s) \<longrightarrow> lk_callers s ! i = Locking \<longrightarrow> lk_callers t ! i = Locking)"
    using step
  proof cases
    case (caller j p q)
    then have p: "lk_callers s ! j = Outside" "p = Locking" "q = lk_queue s"
      using dead locked no_inside [OF caller(2)] by (auto simp: call_step_simps deadlocked_def)
    have "Emitting \<in> set ((lk_callers s)[j := Locking])" if "Emitting \<in> set (lk_callers s)"
      using that p(1) caller(2) by (auto simp: in_set_conv_nth nth_list_update) (metis phase.distinct(5))
    moreover have "(lk_callers s)[j := Locking] ! i = Locking" if "lk_callers s ! i = Locking"
      using that by (cases "i = j"; cases "j < length (lk_callers s)") (simp_all add: list_update_beyond)
    ultimately show ?thesis using dead caller(1) p by (auto simp: deadlocked_def)
  next
    case (follower p q)
    then show ?thesis using dead locked by (auto simp: call_step_simps deadlocked_def)
  next
    case take
    then show ?thesis using dead by (auto simp: deadlocked_def)
  qed
  then show "deadlocked cap t" "i < length (lk_callers s) \<Longrightarrow> lk_callers s ! i = Locking \<Longrightarrow> lk_callers t ! i = Locking" by blast+
qed

lemma lock_step_length: "lock_step cap s t \<Longrightarrow> length (lk_callers t) = length (lk_callers s)"
  by (auto elim: lock_step.cases)

lemma deadlocked_forever:
  assumes run: "(lock_step cap)\<^sup>*\<^sup>* s t" and "deadlocked cap s" and excl: "exclusive cap s"
    and "i < length (lk_callers s)" and "lk_callers s ! i = Locking"
  shows "deadlocked cap t \<and> i < length (lk_callers t) \<and> lk_callers t ! i = Locking"
  using run
proof (induction rule: rtranclp_induct)
  case base
  then show ?case using assms by simp
next
  case (step t u)
  have "exclusive cap t" using store_lock.inv_steps step.hyps(1) excl by blast
  with step deadlocked_step(1) [of cap t u] deadlocked_step(2) [of cap t u i] lock_step_length [OF step.hyps(2)] show ?case by auto
qed

subsection \<open>Otherwise the lock comes free\<close>

lemma room_to_send:
  assumes excl: "exclusive cap s" and "0 < cap" and live: "\<not> deadlocked cap s"
    and caller: "j < length (lk_callers s)" "holding (lk_callers s ! j)"
  shows "\<exists>s1. (lock_step cap)\<^sup>*\<^sup>* s s1 \<and> lk_callers s1 = lk_callers s \<and> lk_follower s1 = lk_follower s \<and>
    (lk_callers s ! j = Emitting \<longrightarrow> lk_queue s1 < cap)"
proof (cases "lk_callers s ! j = Emitting \<and> lk_queue s = cap")
  case True
  have "lk_follower s = Outside"
    using live True caller excl nth_mem [OF caller(1)]
    by (cases "lk_follower s") (auto simp: deadlocked_def exclusive_def holding_def)
  then have "lock_step cap s (s\<lparr>lk_queue := lk_queue s - 1\<rparr>)" using True \<open>0 < cap\<close> by (intro lock_step.take) simp_all
  then show ?thesis using True \<open>0 < cap\<close> by (intro exI [of _ "s\<lparr>lk_queue := lk_queue s - 1\<rparr>"]) auto
next
  case False
  then show ?thesis using excl by (intro exI [of _ s]) (auto simp: exclusive_def)
qed

lemma caller_leaves:
  assumes excl: "exclusive cap s" and caller: "j < length (lk_callers s)" "holding (lk_callers s ! j)"
  shows "\<not> locked (s\<lparr>lk_callers := (lk_callers s)[j := Outside]\<rparr>)"
proof -
  have "\<not> holding (lk_callers s ! k)" if "k < length (lk_callers s)" "k \<noteq> j" for k
    using excl caller that by (auto simp: exclusive_def)
  moreover have "\<not> holding (lk_follower s)" using excl caller by (auto simp: exclusive_def)
  moreover have "\<not> holding Outside" by (simp add: holding_def)
  ultimately show ?thesis using caller(1) by (auto simp: not_locked nth_list_update)
qed

lemma lock_comes_free:
  assumes excl: "exclusive cap s" and "0 < cap" and live: "\<not> deadlocked cap s" and i: "i < length (lk_callers s)" "lk_callers s ! i = Locking"
  shows "\<exists>t. (lock_step cap)\<^sup>*\<^sup>* s t \<and> \<not> locked t \<and> i < length (lk_callers t) \<and> lk_callers t ! i = Locking"
proof (cases "locked s")
  case False
  then show ?thesis using i by blast
next
  case True
  then consider (follower) "holding (lk_follower s)" | (caller) j where "j < length (lk_callers s)" "holding (lk_callers s ! j)"
    using not_locked [of s] by blast
  then show ?thesis
  proof cases
    case follower
    obtain q where "call_step cap (\<not> locked s) (lk_follower s, lk_queue s) (Outside, q)"
      using follower live excl by (auto simp: holding_def deadlocked_def exclusive_def call_step_simps)
    then have "lock_step cap s (s\<lparr>lk_follower := Outside, lk_queue := q\<rparr>)" by (rule lock_step.follower)
    moreover have "\<not> locked (s\<lparr>lk_follower := Outside, lk_queue := q\<rparr>)"
      using excl follower by (auto simp: not_locked exclusive_def holding_def)
    ultimately show ?thesis using i by (intro exI [of _ "s\<lparr>lk_follower := Outside, lk_queue := q\<rparr>"]) auto
  next
    case (caller j)
    obtain s1 where s1: "(lock_step cap)\<^sup>*\<^sup>* s s1" "lk_callers s1 = lk_callers s" "lk_follower s1 = lk_follower s"
        "lk_callers s ! j = Emitting \<longrightarrow> lk_queue s1 < cap"
      using room_to_send [OF excl assms(2) live caller] by blast
    obtain q where "call_step cap (\<not> locked s1) (lk_callers s1 ! j, lk_queue s1) (Outside, q)"
      using caller(2) s1(2,4) by (auto simp: holding_def call_step_simps)
    then have "lock_step cap s1 (s1\<lparr>lk_callers := (lk_callers s1)[j := Outside], lk_queue := q\<rparr>)"
      using caller(1) s1(2) by (intro lock_step.caller) simp_all
    then have "(lock_step cap)\<^sup>*\<^sup>* s (s1\<lparr>lk_callers := (lk_callers s1)[j := Outside], lk_queue := q\<rparr>)"
      using s1(1) by (rule rtranclp.rtrancl_into_rtrancl [rotated])
    moreover have "\<not> locked (s1\<lparr>lk_callers := (lk_callers s1)[j := Outside], lk_queue := q\<rparr>)"
      using caller_leaves [OF excl caller] s1(2,3) by (simp add: not_locked)
    moreover have "i \<noteq> j" using i(2) caller(2) by (auto simp: holding_def)
    ultimately show ?thesis
      using i s1(2) by (intro exI [of _ "s1\<lparr>lk_callers := (lk_callers s1)[j := Outside], lk_queue := q\<rparr>"]) auto
  qed
qed

text \<open>
  C24. In every reachable state, a call that waits for the corestore can get in eventually, by steps the
  other tasks can take, unless the event channel is full and the replication task, which empties it, waits
  for the lock itself or is the one that sends; in that case the call never gets in, whatever happens.
\<close>

theorem store_call_gets_in_unless_deadlocked:
  assumes "0 < cap" and "(lock_step cap)\<^sup>*\<^sup>* (locks_init n) s" and "i < length (lk_callers s)" and "lk_callers s ! i = Locking"
  shows "(\<exists>t. (lock_step cap)\<^sup>*\<^sup>* s t \<and> lk_callers t ! i = Inside) \<longleftrightarrow> \<not> deadlocked cap s"
proof -
  have excl: "exclusive cap s" using store_lock.inv_reachable assms(2) by blast
  show ?thesis
  proof
    assume "\<exists>t. (lock_step cap)\<^sup>*\<^sup>* s t \<and> lk_callers t ! i = Inside"
    then show "\<not> deadlocked cap s" using deadlocked_forever [OF _ _ excl assms(3,4)] by fastforce
  next
    assume "\<not> deadlocked cap s"
    from lock_comes_free [OF excl assms(1) this assms(3,4)] obtain t where t: "(lock_step cap)\<^sup>*\<^sup>* s t" "\<not> locked t"
        "i < length (lk_callers t)" "lk_callers t ! i = Locking" by blast
    have "call_step cap (\<not> locked t) (lk_callers t ! i, lk_queue t) (Inside, lk_queue t)" using t(2,4) by (simp add: call_step_simps)
    with t(3) have "lock_step cap t (t\<lparr>lk_callers := (lk_callers t)[i := Inside], lk_queue := lk_queue t\<rparr>)" by (rule lock_step.caller)
    with t(1) have "(lock_step cap)\<^sup>*\<^sup>* s (t\<lparr>lk_callers := (lk_callers t)[i := Inside], lk_queue := lk_queue t\<rparr>)"
      by (rule rtranclp.rtrancl_into_rtrancl)
    then show "\<exists>t. (lock_step cap)\<^sup>*\<^sup>* s t \<and> lk_callers t ! i = Inside"
      using t(3) by (intro exI [of _ "t\<lparr>lk_callers := (lk_callers t)[i := Inside], lk_queue := lk_queue t\<rparr>"]) simp
  qed
qed

theorem store_call_gets_in_unless_deadlocked_witness:
  "\<exists>s t. (lock_step 100)\<^sup>*\<^sup>* (locks_init 1) s \<and> lk_callers s = [Locking] \<and> (lock_step 100)\<^sup>*\<^sup>* s t \<and> lk_callers t ! 0 = Inside"
proof -
  let ?s = "(locks_init 1)\<lparr>lk_callers := [Locking], lk_queue := 0\<rparr>"
  have "call_step 100 (\<not> locked (locks_init 1)) (lk_callers (locks_init 1) ! 0, lk_queue (locks_init 1)) (Locking, 0)"
    by (simp add: call_step_simps locks_init_def)
  then have "lock_step 100 (locks_init 1) ((locks_init 1)\<lparr>lk_callers := (lk_callers (locks_init 1))[0 := Locking], lk_queue := 0\<rparr>)"
    by (intro lock_step.caller) (simp_all add: locks_init_def)
  then have run: "(lock_step 100)\<^sup>*\<^sup>* (locks_init 1) ?s" by (simp add: locks_init_def)
  have "(0 :: nat) < 100" "0 < length (lk_callers ?s)" "lk_callers ?s ! 0 = Locking" "\<not> deadlocked 100 ?s"
    by (simp_all add: locks_init_def deadlocked_def)
  with store_call_gets_in_unless_deadlocked [OF this(1) run this(2,3)] run show ?thesis by auto
qed

subsection \<open>The deadlock can be reached\<close>

lemma fill_queue:
  assumes "q \<le> cap"
  shows "(lock_step cap)\<^sup>*\<^sup>* (locks_init (Suc n)) ((locks_init (Suc n))\<lparr>lk_queue := q\<rparr>)"
  using assms
proof (induction q)
  case 0
  then show ?case by (simp add: locks_init_def)
next
  case (Suc q)
  let ?at = "\<lambda>p q. \<lparr>lk_callers = p # replicate n Outside, lk_follower = Outside, lk_queue = q\<rparr>"
  have free: "\<not> locked (?at Locking q)" "\<not> locked (?at Outside q)" by (auto simp: locked_def holding_def)
  have step: "lock_step cap (?at p q) (?at p' q')" if "call_step cap (\<not> locked (?at p q)) (p, q) (p', q')" for p p' q'
    using lock_step.caller [of 0 "?at p q" cap p' q'] that by simp
  have "lock_step cap (?at Outside q) (?at Locking q)" "lock_step cap (?at Locking q) (?at Inside q)"
      "lock_step cap (?at Inside q) (?at Emitting q)" "lock_step cap (?at Emitting q) (?at Outside (Suc q))"
    using Suc.prems by (intro step; simp add: call_step_simps free)+
  then have "(lock_step cap)\<^sup>*\<^sup>* (?at Outside q) (?at Outside (Suc q))" by (meson converse_rtranclp_into_rtranclp rtranclp.rtrancl_refl)
  with Suc show ?case by (auto simp: locks_init_def intro: rtranclp_trans)
qed


end
