(* ===== verification/Store_Calls.thy ===== *)
theory Store_Calls
  imports Store_Locking Core_Store_Steps Sample_World
begin

section \<open>The calls behind the lock\<close>

text \<open>
  \<open>Store_Locking\<close> only has the phases of the calls.  Here a call that holds the lock is one of the operations of
  the corestore itself: \<open>corestore_step\<close> from the state the corestore is in.  A call that opens no new feed
  sends nothing and returns; one that does has filed the feed in \<open>ca_new\<close> and sends one event per subscriber,
  for which the channel \<open>ch\<close> of the replication task must have room.  Every step is a step of the phases, so
  what holds of them holds of the corestore, its users and the replication task.
\<close>

record ('w, 'f) calls =
  ca_store :: "('w, 'f) cs_state"
  ca_new :: "('w, 'f) cs_state"
  ca_taken :: nat
  ca_callers :: "phase list"
  ca_follower :: phase

text \<open>\<open>None\<close> is the replication task, \<open>Some i\<close> another user of the corestore.\<close>

fun is_task :: "nat option \<Rightarrow> ('w, 'f) calls \<Rightarrow> bool" where
  "is_task None x \<longleftrightarrow> True"
| "is_task (Some i) x \<longleftrightarrow> i < length (ca_callers x)"

fun phase_of :: "nat option \<Rightarrow> ('w, 'f) calls \<Rightarrow> phase" where
  "phase_of None x = ca_follower x"
| "phase_of (Some i) x = ca_callers x ! i"

fun set_phase :: "nat option \<Rightarrow> phase \<Rightarrow> ('w, 'f) calls \<Rightarrow> ('w, 'f) calls" where
  "set_phase None p x = x\<lparr>ca_follower := p\<rparr>"
| "set_phase (Some i) p x = x\<lparr>ca_callers := (ca_callers x)[i := p]\<rparr>"

definition event_count :: "nat \<Rightarrow> ('w, 'f) cs_state \<Rightarrow> nat" where
  "event_count ch s = length (received ch (cs_sent s))"

definition calls_view :: "nat \<Rightarrow> ('w, 'f) calls \<Rightarrow> lock_state" where
  "calls_view ch x = \<lparr>lk_callers = ca_callers x, lk_follower = ca_follower x, lk_queue = event_count ch (ca_store x) - ca_taken x\<rparr>"

inductive calls_step :: "('w, 'f, 'st, 'h) cs_ext \<Rightarrow> nat \<Rightarrow> nat \<Rightarrow> ('w, 'f) calls \<Rightarrow> ('w, 'f) calls \<Rightarrow> bool" for ext cap ch where
  call: "is_task t x \<Longrightarrow> phase_of t x = Outside \<Longrightarrow> calls_step ext cap ch x (set_phase t Locking x)"
| lock: "is_task t x \<Longrightarrow> phase_of t x = Locking \<Longrightarrow> \<not> locked (calls_view ch x) \<Longrightarrow> calls_step ext cap ch x (set_phase t Inside x)"
| return: "is_task t x \<Longrightarrow> phase_of t x = Inside \<Longrightarrow> corestore_step ext (ca_store x) s \<Longrightarrow> cs_sent s = cs_sent (ca_store x) \<Longrightarrow>
    calls_step ext cap ch x (set_phase t Outside (x\<lparr>ca_store := s\<rparr>))"
| new_feed: "is_task t x \<Longrightarrow> phase_of t x = Inside \<Longrightarrow> corestore_step ext (ca_store x) s \<Longrightarrow> cs_sent s \<noteq> cs_sent (ca_store x) \<Longrightarrow>
    calls_step ext cap ch x (set_phase t Emitting (x\<lparr>ca_new := s\<rparr>))"
| send: "is_task t x \<Longrightarrow> phase_of t x = Emitting \<Longrightarrow> event_count ch (ca_store x) - ca_taken x < cap \<Longrightarrow>
    calls_step ext cap ch x (set_phase t Outside (x\<lparr>ca_store := ca_new x\<rparr>))"
| take: "ca_follower x = Outside \<Longrightarrow> ca_taken x < event_count ch (ca_store x) \<Longrightarrow>
    calls_step ext cap ch x (x\<lparr>ca_taken := Suc (ca_taken x)\<rparr>)"

subsection \<open>One event per new feed\<close>

definition store_ok :: "('w, 'f, 'st, 'h) cs_ext \<Rightarrow> nat \<Rightarrow> ('w, 'f) cs_state \<Rightarrow> bool" where
  "store_ok ext ch s \<longleftrightarrow> cs_inv ext s \<and> ch \<in> set (cs_subs s)"

lemma call_events:
  assumes "\<forall>c. x_receiver_alive ext c" and "feed_build_law ext" and ok: "store_ok ext ch s" and step: "corestore_step ext s s'"
  shows "store_ok ext ch s'" and "cs_sent s' \<noteq> cs_sent s \<Longrightarrow> event_count ch s' = Suc (event_count ch s)"
proof -
  have inv: "cs_inv ext s" and ch: "ch \<in> set (cs_subs s)" using ok by (simp_all add: store_ok_def)
  have subs: "distinct (cs_subs s)" using inv by (metis cs_inv_def bus_ok_def distinct_upt)
  have "ch \<in> set (cs_subs s') \<and> (cs_sent s' \<noteq> cs_sent s \<longrightarrow> event_count ch s' = Suc (event_count ch s))"
    using step
  proof (cases rule: corestore_step_memory)
    case same
    then show ?thesis using ch same_memD [OF same] by simp
  next
    case subscribed
    then show ?thesis using ch by (simp add: Corestore_subscribe_run)
  next
    case (new f gn k s1)
    then show ?thesis
      using ch assms(1) same_memD [OF new(1)] by (simp add: event_count_def filed_def received_broadcast [OF subs])
  qed
  moreover have "cs_inv ext s'" using assms(2) step inv by (rule corestore_step_inv)
  ultimately show "store_ok ext ch s'" "cs_sent s' \<noteq> cs_sent s \<Longrightarrow> event_count ch s' = Suc (event_count ch s)"
    by (simp_all add: store_ok_def)
qed

subsection \<open>The phases\<close>

lemma task_phase:
  assumes "is_task t x" and "call_step cap (\<not> locked (calls_view ch x)) (phase_of t x, lk_queue (calls_view ch x)) (p, n)"
  shows "lock_step cap (calls_view ch x) (case t of None \<Rightarrow> (calls_view ch x)\<lparr>lk_follower := p, lk_queue := n\<rparr>
    | Some i \<Rightarrow> (calls_view ch x)\<lparr>lk_callers := (ca_callers x)[i := p], lk_queue := n\<rparr>)"
proof (cases t)
  case None
  with assms(2) show ?thesis using lock_step.follower [of cap "calls_view ch x" p n] by (simp add: calls_view_def)
next
  case (Some i)
  with assms show ?thesis using lock_step.caller [of i "calls_view ch x" cap p n] by (simp add: calls_view_def)
qed

lemma view_set_phase:
  "calls_view ch (set_phase t p x) = (case t of None \<Rightarrow> (calls_view ch x)\<lparr>lk_follower := p\<rparr>
     | Some i \<Rightarrow> (calls_view ch x)\<lparr>lk_callers := (ca_callers x)[i := p]\<rparr>)"
  by (cases t) (simp_all add: calls_view_def)

definition emitting :: "('w, 'f) calls \<Rightarrow> bool" where
  "emitting x \<longleftrightarrow> (\<exists>t. is_task t x \<and> phase_of t x = Emitting)"

text \<open>The event of the feed in \<open>ca_new\<close> is the next one.\<close>

definition calls_inv :: "('w, 'f, 'st, 'h) cs_ext \<Rightarrow> nat \<Rightarrow> nat \<Rightarrow> ('w, 'f) calls \<Rightarrow> bool" where
  "calls_inv ext cap ch x \<longleftrightarrow>
     store_ok ext ch (ca_store x) \<and> ca_taken x \<le> event_count ch (ca_store x) \<and> exclusive cap (calls_view ch x) \<and>
     (emitting x \<longrightarrow> store_ok ext ch (ca_new x) \<and> event_count ch (ca_new x) = Suc (event_count ch (ca_store x)))"

lemma holder_alone:
  assumes "exclusive cap (calls_view ch x)" and "is_task t x" and "holding (phase_of t x)" and "is_task u x" and "holding (phase_of u x)"
  shows "u = t"
  using assms by (cases t; cases u) (auto simp: exclusive_def calls_view_def)

lemma phase_of_set: "is_task t x \<Longrightarrow> is_task u x \<Longrightarrow> phase_of u (set_phase t p x) = (if u = t then p else phase_of u x)"
  by (cases t; cases u) auto

lemma set_phase_simps [simp]:
  "is_task u (set_phase t p x) \<longleftrightarrow> is_task u x" "ca_store (set_phase t p x) = ca_store x" "ca_new (set_phase t p x) = ca_new x"
  "ca_taken (set_phase t p x) = ca_taken x"
  by (cases t; cases u; simp)+

lemma is_task_store [simp]: "is_task t (x\<lparr>ca_store := s\<rparr>) \<longleftrightarrow> is_task t x" "is_task t (x\<lparr>ca_new := s\<rparr>) \<longleftrightarrow> is_task t x"
  "phase_of t (x\<lparr>ca_store := s\<rparr>) = phase_of t x" "phase_of t (x\<lparr>ca_new := s\<rparr>) = phase_of t x"
  "is_task t (x\<lparr>ca_taken := n\<rparr>) \<longleftrightarrow> is_task t x" "phase_of t (x\<lparr>ca_taken := n\<rparr>) = phase_of t x"
  by (cases t; simp)+

text \<open>Every step is a step of the phases.\<close>

lemma calls_step_view:
  assumes laws: "\<forall>c. x_receiver_alive ext c" "feed_build_law ext" and inv: "calls_inv ext cap ch x" and step: "calls_step ext cap ch x y"
  shows "lock_step cap (calls_view ch x) (calls_view ch y)"
proof -
  have phase: "lock_step cap (calls_view ch x) (calls_view ch (set_phase t p z))"
    if "is_task t x" "call_step cap (\<not> locked (calls_view ch x)) (phase_of t x, lk_queue (calls_view ch x)) (p, lk_queue (calls_view ch z))"
      "ca_callers z = ca_callers x" "ca_follower z = ca_follower x" for t p z
    using task_phase [OF that(1,2)] that(3,4) by (cases t) (simp_all add: view_set_phase calls_view_def)
  from step show ?thesis
  proof cases
    case (call t)
    then show ?thesis by (simp add: phase call_step_simps)
  next
    case (lock t)
    then show ?thesis by (simp add: phase call_step_simps)
  next
    case (return t s)
    then show ?thesis unfolding return(1) by (intro phase) (simp_all add: call_step_simps calls_view_def event_count_def)
  next
    case (new_feed t s)
    then show ?thesis unfolding new_feed(1) by (intro phase) (simp_all add: call_step_simps calls_view_def)
  next
    case (send t)
    have "emitting x" using send(2,3) by (auto simp: emitting_def)
    then have "event_count ch (ca_new x) - ca_taken x = Suc (event_count ch (ca_store x) - ca_taken x)"
      using inv by (simp add: calls_inv_def Suc_diff_le)
    with send show ?thesis unfolding send(1) by (intro phase) (simp_all add: call_step_simps calls_view_def)
  next
    case take
    then show ?thesis using lock_step.take [of "calls_view ch x" cap] by (simp add: calls_view_def)
  qed
qed

text \<open>While a task holds the lock, nobody else has an event to send.\<close>

lemma emitting_set_phase:
  assumes "exclusive cap (calls_view ch x)" and "is_task t x" and "holding (phase_of t x)"
    and "ca_callers z = ca_callers x" "ca_follower z = ca_follower x"
  shows "emitting (set_phase t p z) \<longleftrightarrow> p = Emitting"
proof -
  have task: "is_task u z \<longleftrightarrow> is_task u x" "phase_of u z = phase_of u x" for u using assms(4,5) by (cases u; simp)+
  have "phase_of u x \<noteq> Emitting" if "is_task u x" "u \<noteq> t" for u
    using holder_alone [OF assms(1-3) that(1)] that(2) by (auto simp: holding_def)
  then show ?thesis
    using assms(2) by (auto simp: emitting_def phase_of_set task split: if_splits)
qed

lemma calls_step_inv:
  assumes laws: "\<forall>c. x_receiver_alive ext c" "feed_build_law ext" and inv: "calls_inv ext cap ch x" and step: "calls_step ext cap ch x y"
  shows "calls_inv ext cap ch y"
proof -
  have excl: "exclusive cap (calls_view ch x)" and ok: "store_ok ext ch (ca_store x)" and le: "ca_taken x \<le> event_count ch (ca_store x)"
    and new: "emitting x \<Longrightarrow> store_ok ext ch (ca_new x) \<and> event_count ch (ca_new x) = Suc (event_count ch (ca_store x))"
    using inv by (simp_all add: calls_inv_def)
  have excl': "exclusive cap (calls_view ch y)"
    using excl calls_step_view [OF laws inv step] by (rule store_lock.inv_step)
  from step show ?thesis
  proof cases
    case (call t)
    have "emitting y \<Longrightarrow> emitting x" unfolding call(1) using call(2,3) by (auto simp: emitting_def phase_of_set split: if_splits)
    with new ok le excl' show ?thesis by (simp add: calls_inv_def call(1))
  next
    case (lock t)
    have "emitting y \<Longrightarrow> emitting x" unfolding lock(1) using lock(2,3) by (auto simp: emitting_def phase_of_set split: if_splits)
    with new ok le excl' show ?thesis by (simp add: calls_inv_def lock(1))
  next
    case (return t s)
    have hold: "holding (phase_of t x)" using return(3) by (simp add: holding_def)
    have "\<not> emitting y" unfolding return(1) by (simp add: emitting_set_phase [OF excl return(2) hold])
    with excl' le return(5) call_events(1) [OF laws ok return(4)] show ?thesis by (simp add: calls_inv_def return(1) event_count_def)
  next
    case (new_feed t s)
    with excl' ok le call_events [OF laws ok new_feed(4)] show ?thesis by (simp add: calls_inv_def)
  next
    case (send t)
    have hold: "holding (phase_of t x)" using send(3) by (simp add: holding_def)
    have "\<not> emitting y" unfolding send(1) by (simp add: emitting_set_phase [OF excl send(2) hold])
    moreover have "emitting x" using send(2,3) by (auto simp: emitting_def)
    ultimately show ?thesis using new excl' le by (simp add: calls_inv_def send(1))
  next
    case take
    have "emitting y \<longleftrightarrow> emitting x" by (simp add: take(1) emitting_def)
    with new ok take excl' show ?thesis by (simp add: calls_inv_def)
  qed
qed

definition calls_init :: "('w, 'f, 'st, 'h) cs_ext \<Rightarrow> nat \<Rightarrow> nat \<Rightarrow> ('w, 'f) calls \<Rightarrow> bool" where
  "calls_init ext ch n x \<longleftrightarrow> store_ok ext ch (ca_store x) \<and> ca_taken x = event_count ch (ca_store x) \<and> calls_view ch x = locks_init n"

interpretation store_calls: simulation "\<lambda>x. \<exists>n. calls_init ext ch n x" "calls_step ext cap ch"
  "\<lambda>x. (\<forall>c. x_receiver_alive ext c) \<longrightarrow> feed_build_law ext \<longrightarrow> calls_inv ext cap ch x"
  "calls_view ch" "\<lambda>k k'. (\<forall>c. x_receiver_alive ext c) \<longrightarrow> feed_build_law ext \<longrightarrow> lock_step cap k k'"
  for ext :: "('w, 'f, 'st, 'h) cs_ext" and cap ch
proof (unfold_locales, goal_cases)
  case (1 x)
  then obtain n where x: "calls_init ext ch n x" by blast
  have "exclusive cap (locks_init n)" by (rule store_lock.inv_init) blast
  moreover have "\<not> emitting x"
  proof -
    have "ca_callers x = replicate n Outside" "ca_follower x = Outside" using x by (simp_all add: calls_init_def calls_view_def locks_init_def)
    then have "phase_of t x = Outside" if "is_task t x" for t using that by (cases t) simp_all
    then show ?thesis by (auto simp: emitting_def)
  qed
  ultimately show ?case using x by (simp add: calls_inv_def calls_init_def)
next
  case (2 x y)
  then show ?case using calls_step_inv by blast
next
  case (3 x y)
  then show ?case using calls_step_view by blast
qed

subsection \<open>Properties\<close>

lemma calls_reachable:
  assumes laws: "\<forall>c. x_receiver_alive ext c" "feed_build_law ext" and init: "calls_init ext ch n x" and run: "(calls_step ext cap ch)\<^sup>*\<^sup>* x y"
  shows "calls_inv ext cap ch y" and "(lock_step cap)\<^sup>*\<^sup>* (locks_init n) (calls_view ch y)"
proof -
  have "\<exists>n. calls_init ext ch n x" using init by blast
  from store_calls.reachable_view [OF this run] laws show "calls_inv ext cap ch y" "(lock_step cap)\<^sup>*\<^sup>* (locks_init n) (calls_view ch y)"
    using init by (simp_all add: calls_init_def)
qed

lemma deadlocked_store:
  assumes inv: "calls_inv ext cap ch x" and dead: "deadlocked cap (calls_view ch x)" and step: "calls_step ext cap ch x y"
  shows "ca_store y = ca_store x"
proof -
  have excl: "exclusive cap (calls_view ch x)" using inv by (simp add: calls_inv_def)
  obtain u where u: "is_task u x" "phase_of u x = Emitting"
  proof (cases "ca_follower x = Emitting")
    case True
    then show ?thesis by (intro that [of None]) simp_all
  next
    case False
    then obtain i where "i < length (ca_callers x)" "ca_callers x ! i = Emitting"
      using dead by (auto simp: deadlocked_def calls_view_def in_set_conv_nth)
    then show ?thesis by (intro that [of "Some i"]) simp_all
  qed
  have alone: "t = u" if "is_task t x" "phase_of t x = Inside" for t
    using holder_alone [OF excl u(1) _ that(1)] u(2) that(2) by (simp add: holding_def)
  have full: "\<not> event_count ch (ca_store x) - ca_taken x < cap" using dead by (simp add: deadlocked_def calls_view_def)
  from step show ?thesis by cases (use alone u(2) full in fastforce)+
qed

lemma deadlocked_steps:
  assumes laws: "\<forall>c. x_receiver_alive ext c" "feed_build_law ext" and inv: "calls_inv ext cap ch x" and dead: "deadlocked cap (calls_view ch x)"
    and run: "(calls_step ext cap ch)\<^sup>*\<^sup>* x y"
  shows "calls_inv ext cap ch y \<and> deadlocked cap (calls_view ch y) \<and> ca_store y = ca_store x"
  using run
proof (induction rule: rtranclp_induct)
  case base
  then show ?case using inv dead by simp
next
  case (step y z)
  then have y: "calls_inv ext cap ch y" "deadlocked cap (calls_view ch y)" "ca_store y = ca_store x" by simp_all
  have "exclusive cap (calls_view ch y)" using y(1) by (simp add: calls_inv_def)
  with y(2) have "deadlocked cap (calls_view ch z)" using calls_step_view [OF laws y(1) step.hyps(2)] by (rule deadlocked_step(1))
  with calls_step_inv [OF laws y(1) step.hyps(2)] deadlocked_store [OF y(1,2) step.hyps(2)] y(3) show ?case by simp
qed

text \<open>
  C26. The users of a corestore and its replication task, with the operations they really call behind the lock:
  every run is a run of the phases, so at most one task is inside and the event channel is never
  overfull; the corestore's invariant holds throughout; and once the tasks wait for each other the
  corestore never changes again, whatever they do.
\<close>

theorem store_calls_refine_locks:
  assumes "\<forall>c. x_receiver_alive ext c" and "feed_build_law ext" and "calls_init ext ch n x" and "(calls_step ext cap ch)\<^sup>*\<^sup>* x y"
  shows "(lock_step cap)\<^sup>*\<^sup>* (locks_init n) (calls_view ch y) \<and> exclusive cap (calls_view ch y) \<and> cs_inv ext (ca_store y) \<and>
    (deadlocked cap (calls_view ch y) \<longrightarrow> (\<forall>z. (calls_step ext cap ch)\<^sup>*\<^sup>* y z \<longrightarrow> ca_store z = ca_store y))"
proof -
  note y = calls_reachable [OF assms]
  have "exclusive cap (calls_view ch y)" "cs_inv ext (ca_store y)" using y(1) by (simp_all add: calls_inv_def store_ok_def)
  with y deadlocked_steps [OF assms(1,2) y(1)] show ?thesis by blast
qed

definition sample_calls :: "(sample_files, sample_feed) calls" where
  "sample_calls = \<lparr>ca_store = sample_store, ca_new = sample_store, ca_taken = 0, ca_callers = [Outside], ca_follower = Outside\<rparr>"

lemma sample_get_by_name_sent:
  "\<exists>s'. Corestore_get_by_name sample_ext [1] sample_store = (Inr 0, s') \<and> cs_sent s' = [(0, CorestoreFeed 0)]"
  by (simp add: corestore_run_simps rust_simps sample_ext_def sample_store_def FeedMap_new_def Let_def)

theorem store_calls_refine_locks_witness:
  "\<exists>y. (calls_step sample_ext 100 0)\<^sup>*\<^sup>* sample_calls y \<and> cs_sent (ca_store y) = [(0, CorestoreFeed 0)] \<and>
     (lock_step 100)\<^sup>*\<^sup>* (locks_init 1) (calls_view 0 y) \<and> cs_inv sample_ext (ca_store y)"
proof -
  obtain s' where s': "Corestore_get_by_name sample_ext [1] sample_store = (Inr 0, s')" "cs_sent s' = [(0, CorestoreFeed 0)]"
    using sample_get_by_name_sent by blast
  have step: "corestore_step sample_ext sample_store s'" using s'(1) sample_room by (auto intro: corestore_step.by_name)
  let ?at = "\<lambda>p s n. \<lparr>ca_store = s, ca_new = n, ca_taken = 0, ca_callers = [p], ca_follower = Outside\<rparr>"
  have none: "cs_sent sample_store = []" by (simp add: sample_store_def)
  have free: "\<not> locked (calls_view 0 (?at Locking sample_store sample_store))" by (simp add: locked_def calls_view_def holding_def)
  have "calls_step sample_ext 100 0 (?at Outside sample_store sample_store) (?at Locking sample_store sample_store)"
    using calls_step.call [of "Some 0" "?at Outside sample_store sample_store" sample_ext 100 0] by simp
  moreover have "calls_step sample_ext 100 0 (?at Locking sample_store sample_store) (?at Inside sample_store sample_store)"
    using calls_step.lock [of "Some 0" "?at Locking sample_store sample_store" 0 sample_ext 100] free by simp
  moreover have "calls_step sample_ext 100 0 (?at Inside sample_store sample_store) (?at Emitting sample_store s')"
    using calls_step.new_feed [of "Some 0" "?at Inside sample_store sample_store" sample_ext s' 100 0] step s'(2) none by simp
  moreover have "calls_step sample_ext 100 0 (?at Emitting sample_store s') (?at Outside s' s')"
    using calls_step.send [of "Some 0" "?at Emitting sample_store s'" 0 100 sample_ext] none by (simp add: event_count_def received_def)
  ultimately have run: "(calls_step sample_ext 100 0)\<^sup>*\<^sup>* sample_calls (?at Outside s' s')"
    unfolding sample_calls_def by (meson rtranclp.rtrancl_into_rtrancl rtranclp.rtrancl_refl)
  have alive: "\<forall>c. x_receiver_alive sample_ext c" by (simp add: sample_ext_def)
  have init: "calls_init sample_ext 0 1 sample_calls"
    using sample_cs_inv none by (simp add: calls_init_def store_ok_def sample_calls_def event_count_def received_def calls_view_def locks_init_def)
      (simp add: sample_store_def)
  from store_calls_refine_locks [OF alive sample_feed_build_law init run] run s'(2) show ?thesis
    by (intro exI [of _ "?at Outside s' s'"]) simp
qed

end
