(* ===== verification/Demo_App.thy ===== *)
theory Demo_App
  imports Server_App
begin

section \<open>The programs (\<open>corestore/examples/demo.rs\<close>, \<open>server/src/bin.rs\<close>)\<close>

text \<open>
  The demonstration opens a corestore, appends a block to a named feed, opens two feeds by key and then
  replicates the corestore over a TCP connection, as client or as server.  The server's program runs a
  bootstrap node of the swarm or listens.  Arguments of the definitions stand for \<open>hex::decode\<close>, for the
  TCP sockets and for \<open>run_bootstrap_node\<close>.
\<close>

subsection \<open>The demonstration\<close>

datatype 'a program = Exit nat | Run 'a

definition demo_key_strings :: "string list" where
  "demo_key_strings =
     [''f22d5e2f38acbe6b1050ec9d11a35c4e49113a50b83607d784e31d71318fb001'',
      ''48b3f23d7f2944b736d2a97643f0cecb98753d63c595dd80b28be4dfd748e929'']"

text \<open>\<open>hex::decode(k).unwrap().try_into().unwrap()\<close>\<close>

definition demo_key :: "(string \<Rightarrow> bytes option) \<Rightarrow> string \<Rightarrow> bytes result" where
  "demo_key hex_decode k =
     (case hex_decode k of
        None \<Rightarrow> Inl (Panic ''called Result::unwrap() on an Err value'')
      | Some b \<Rightarrow> map_sum panic_of id (key_try_into b))"

fun demo_collect :: "(string \<Rightarrow> bytes option) \<Rightarrow> string list \<Rightarrow> bytes list result" where
  "demo_collect hex_decode [] = Inr []"
| "demo_collect hex_decode (k # ks) =
     (case demo_key hex_decode k of
        Inl e \<Rightarrow> Inl e
      | Inr key \<Rightarrow> map_sum id (\<lambda>keys. key # keys) (demo_collect hex_decode ks))"

definition demo_keys :: "(string \<Rightarrow> bytes option) \<Rightarrow> bytes list result" where
  "demo_keys hex_decode = demo_collect hex_decode demo_key_strings"

text \<open>The first block of \<open>async_main\<close>; its value is what is printed.\<close>

definition demo_first ::
  "('w, 'f, 'st, 'h) cs_ext \<Rightarrow> ('w, 'f, 'nd, 'sig) feed_api \<Rightarrow> (('w, 'f) cs_state, bytes option) rust" where
  "demo_first ext fa =
     rust_bind (Corestore_get_by_name ext (as_bytes ''first'')) (\<lambda>feed.
     with_feed feed (rust_bind (f_append fa (as_bytes ''foo'')) (\<lambda>_. f_get fa 0)))"

definition demo_open_keys ::
  "('w, 'f, 'st, 'h) cs_ext \<Rightarrow> ('w, 'f, 'nd, 'sig) feed_api \<Rightarrow> bytes list \<Rightarrow> (('w, 'f) cs_state, unit) rust" where
  "demo_open_keys ext fa keys =
     rust_for (\<lambda>key.
       rust_bind (Corestore_get_by_key ext key) (\<lambda>feed.
       rust_bind (peek_feed feed (\<lambda>f. (x_feed_public_key ext f, f_len fa f))) (\<lambda>_.
       rust_return ()))) keys"

datatype demo_mode = DemoClient | DemoServer

definition demo_mode_of :: "string \<Rightarrow> demo_mode option" where
  "demo_mode_of mode = (if mode = ''client'' then Some DemoClient else if mode = ''server'' then Some DemoServer else None)"

text \<open>
  \<open>async_main\<close> up to the point where its tasks run: the mode is looked at after the corestore has been
  written to.  \<open>usage\<close> ends the program.
\<close>

definition demo_start ::
  "('w, 'f, 'st, 'h) cs_ext \<Rightarrow> ('w, 'f, 'nd, 'sig) feed_api \<Rightarrow> (string \<Rightarrow> bytes option) \<Rightarrow> string list \<Rightarrow> 'w \<Rightarrow>
   (demo_mode \<times> ('w, 'f, 'bf) hub_state) program result \<times> 'w" where
  "demo_start ext fa hex_decode args w =
     (if length args \<noteq> 3 then (Inr (Exit 1), w)
      else
        (case Corestore_open ext [args ! 1] w of
           (Inl e, w) \<Rightarrow> (Inl e, w)
         | (Inr corestore, w) \<Rightarrow>
             (case rust_bind (demo_first ext fa) (\<lambda>_.
                   rust_bind (rust_lift (demo_keys hex_decode)) (demo_open_keys ext fa)) corestore of
                (Inl e, corestore) \<Rightarrow> (Inl e, cs_world corestore)
              | (Inr _, corestore) \<Rightarrow>
                  (case demo_mode_of (args ! 2) of
                     None \<Rightarrow> (Inr (Exit 1), cs_world corestore)
                   | Some mode \<Rightarrow> (Inr (Run (mode, Replicator_new corestore)), cs_world corestore)))))"

definition demo_task_client :: "('w, unit) rust \<Rightarrow> (('w, 'f, 'bf) hub_state, unit) rust" where
  "demo_task_client connect = rust_bind (in_corestore (in_world connect)) (\<lambda>_. Replicator_add_stream)"

text \<open>\<open>while let Some(Ok(stream)) = incoming.next().await\<close>\<close>

fun demo_accept :: "('c \<Rightarrow> ('w, unit) rust) \<Rightarrow> (fault + 'c) list \<Rightarrow> (('w, 'f, 'bf) hub_state, unit) rust" where
  "demo_accept peer_addr [] = rust_return ()"
| "demo_accept peer_addr (Inl e # incoming) = rust_return ()"
| "demo_accept peer_addr (Inr stream # incoming) =
     rust_bind (rust_unwrap (in_corestore (in_world (peer_addr stream)))) (\<lambda>_.
     rust_bind Replicator_add_stream (\<lambda>_.
     demo_accept peer_addr incoming))"

definition demo_task_server ::
  "('w, unit) rust \<Rightarrow> ('w, unit) rust \<Rightarrow> ('c \<Rightarrow> ('w, unit) rust) \<Rightarrow> (fault + 'c) list \<Rightarrow> (('w, 'f, 'bf) hub_state, unit) rust" where
  "demo_task_server bind local_addr peer_addr incoming =
     rust_bind (in_corestore (in_world bind)) (\<lambda>_.
     rust_bind (in_corestore (in_world local_addr)) (\<lambda>_.
     demo_accept peer_addr incoming))"

text \<open>
  The end of \<open>async_main\<close>: what \<open>stats\<close> returns is printed, an error of the replication task is returned, and the
  result of the network task is only logged, unless it has panicked.  \<open>join_all\<close> of the replicator has no error.
\<close>

definition demo_finish ::
  "bytes list \<Rightarrow> unit result \<Rightarrow> unit result \<Rightarrow> ('w, 'f, 'bf) hub_state \<Rightarrow> (bytes \<times> stats list) list \<times> unit result" where
  "demo_finish order task network_task replicator =
     (Replicator_stats order replicator,
      (case task of
         Inl e \<Rightarrow> Inl e
       | Inr _ \<Rightarrow> (case network_task of Inl (Panic m) \<Rightarrow> Inl (Panic m) | Inl (IoError _) \<Rightarrow> Inr () | Inr _ \<Rightarrow> Inr ())))"

subsection \<open>The server's program\<close>

text \<open>\<open>run_bootstrap_node\<close> gives a task that runs until the node ends; \<open>None\<close> is the end of the program.\<close>

definition server_async_main ::
  "('w, 'f, 'st, 'h) cs_ext \<Rightarrow> (string option \<Rightarrow> ('w, ('w, unit) rust) rust) \<Rightarrow> path option \<Rightarrow> string \<Rightarrow> opts \<Rightarrow> 'w \<Rightarrow>
   (('w, 'f, 'bf) daemon \<times> string) option result \<times> 'w" where
  "server_async_main ext run_bootstrap_node home_dir temp_dir opts w =
     (if op_dht opts then
        (case run_bootstrap_node (op_address opts) w of
           (Inl e, w) \<Rightarrow> (Inl e, w)
         | (Inr task, w) \<Rightarrow> (case task w of (r, w) \<Rightarrow> (map_sum id (\<lambda>_. None) r, w)))
      else (case listen_start ext home_dir temp_dir opts w of (r, w) \<Rightarrow> (map_sum id Some r, w)))"

subsection \<open>What the demonstration does\<close>

text \<open>The named feed grows by one block at every start, and its first block is the first one ever appended.\<close>

lemma demo_first_run:
  assumes "feed_build_law ext" and blocks: "feed_blocks fa block" and opened: "Corestore_open ext p w = (Inr s, w')"
    and run: "demo_first ext fa s = (Inr b, s')"
  obtains q s1 f f' where "Corestore_get_by_name ext (as_bytes ''first'') s = (Inr q, s1)" "deref (cs_heap s1) q = Some f"
    "deref (cs_heap s') q = Some f'" "block f' = (block f)(f_len fa f \<mapsto> as_bytes ''foo'')"
    "unat (f_len fa f') = Suc (unat (f_len fa f))" "b = block f' 0"
proof -
  have "corestore_init ext p s" using opened by (auto simp: corestore_init_def)
  then have inv: "cs_inv ext s" by (rule corestore_init_inv)
  have "cs_room s" using opened by (rule Corestore_open_ok) (simp add: FeedMap_new_def)
  obtain q s1 where s1: "Corestore_get_by_name ext (as_bytes ''first'') s = (Inr q, s1)"
      "with_feed q (rust_bind (f_append fa (as_bytes ''foo'')) (\<lambda>_. f_get fa 0)) s1 = (Inr b, s')"
    using run by (auto simp: demo_first_def elim!: rust_bind_InrE)
  obtain f where f: "deref (cs_heap s1) q = Some f"
    using get_by_name_feed [OF assms(1) inv \<open>cs_room s\<close> s1(1)] by blast
  from s1(2) f obtain f2 w2 where m: "rust_bind (f_append fa (as_bytes ''foo'')) (\<lambda>_. f_get fa 0) (f, cs_world s1) = (Inr b, f2, w2)"
      "s' = s1\<lparr>cs_heap := (cs_heap s1)[q := f2], cs_world := w2\<rparr>"
    by (rule with_feedE)
  then obtain f1 w1 where f1: "f_append fa (as_bytes ''foo'') (f, cs_world s1) = (Inr (), f1, w1)" "f_get fa 0 (f1, w1) = (Inr b, f2, w2)"
    by (auto elim!: rust_bind_InrE)
  have app: "appended fa block (as_bytes ''foo'') f f1" using feed_append_appended [OF blocks f1(1)] .
  have got: "same_log fa block f1 f2" "b = block f1 0" using feed_get_same [OF blocks f1(2)] feed_get_answer [OF blocks f1(2) refl] by blast+
  show ?thesis
    using app got f m(2) by (intro that [OF s1(1) f, of f2]) (simp_all add: appended_def same_log_def deref_eq_Some)
qed

text \<open>The demonstration's server adds the connections up to the first that fails, and then ends without an error.\<close>

lemma demo_accept_run:
  assumes "\<And>c v. \<exists>v'. peer_addr c v = (Inr (), v')"
  shows "\<exists>s'. demo_accept peer_addr incoming s = (Inr (), s') \<and>
    length (hb_tasks s') = length (hb_tasks s) + length (takeWhile (\<lambda>c. \<not> isl c) incoming)"
proof (induction incoming arbitrary: s)
  case Nil
  then show ?case by (simp add: rust_return_apply)
next
  case (Cons x incoming)
  show ?case
  proof (cases x)
    case (Inl e)
    then show ?thesis by (simp add: rust_return_apply)
  next
    case (Inr stream)
    obtain v where v: "peer_addr stream (cs_world (hb_store s)) = (Inr (), v)" using assms by blast
    let ?s = "snd (Replicator_add_stream (s\<lparr>hb_store := (hb_store s)\<lparr>cs_world := v\<rparr>\<rparr>))"
    obtain s' where "demo_accept peer_addr incoming ?s = (Inr (), s')"
        "length (hb_tasks s') = length (hb_tasks ?s) + length (takeWhile (\<lambda>c. \<not> isl c) incoming)"
      using Cons.IH by blast
    with v Inr show ?thesis
      by (simp add: rust_bind_apply rust_unwrap_apply in_corestore_def in_world_def Replicator_add_stream_def Replicator_run_peer_def
          rust_modify_apply)
  qed
qed

end
